(* ===== verification/Prelude.thy ===== *)
theory Prelude
  imports Main "HOL-Library.AList" "HOL-Library.Sublist" "HOL-Library.Char_ord"
    "HOL-Library.List_Lexorder" "HOL-Library.Product_Lexorder" "HOL-Library.Multiset"
    "HOL-Library.Word"
begin

section \<open>Shared vocabulary of the development\<close>

text \<open>
  The prelude holds what every component uses: the exceptions the Python code raises, the
  type of an operation that may raise after it has changed its state, Python's insertion
  ordered \<^verbatim>\<open>dict\<close> as an association list, the string operations the source calls, and the
  generic interfaces (locales) the components are shown to implement.

  Conventions. A Python \<^verbatim>\<open>datetime\<close> and a monotonic clock reading are an
  \<open>instant\<close>, an \<open>int\<close> number of microseconds; Python \<^verbatim>\<open>int\<close> values that
  the models constrain by \<^verbatim>\<open>ge=0\<close> are \<open>nat\<close>; \<^verbatim>\<open>str\<close> is \<open>string\<close>. The text of an
  exception message is not modelled, its class and its reason code are. An operation is a
  function from the state to a result and the state it leaves behind, so that a mutation
  made before a \<^verbatim>\<open>raise\<close> is not lost.
\<close>

named_theorems mdefs \<open>definitions a component proof unfolds\<close>
named_theorems eff_simps \<open>equations that run an operation\<close>
named_theorems keeps \<open>frame facts: what an operation does not change\<close>

type_synonym instant = int
type_synonym duration = int

subsection \<open>Exceptions\<close>

datatype refusal_reason =
    NO_AUTHORITY | MISSING_GRANT | MALFORMED_GRANT | FOREIGN_AUTHORITY | INVALID_SIGNATURE
  | EXPIRED | CONSUMED | REVOKED | TOOL_MISMATCH | RESOURCE_MISMATCH | PARAMETER_MISMATCH
  | IDENTITY_MISMATCH | INVALID_REQUEST

datatype (plugins only: code) exn =
    ValueError | TypeError | KeyError | PermissionError
  | AgentAlreadyExistsError | AgentNotFoundError | AgentNotSuspendedError
  | EnforcementConcurrencyError | AdministrativeConcurrencyError
  | IllegalAdministrativeTransitionError | EnforcementStateUnavailableError
  | AdministrativeStateUnavailableError | AdministrativeTransitionInvariantError
  | AgentAlreadyRegisteredError | ReinstatementIncompleteError
  | ExecutionBindingError refusal_reason | ExecutionBindingValidationError
  | InvalidContinuationTransitionError
  | SessionAlreadyExistsError | SessionNotFoundError | SessionBindingError
  | SessionTerminalError | SessionRepositoryError
  | ProjectionInvariantError | PostureReconciliationError | AmbiguousAssessmentScopeError
  | ToolNotFoundError | ToolAlreadyExistsError | DuplicateToolRegistrationError
  | ToolNotRegisteredError | ToolVersionMismatchError | AmbiguousToolVersionError
  | ToolMetadataValidationError | ToolDisabledError | ToolExecutionError bool
  | CapabilityProfileNotFoundError | CapabilityDigestMismatchError
  | SandboxUnavailableError | SandboxTimeoutError | SandboxResourceExhaustedError
  | SandboxIsolationError | TimeoutError | InterruptedError | OtherError string
  | ExecutionEvidenceUnavailableError | ExecutionEvidenceIntegrityError
  | ExecutionReceiptNotFoundError | ExecutionReceiptDuplicateError
  | ExecutionReceiptTransitionError
  | FilesystemResourceIdentityError

text \<open>
  \<^verbatim>\<open>SessionTerminalError\<close> is a subclass of \<^verbatim>\<open>SessionBindingError\<close> and
  \<^verbatim>\<open>AmbiguousToolVersionError\<close> of \<^verbatim>\<open>ToolVersionMismatchError\<close>; an \<^verbatim>\<open>except\<close> clause naming
  the parent catches both. The argument of \<open>ToolExecutionError\<close> says whether its
  \<^verbatim>\<open>evidence_failure\<close> attribute is set.
\<close>

definition is_SessionBindingError :: "exn \<Rightarrow> bool" where
  "is_SessionBindingError e \<longleftrightarrow> e \<in> {SessionBindingError, SessionTerminalError}"

definition is_ToolVersionMismatchError :: "exn \<Rightarrow> bool" where
  "is_ToolVersionMismatchError e \<longleftrightarrow> e \<in> {ToolVersionMismatchError, AmbiguousToolVersionError}"

subsection \<open>Operations that may raise\<close>

type_synonym 'a res = "exn + 'a"
type_synonym ('s, 'a) eff = "'s \<Rightarrow> 'a res \<times> 's"

definition ok :: "'a \<Rightarrow> ('s, 'a) eff" where
  "ok x s = (Inr x, s)"

definition throw :: "exn \<Rightarrow> ('s, 'a) eff" where
  "throw e s = (Inl e, s)"

definition and_then :: "('s, 'a) eff \<Rightarrow> ('a \<Rightarrow> ('s, 'b) eff) \<Rightarrow> ('s, 'b) eff" where
  "and_then m f s = (case m s of (Inl e, s') \<Rightarrow> (Inl e, s') | (Inr x, s') \<Rightarrow> f x s')"

definition on_raise :: "('s, 'a) eff \<Rightarrow> (exn \<Rightarrow> ('s, 'a) eff) \<Rightarrow> ('s, 'a) eff" where
  "on_raise m h s = (case m s of (Inl e, s') \<Rightarrow> h e s' | (Inr x, s') \<Rightarrow> (Inr x, s'))"

definition res_bind :: "'a res \<Rightarrow> ('a \<Rightarrow> 'b res) \<Rightarrow> 'b res" where
  "res_bind r f = (case r of Inl e \<Rightarrow> Inl e | Inr x \<Rightarrow> f x)"

fun returns :: "'a res \<times> 's \<Rightarrow> bool" where
  "returns (Inr x, s) = True"
| "returns (Inl e, s) = False"

lemma ok_run [simp, eff_simps]: "ok x s = (Inr x, s)"
  by (simp add: ok_def)

lemma throw_run [simp, eff_simps]: "throw e s = (Inl e, s)"
  by (simp add: throw_def)

lemma and_then_Inr: "m s = (Inr x, s') \<Longrightarrow> and_then m f s = f x s'"
  by (simp add: and_then_def)

lemma and_then_Inl: "m s = (Inl e, s') \<Longrightarrow> and_then m f s = (Inl e, s')"
  by (simp add: and_then_def)

lemma and_then_returns:
  "and_then m f s = (Inr y, t) \<longleftrightarrow> (\<exists>x s'. m s = (Inr x, s') \<and> f x s' = (Inr y, t))"
  by (auto simp: and_then_def split: prod.splits sum.splits)

lemma res_bind_simps [simp]:
  "res_bind (Inl e) f = Inl e" "res_bind (Inr x) f = f x"
  by (simp_all add: res_bind_def)

lemma res_bind_Inr: "res_bind r f = Inr y \<longleftrightarrow> (\<exists>x. r = Inr x \<and> f x = Inr y)"
  by (cases r) auto

lemma returns_iff: "returns p \<longleftrightarrow> (\<exists>x s. p = (Inr x, s))"
  by (cases p; cases "fst p") auto

subsection \<open>Dictionaries\<close>

text \<open>
  Python's \<^verbatim>\<open>dict\<close> keeps insertion order: assigning an existing key keeps its place, a new key
  goes to the end. \<open>AList.update\<close> does exactly that, and \<open>AList.delete\<close> is \<^verbatim>\<open>del\<close>
  (or \<^verbatim>\<open>pop(key, None)\<close>) on a dictionary whose keys are distinct.
\<close>

type_synonym ('k, 'v) dict = "('k \<times> 'v) list"

abbreviation dget :: "('k, 'v) dict \<Rightarrow> 'k \<Rightarrow> 'v option" where
  "dget d k \<equiv> map_of d k"

abbreviation dset :: "'k \<Rightarrow> 'v \<Rightarrow> ('k, 'v) dict \<Rightarrow> ('k, 'v) dict" where
  "dset \<equiv> AList.update"

abbreviation ddel :: "'k \<Rightarrow> ('k, 'v) dict \<Rightarrow> ('k, 'v) dict" where
  "ddel \<equiv> AList.delete"

abbreviation dvals :: "('k, 'v) dict \<Rightarrow> 'v list" where
  "dvals d \<equiv> map snd d"

abbreviation dkeys :: "('k, 'v) dict \<Rightarrow> 'k list" where
  "dkeys d \<equiv> map fst d"

definition get_or :: "('k, 'v) dict \<Rightarrow> 'k \<Rightarrow> 'v \<Rightarrow> 'v" where
  "get_or d k v = (case dget d k of None \<Rightarrow> v | Some x \<Rightarrow> x)"

declare map_of_eq_Some_iff [simp del] Some_eq_map_of_iff [simp del]

lemma dget_dset [simp]: "dget (dset k v d) k' = (if k' = k then Some v else dget d k')"
  by (simp add: update_conv')

lemma dget_ddel [simp]: "dget (ddel k d) k' = (if k' = k then None else dget d k')"
  by (simp add: delete_conv')

lemma distinct_dset [simp, intro]: "distinct (dkeys d) \<Longrightarrow> distinct (dkeys (dset k v d))"
  by (simp add: distinct_update)

lemma distinct_ddel [simp, intro]: "distinct (dkeys d) \<Longrightarrow> distinct (dkeys (ddel k d))"
  by (simp add: distinct_delete)

lemma dget_filter:
  "distinct (dkeys d) \<Longrightarrow>
   dget (filter (\<lambda>(k, v). P k v) d) k = (case dget d k of Some v \<Rightarrow> if P k v then Some v else None | None \<Rightarrow> None)"
  by (induction d) (auto split: option.splits dest: map_of_SomeD simp: rev_image_eqI)

lemma distinct_dfilter [simp, intro]: "distinct (dkeys d) \<Longrightarrow> distinct (dkeys (filter P d))"
  by (rule distinct_map_filter)

lemma dvals_iff: "distinct (dkeys d) \<Longrightarrow> v \<in> set (dvals d) \<longleftrightarrow> (\<exists>k. dget d k = Some v)"
  by (force simp: map_of_eq_Some_iff image_iff)

lemma get_or_dset [simp]: "get_or (dset k v d) k' x = (if k' = k then v else get_or d k' x)"
  by (simp add: get_or_def)

lemma get_or_empty [simp]: "get_or [] k x = x"
  by (simp add: get_or_def)

subsection \<open>Strings\<close>

text \<open>
  \<^verbatim>\<open>str.strip\<close>, \<^verbatim>\<open>str.casefold\<close>, \<^verbatim>\<open>str.lower\<close> and \<^verbatim>\<open>x in y\<close> on ASCII text.
\<close>

definition is_space :: "char \<Rightarrow> bool" where
  "is_space c \<longleftrightarrow> of_char c \<in> {9, 10, 11, 12, 13, 28, 29, 30, 31, 32 :: nat}"

definition strip :: "string \<Rightarrow> string" where
  "strip s = rev (dropWhile is_space (rev (dropWhile is_space s)))"

definition lower_char :: "char \<Rightarrow> char" where
  "lower_char c = (if 65 \<le> (of_char c :: nat) \<and> (of_char c :: nat) \<le> 90
                   then char_of ((of_char c :: nat) + 32) else c)"

definition casefold :: "string \<Rightarrow> string" where
  "casefold s = map lower_char s"

fun contains :: "string \<Rightarrow> string \<Rightarrow> bool" where
  "contains needle [] = (needle = [])"
| "contains needle (c # cs) = (prefix needle (c # cs) \<or> contains needle cs)"

definition is_blank :: "string \<Rightarrow> bool" where
  "is_blank s \<longleftrightarrow> strip s = []"

lemma contains_sublist: "contains needle hay \<longleftrightarrow> sublist needle hay"
  by (induction hay) (auto simp: sublist_Cons_right)

lemma is_blank_iff: "is_blank s \<longleftrightarrow> (\<forall>c\<in>set s. is_space c)"
proof
  assume "is_blank s"
  then have "\<forall>c\<in>set (dropWhile is_space s). is_space c"
    by (auto simp: is_blank_def strip_def)
  then have "dropWhile is_space s = []"
    by (metis hd_dropWhile hd_in_set)
  then show "\<forall>c\<in>set s. is_space c"
    by simp
next
  assume "\<forall>c\<in>set s. is_space c"
  then have "dropWhile is_space s = []" by simp
  then show "is_blank s" unfolding is_blank_def strip_def by (simp only: rev.simps dropWhile.simps)
qed

end
