(* ===== verification/Interfaces.thy ===== *)
theory Interfaces
  imports Prelude
begin

section \<open>Interfaces shared by the components\<close>

text \<open>
  Four contracts recur in the platform, each implemented by several components: a store whose
  writes are compare-and-set on a version, an allocator of monotonic positions, a store of
  tokens each of which is good for one claim, and a lifecycle with terminal states. Each is a
  locale: its \<^theory_text>\<open>fixes\<close> are the operations a client calls, its \<^theory_text>\<open>assumes\<close> the laws the
  provider promises. The components interpret them on their own definitions.
\<close>

subsection \<open>Runs of operations\<close>

primrec run_ops :: "('op \<Rightarrow> 's \<Rightarrow> 'r \<times> 's) \<Rightarrow> 'op list \<Rightarrow> 's \<Rightarrow> 's" where
  "run_ops f [] s = s"
| "run_ops f (x # xs) s = run_ops f xs (snd (f x s))"

primrec results :: "('op \<Rightarrow> 's \<Rightarrow> 'r \<times> 's) \<Rightarrow> 'op list \<Rightarrow> 's \<Rightarrow> ('op \<times> 'r) list" where
  "results f [] s = []"
| "results f (x # xs) s = (x, fst (f x s)) # results f xs (snd (f x s))"

lemma run_ops_append: "run_ops f (xs @ ys) s = run_ops f ys (run_ops f xs s)"
  by (induction xs arbitrary: s) auto

lemma run_ops_invariant:
  assumes "\<And>x s. P s \<Longrightarrow> P (snd (f x s))" and "P s"
  shows "P (run_ops f xs s)"
  using assms(2) by (induction xs arbitrary: s) (auto intro: assms(1))

subsection \<open>Compare-and-set stores\<close>

text \<open>
  A commit names the version it read. It reports \<open>True\<close> only when that version is still
  the stored one, and then the version has advanced by exactly one; anything else
  (a lost update, or a refused write) leaves the store as it was.
\<close>

locale cas_store =
  fixes ver :: "'st \<Rightarrow> 'k \<Rightarrow> nat"
    and commit :: "'op \<Rightarrow> 'st \<Rightarrow> bool res \<times> 'st"
    and key :: "'op \<Rightarrow> 'k"
    and expected :: "'op \<Rightarrow> nat"
  assumes commit_reads: "commit x s = (Inr True, s') \<Longrightarrow> ver s (key x) = expected x"
    and commit_advances: "commit x s = (Inr True, s') \<Longrightarrow> ver s' (key x) = Suc (expected x)"
    and commit_frame: "commit x s = (Inr True, s') \<Longrightarrow> k \<noteq> key x \<Longrightarrow> ver s' k = ver s k"
    and refusal_inert: "commit x s = (r, s') \<Longrightarrow> r \<noteq> Inr True \<Longrightarrow> s' = s"
begin

lemma lost_update:
  assumes "commit x s = (Inr True, s')" and "key y = key x" and "expected y = expected x"
  shows "fst (commit y s') \<noteq> Inr True"
proof
  assume "fst (commit y s') = Inr True"
  then obtain t where "commit y s' = (Inr True, t)" by (metis prod.collapse)
  then have "ver s' (key y) = expected y" by (rule commit_reads)
  with commit_advances [OF assms(1)] assms(2,3) show False by simp
qed

lemma commit_step:
  "ver (snd (commit x s)) k = ver s k + (if fst (commit x s) = Inr True \<and> k = key x then 1 else 0)"
proof (cases "fst (commit x s) = Inr True")
  case True
  then obtain t where c: "commit x s = (Inr True, t)" by (metis prod.collapse)
  show ?thesis
    using commit_reads [OF c] commit_advances [OF c] commit_frame [OF c, of k] c by auto
next
  case False
  then have "snd (commit x s) = s"
    using refusal_inert [of x s "fst (commit x s)" "snd (commit x s)"] by simp
  with False show ?thesis by simp
qed

lemma version_counts_commits:
  "ver (run_ops commit xs s) k =
     ver s k + length (filter (\<lambda>(x, r). r = Inr True \<and> key x = k) (results commit xs s))"
  by (induction xs arbitrary: s) (auto simp: commit_step)

lemma version_mono: "ver s k \<le> ver (run_ops commit xs s) k"
  by (simp add: version_counts_commits)

lemma one_winner:
  assumes "\<forall>x\<in>set xs. key x = k \<and> expected x = e"
  shows "length (filter (\<lambda>(x, r). r = Inr True) (results commit xs s)) \<le> 1"
  using assms
proof (induction xs arbitrary: s)
  case Nil
  then show ?case by simp
next
  case (Cons x xs)
  have later: "filter (\<lambda>(x, r). r = Inr True) (results commit ys t) = []"
    if "ver t k = Suc e" and "\<forall>y\<in>set ys. key y = k \<and> expected y = e" for ys t
    using that
  proof (induction ys arbitrary: t)
    case Nil
    then show ?case by simp
  next
    case (Cons y ys)
    have "fst (commit y t) \<noteq> Inr True"
      using commit_reads [of y t "snd (commit y t)"] Cons.prems by (metis list.set_intros(1) n_not_Suc_n prod.collapse)
    with Cons show ?case
      using commit_step [of y t k] by simp
  qed
  show ?case
  proof (cases "fst (commit x s) = Inr True")
    case True
    then have "ver (snd (commit x s)) k = Suc e"
      using commit_advances [of x s "snd (commit x s)"] Cons.prems
      by (metis list.set_intros(1) prod.collapse)
    with True Cons.prems later [of "snd (commit x s)" xs] show ?thesis by simp
  next
    case False
    with Cons show ?thesis by simp
  qed
qed

end

subsection \<open>Allocators of monotonic positions\<close>

locale allocator =
  fixes cur :: "'st \<Rightarrow> 'k \<Rightarrow> nat"
    and alloc :: "'op \<Rightarrow> 'st \<Rightarrow> nat option \<times> 'st"
    and akey :: "'op \<Rightarrow> 'k"
  assumes alloc_next: "alloc x s = (Some n, s') \<Longrightarrow> n = Suc (cur s (akey x)) \<and> cur s' (akey x) = n"
    and alloc_frame: "alloc x s = (Some n, s') \<Longrightarrow> k \<noteq> akey x \<Longrightarrow> cur s' k = cur s k"
    and alloc_none: "alloc x s = (None, s') \<Longrightarrow> cur s' k = cur s k"
begin

lemma alloc_step:
  "cur s k \<le> cur (snd (alloc x s)) k"
proof (cases "alloc x s")
  case (Pair r t)
  then show ?thesis
    using alloc_next [of x s _ t] alloc_frame [of x s _ t k] alloc_none [of x s t k]
    by (cases r; cases "k = akey x") auto
qed

lemma positions_above:
  "(x, Some n) \<in> set (results alloc xs s) \<Longrightarrow> akey x = k \<Longrightarrow> cur s k < n"
proof (induction xs arbitrary: s)
  case Nil
  then show ?case by simp
next
  case (Cons y ys)
  show ?case
  proof (cases "(x, Some n) = (y, fst (alloc y s))")
    case True
    then show ?thesis
      using alloc_next [of y s n "snd (alloc y s)"] Cons.prems(2)
      by (metis lessI prod.inject prod.collapse)
  next
    case False
    with Cons have "cur (snd (alloc y s)) k < n" by auto
    with alloc_step [of s k y] show ?thesis by simp
  qed
qed

lemma positions_increase:
  "sorted_wrt (<) [n. (x, Some n) \<leftarrow> results alloc xs s, akey x = k]"
proof (induction xs arbitrary: s)
  case Nil
  then show ?case by simp
next
  case (Cons y ys)
  show ?case
  proof (cases "fst (alloc y s)")
    case None
    with Cons show ?thesis by simp
  next
    case (Some m)
    then have "m = cur (snd (alloc y s)) (akey y)"
      using alloc_next [of y s m "snd (alloc y s)"] by (metis prod.collapse)
    with Some Cons positions_above [of _ _ ys "snd (alloc y s)" k] show ?thesis
      by (auto split: option.splits)
  qed
qed

end

subsection \<open>Tokens good for one claim\<close>

text \<open>
  \<open>claimed x s\<close> is the token the operation \<open>x\<close> claims successfully in state \<open>s\<close>, if any;
  \<open>mints x t\<close> says that \<open>x\<close> may create the token \<open>t\<close>. A claim needs a live token and
  ends it; an operation that does not mint a token never makes it live.
\<close>

locale single_use =
  fixes live :: "'st \<Rightarrow> 'tok \<Rightarrow> bool"
    and exec :: "'op \<Rightarrow> 'st \<Rightarrow> 'tok option \<times> 'st"
    and mints :: "'op \<Rightarrow> 'tok \<Rightarrow> bool"
    and good :: "'st \<Rightarrow> bool"
  assumes claim_live: "good s \<Longrightarrow> exec x s = (Some t, s') \<Longrightarrow> live s t"
    and claim_ends: "good s \<Longrightarrow> exec x s = (Some t, s') \<Longrightarrow> \<not> live s' t"
    and no_revival: "good s \<Longrightarrow> \<not> live s t \<Longrightarrow> \<not> mints x t \<Longrightarrow> \<not> live (snd (exec x s)) t"
    and good_step: "good s \<Longrightarrow> good (snd (exec x s))"
begin

lemma dead_stays_dead:
  assumes "good s" and "\<not> live s t" and "\<forall>x\<in>set xs. \<not> mints x t"
  shows "\<not> live (run_ops exec xs s) t"
  using assms
proof (induction xs arbitrary: s)
  case (Cons x xs)
  then show ?case using Cons.IH [OF good_step no_revival, of s x] by simp
qed simp

lemma dead_never_claimed:
  assumes "good s" and "\<not> live s t" and "\<forall>x\<in>set xs. \<not> mints x t"
  shows "filter (\<lambda>(x, r). r = Some t) (results exec xs s) = []"
  using assms
proof (induction xs arbitrary: s)
  case Nil
  then show ?case by simp
next
  case (Cons x xs)
  have "fst (exec x s) \<noteq> Some t"
    using claim_live [OF Cons.prems(1), of x t "snd (exec x s)"] Cons.prems(2) by (metis prod.collapse)
  moreover have "\<not> live (snd (exec x s)) t"
    using no_revival [OF Cons.prems(1,2), of x] Cons.prems(3) by simp
  ultimately show ?case
    using Cons.IH [OF good_step [OF Cons.prems(1), of x]] Cons.prems(3) by simp
qed

lemma at_most_one_claim:
  assumes "good s" and "\<forall>x\<in>set xs. \<not> mints x t"
  shows "length (filter (\<lambda>(x, r). r = Some t) (results exec xs s)) \<le> 1"
  using assms
proof (induction xs arbitrary: s)
  case Nil
  then show ?case by simp
next
  case (Cons x xs)
  show ?case
  proof (cases "fst (exec x s) = Some t")
    case True
    then have "\<not> live (snd (exec x s)) t"
      using claim_ends [OF Cons.prems(1), of x t "snd (exec x s)"] by (metis prod.collapse)
    then show ?thesis
      using True dead_never_claimed [OF good_step [OF Cons.prems(1), of x]] Cons.prems(2) by simp
  next
    case False
    then show ?thesis
      using Cons.IH [OF good_step [OF Cons.prems(1), of x]] Cons.prems(2) by simp
  qed
qed

end

subsection \<open>Lifecycles with terminal states\<close>

locale lifecycle =
  fixes trans :: "'a \<Rightarrow> 'a \<Rightarrow> bool"
    and terminal :: "'a \<Rightarrow> bool"
    and rank :: "'a \<Rightarrow> nat"
  assumes terminal_stuck: "terminal x \<Longrightarrow> \<not> trans x y"
    and progress: "\<not> terminal x \<Longrightarrow> \<exists>y. trans x y"
    and rank_mono: "trans x y \<Longrightarrow> rank x < rank y"
begin

lemma terminal_final: "trans\<^sup>*\<^sup>* x y \<Longrightarrow> terminal x \<Longrightarrow> y = x"
  by (metis converse_rtranclpE terminal_stuck)

lemma rank_path: "trans\<^sup>+\<^sup>+ x y \<Longrightarrow> rank x < rank y"
  by (induction rule: tranclp_induct) (auto dest: rank_mono)

lemma never_returns: "trans\<^sup>+\<^sup>+ x y \<Longrightarrow> \<not> trans\<^sup>*\<^sup>* y x"
proof
  assume "trans\<^sup>+\<^sup>+ x y" and "trans\<^sup>*\<^sup>* y x"
  then have "trans\<^sup>+\<^sup>+ x x" by (rule tranclp_rtranclp_tranclp)
  then show False using rank_path by blast
qed

end

end
