(* ===== verification/Administrative.thy ===== *)
theory Administrative
  imports Interfaces
begin

section \<open>The administrative lifecycle plane\<close>

text \<open>
  The administrative states, the legal transition graph and the ledger records of
  \<^verbatim>\<open>app/models/agent_administrative.py\<close>, the agent record of \<^verbatim>\<open>app/models/agent.py\<close>, and the
  in-memory repositories that hold them
  (\<^verbatim>\<open>app/repositories/in_memory/administrative_state_repository.py\<close>,
  \<^verbatim>\<open>agent_repository.py\<close>). The repository is shown to be a compare-and-set store, and its
  ledger to be self-checking evidence of the state it holds.
\<close>

subsection \<open>Data\<close>

datatype agent_status = ST_REGISTERED | ST_ACTIVE | ST_SUSPENDED | ST_DISABLED

datatype risk_tier = RT_LOW | RT_MEDIUM | RT_HIGH | RT_CRITICAL

record agent =
  ag_id :: string
  ag_name :: string
  ag_owner :: string
  ag_risk_tier :: risk_tier
  ag_approved_tools :: "string list"
  ag_status :: agent_status

datatype administrative_lifecycle_state = AL_REGISTERED | AL_ACTIVE | AL_DISABLED

datatype administrative_action = REGISTER | ACTIVATE | DISABLE

datatype actor_type = HUMAN | SYSTEM | RUNTIME

record actor =
  ac_type :: actor_type
  ac_id :: string

record administrative_transition =
  at_transition_id :: string
  at_agent_id :: string
  at_action :: administrative_action
  at_actor :: actor
  at_reason :: string
  at_previous_state :: "administrative_lifecycle_state option"
  at_new_state :: administrative_lifecycle_state
  at_version_before :: nat
  at_version_after :: nat
  at_correlation_id :: string
  at_occurred_at :: instant

record agent_administrative_state =
  as_agent_id :: string
  as_state :: administrative_lifecycle_state
  as_version :: nat
  as_last_transition_at :: "instant option"

subsection \<open>The transition graph\<close>

fun legal_administrative_transitions ::
  "administrative_lifecycle_state option \<Rightarrow> administrative_lifecycle_state list" where
  "legal_administrative_transitions None = [AL_REGISTERED]"
| "legal_administrative_transitions (Some AL_REGISTERED) = [AL_ACTIVE, AL_DISABLED]"
| "legal_administrative_transitions (Some AL_ACTIVE) = [AL_DISABLED]"
| "legal_administrative_transitions (Some AL_DISABLED) = []"

definition is_legal_administrative_transition ::
  "administrative_lifecycle_state option \<Rightarrow> administrative_lifecycle_state \<Rightarrow> bool" where
  "is_legal_administrative_transition previous new \<longleftrightarrow>
     new \<in> set (legal_administrative_transitions previous)"

text \<open>The dictionary of recorded actions; a missing pair is a \<^verbatim>\<open>KeyError\<close>.\<close>

fun administrative_transition_actions ::
  "administrative_lifecycle_state option \<times> administrative_lifecycle_state
     \<Rightarrow> administrative_action res" where
  "administrative_transition_actions (None, AL_REGISTERED) = Inr REGISTER"
| "administrative_transition_actions (Some AL_REGISTERED, AL_ACTIVE) = Inr ACTIVATE"
| "administrative_transition_actions (Some AL_REGISTERED, AL_DISABLED) = Inr DISABLE"
| "administrative_transition_actions (Some AL_ACTIVE, AL_DISABLED) = Inr DISABLE"
| "administrative_transition_actions _ = Inl KeyError"

definition administrative_step ::
  "administrative_lifecycle_state option \<Rightarrow> administrative_lifecycle_state option \<Rightarrow> bool" where
  "administrative_step p q \<longleftrightarrow> (\<exists>n. q = Some n \<and> is_legal_administrative_transition p n)"

fun administrative_rank :: "administrative_lifecycle_state option \<Rightarrow> nat" where
  "administrative_rank None = 0"
| "administrative_rank (Some AL_REGISTERED) = 1"
| "administrative_rank (Some AL_ACTIVE) = 2"
| "administrative_rank (Some AL_DISABLED) = 3"

lemmas administrative_graph =
  is_legal_administrative_transition_def administrative_step_def

lemma legal_cases:
  "is_legal_administrative_transition p n \<longleftrightarrow>
     (p, n) \<in> {(None, AL_REGISTERED), (Some AL_REGISTERED, AL_ACTIVE),
               (Some AL_REGISTERED, AL_DISABLED), (Some AL_ACTIVE, AL_DISABLED)}"
  by (cases p rule: legal_administrative_transitions.cases; cases n)
     (simp_all add: is_legal_administrative_transition_def)

interpretation alc: lifecycle administrative_step "\<lambda>p. p = Some AL_DISABLED" administrative_rank
proof
  fix x y :: "administrative_lifecycle_state option"
  show "x = Some AL_DISABLED \<Longrightarrow> \<not> administrative_step x y"
    by (simp add: administrative_graph)
  show "x \<noteq> Some AL_DISABLED \<Longrightarrow> \<exists>y. administrative_step x y"
    by (cases x rule: legal_administrative_transitions.cases) (auto simp: administrative_graph)
  show "administrative_step x y \<Longrightarrow> administrative_rank x < administrative_rank y"
    by (auto simp: administrative_step_def legal_cases)
qed

lemma actions_defined_iff_legal:
  "(\<exists>a. administrative_transition_actions (p, n) = Inr a) \<longleftrightarrow> is_legal_administrative_transition p n"
  by (cases p rule: legal_administrative_transitions.cases; cases n) (simp_all add: legal_cases)

subsection \<open>The repositories\<close>

text \<open>
  \<open>ar_fault\<close> is what a read of the repository raises: \<open>None\<close> for the in-memory
  adapter, an exception where the substrate behind the protocol cannot answer.
\<close>

record administrative_repo =
  ar_states :: "(string, agent_administrative_state) dict"
  ar_transitions :: "administrative_transition list"
  ar_fault :: "exn option"

definition empty_administrative_repo :: administrative_repo where
  "empty_administrative_repo = \<lparr>ar_states = [], ar_transitions = [], ar_fault = None\<rparr>"

definition administrative_get_state ::
  "administrative_repo \<Rightarrow> string \<Rightarrow> agent_administrative_state option res" where
  "administrative_get_state r aid =
     (case ar_fault r of Some e \<Rightarrow> Inl e | None \<Rightarrow> Inr (dget (ar_states r) aid))"

definition administrative_version :: "administrative_repo \<Rightarrow> string \<Rightarrow> nat" where
  "administrative_version r aid = (case dget (ar_states r) aid of None \<Rightarrow> 0 | Some p \<Rightarrow> as_version p)"

definition administrative_record_transition ::
  "administrative_transition \<Rightarrow> agent_administrative_state \<Rightarrow> nat \<Rightarrow> (administrative_repo, bool) eff" where
  "administrative_record_transition t ns expected r =
     (let aid = at_agent_id t;
          persisted = dget (ar_states r) aid;
          current = (case persisted of None \<Rightarrow> 0 | Some p \<Rightarrow> as_version p);
          previous = map_option as_state persisted
      in if current \<noteq> expected then (Inr False, r)
         else if as_version ns \<noteq> expected + 1 then (Inl AdministrativeTransitionInvariantError, r)
         else if \<not> is_legal_administrative_transition previous (as_state ns)
           then (Inl AdministrativeTransitionInvariantError, r)
         else if at_previous_state t \<noteq> previous \<or> at_new_state t \<noteq> as_state ns
               \<or> at_version_before t \<noteq> current \<or> at_version_after t \<noteq> as_version ns
           then (Inl AdministrativeTransitionInvariantError, r)
         else (Inr True, r\<lparr>ar_states := dset aid ns (ar_states r),
                          ar_transitions := ar_transitions r @ [t]\<rparr>))"

definition agent_save :: "agent \<Rightarrow> (string, agent) dict \<Rightarrow> (string, agent) dict" where
  "agent_save a d = dset (ag_id a) (a\<lparr>ag_status := ST_REGISTERED\<rparr>) d"

text \<open>
  \<^verbatim>\<open>commit_registration\<close> writes the agent record and the administrative record together; the
  agent store it was constructed with, if any, is the first component of its state.
\<close>

definition commit_registration ::
  "agent \<Rightarrow> administrative_transition \<Rightarrow> agent_administrative_state
     \<Rightarrow> ((string, agent) dict option \<times> administrative_repo, unit) eff" where
  "commit_registration a t ns st =
     (case st of
        (None, r) \<Rightarrow> (Inl AdministrativeStateUnavailableError, st)
      | (Some agents, r) \<Rightarrow>
          if dget agents (ag_id a) \<noteq> None then (Inl AgentAlreadyRegisteredError, st)
          else if \<not> is_legal_administrative_transition None (as_state ns)
            then (Inl AdministrativeTransitionInvariantError, st)
          else if as_version ns \<noteq> 1 then (Inl AdministrativeTransitionInvariantError, st)
          else (Inr (), (Some (agent_save a agents),
                         r\<lparr>ar_states := dset (ag_id a) ns (ar_states r),
                           ar_transitions := ar_transitions r @ [t]\<rparr>)))"

definition administrative_list_transitions ::
  "administrative_repo \<Rightarrow> string option \<Rightarrow> administrative_transition list" where
  "administrative_list_transitions r aid =
     sort_key (\<lambda>t. (at_occurred_at t, at_transition_id t))
       (filter (\<lambda>t. aid = None \<or> Some (at_agent_id t) = aid) (ar_transitions r))"

lemmas administrative_defs [mdefs] =
  administrative_get_state_def administrative_version_def administrative_record_transition_def
  commit_registration_def agent_save_def

lemma agent_save_lookup:
  "dget (agent_save a d) k = (if k = ag_id a then Some (a\<lparr>ag_status := ST_REGISTERED\<rparr>) else dget d k)"
  by (simp add: agent_save_def)

subsection \<open>The repository is a compare-and-set store\<close>

type_synonym administrative_commit =
  "administrative_transition \<times> agent_administrative_state \<times> nat"

fun administrative_commit :: "administrative_commit \<Rightarrow> (administrative_repo, bool) eff" where
  "administrative_commit (t, ns, e) r = administrative_record_transition t ns e r"

interpretation acas: cas_store administrative_version administrative_commit
  "\<lambda>(t, ns, e). at_agent_id t" "\<lambda>(t, ns, e). e"
proof
  fix x :: administrative_commit and s s' r and k
  obtain t ns e where x: "x = (t, ns, e)" by (cases x)
  show "administrative_commit x s = (Inr True, s') \<Longrightarrow>
          administrative_version s ((\<lambda>(t, ns, e). at_agent_id t) x) = (\<lambda>(t, ns, e). e) x"
    by (auto simp: x mdefs Let_def split: if_splits)
  show "administrative_commit x s = (Inr True, s') \<Longrightarrow>
          administrative_version s' ((\<lambda>(t, ns, e). at_agent_id t) x) = Suc ((\<lambda>(t, ns, e). e) x)"
    by (auto simp: x mdefs Let_def split: if_splits)
  show "administrative_commit x s = (Inr True, s') \<Longrightarrow> k \<noteq> (\<lambda>(t, ns, e). at_agent_id t) x \<Longrightarrow>
          administrative_version s' k = administrative_version s k"
    by (auto simp: x mdefs Let_def split: if_splits)
  show "administrative_commit x s = (r, s') \<Longrightarrow> r \<noteq> Inr True \<Longrightarrow> s' = s"
    by (auto simp: x mdefs Let_def split: if_splits)
qed

subsection \<open>The ledger is evidence of the state\<close>

text \<open>
  \<open>chain p v ts\<close>: the records lead from state \<open>p\<close> at version \<open>v\<close> by legal transitions, each
  starting where the one before it ended, versions advancing by one.
\<close>

fun chain ::
  "administrative_lifecycle_state option \<Rightarrow> nat \<Rightarrow> administrative_transition list \<Rightarrow> bool" where
  "chain p v [] = True"
| "chain p v (t # ts) =
     (at_previous_state t = p \<and> at_version_before t = v \<and> at_version_after t = Suc v
      \<and> is_legal_administrative_transition p (at_new_state t)
      \<and> chain (Some (at_new_state t)) (Suc v) ts)"

definition ledger_of :: "administrative_repo \<Rightarrow> string \<Rightarrow> administrative_transition list" where
  "ledger_of r aid = filter (\<lambda>t. at_agent_id t = aid) (ar_transitions r)"

definition ledger_end :: "administrative_transition list \<Rightarrow> administrative_lifecycle_state option" where
  "ledger_end ts = (if ts = [] then None else Some (at_new_state (last ts)))"

definition administrative_inv :: "administrative_repo \<Rightarrow> bool" where
  "administrative_inv r \<longleftrightarrow>
     (\<forall>aid. chain None 0 (ledger_of r aid)
        \<and> map_option as_state (dget (ar_states r) aid) = ledger_end (ledger_of r aid)
        \<and> administrative_version r aid = length (ledger_of r aid))"

lemma chain_snoc:
  "chain p v (ts @ [t]) \<longleftrightarrow> chain p v ts
     \<and> at_previous_state t = (if ts = [] then p else ledger_end ts)
     \<and> at_version_before t = v + length ts \<and> at_version_after t = Suc (v + length ts)
     \<and> is_legal_administrative_transition (if ts = [] then p else ledger_end ts) (at_new_state t)"
  by (induction ts arbitrary: p v) (auto simp: ledger_end_def)

lemma ledger_append [simp]:
  "ledger_of (r\<lparr>ar_states := d, ar_transitions := ar_transitions r @ [t]\<rparr>) aid =
     ledger_of r aid @ (if at_agent_id t = aid then [t] else [])"
  by (simp add: ledger_of_def)

lemma ledger_end_snoc [simp]: "ledger_end (ts @ [t]) = Some (at_new_state t)"
  by (simp add: ledger_end_def)

lemma administrative_inv_empty: "administrative_inv empty_administrative_repo"
  by (simp add: administrative_inv_def empty_administrative_repo_def ledger_of_def ledger_end_def mdefs)

lemma administrative_inv_extend:
  assumes inv: "administrative_inv r" and aid: "at_agent_id t = aid"
    and prev: "at_previous_state t = map_option as_state (dget (ar_states r) aid)"
    and before: "at_version_before t = administrative_version r aid"
    and after: "at_version_after t = Suc (administrative_version r aid)"
    and legal: "is_legal_administrative_transition (at_previous_state t) (at_new_state t)"
    and ns: "as_state ns = at_new_state t" "as_version ns = at_version_after t"
  shows "administrative_inv (r\<lparr>ar_states := dset aid ns (ar_states r),
                              ar_transitions := ar_transitions r @ [t]\<rparr>)"
proof -
  have ext: "chain None 0 (ledger_of r aid @ [t])"
    using inv prev before after legal
    by (auto simp: chain_snoc administrative_inv_def ledger_end_def)
  show ?thesis
    using inv ext ns before after aid
    by (auto simp: administrative_inv_def administrative_version_def)
qed

lemma administrative_record_True:
  "administrative_record_transition t ns e r = (Inr True, r') \<longleftrightarrow>
     administrative_version r (at_agent_id t) = e \<and> as_version ns = Suc e
     \<and> at_previous_state t = map_option as_state (dget (ar_states r) (at_agent_id t))
     \<and> is_legal_administrative_transition (at_previous_state t) (as_state ns)
     \<and> at_new_state t = as_state ns \<and> at_version_before t = e \<and> at_version_after t = as_version ns
     \<and> r' = r\<lparr>ar_states := dset (at_agent_id t) ns (ar_states r),
               ar_transitions := ar_transitions r @ [t]\<rparr>"
  by (auto simp: administrative_record_transition_def administrative_version_def Let_def)

lemma administrative_inv_record:
  assumes inv: "administrative_inv r"
    and rec: "administrative_record_transition t ns e r = (res, r')"
  shows "administrative_inv r'"
proof (cases "res = Inr True")
  case True
  with rec have facts: "administrative_record_transition t ns e r = (Inr True, r')" by simp
  note f = facts [unfolded administrative_record_True]
  from f have "r' = r\<lparr>ar_states := dset (at_agent_id t) ns (ar_states r),
                      ar_transitions := ar_transitions r @ [t]\<rparr>" by blast
  moreover have "administrative_inv \<dots>"
    by (rule administrative_inv_extend [OF inv refl]) (use f in auto)
  ultimately show ?thesis by simp
next
  case False
  with rec inv show ?thesis
    using acas.refusal_inert [of "(t, ns, e)" r res r'] by simp
qed

text \<open>An agent whose last recorded state is terminal has no further entry in any extension.\<close>

lemma chain_disabled_stuck:
  "chain (Some AL_DISABLED) v ts \<Longrightarrow> ts = []"
  by (cases ts) (auto simp: legal_cases)

end
