(* ===== verification/Finding_Model.thy ===== *)
theory Finding_Model
  imports Interfaces
begin

section \<open>Findings, risk levels and baselines\<close>

text \<open>
  The evidence vocabulary shared by detection, risk and enforcement:
  \<^verbatim>\<open>app/models/finding.py\<close>, \<^verbatim>\<open>app/models/risk_assessment.py\<close>, \<^verbatim>\<open>app/models/watermark.py\<close> and
  the decision of \<^verbatim>\<open>app/models/audit_event.py\<close>.
\<close>

datatype decision = ALLOW | DENY | APPROVAL_REQUIRED

datatype severity = SEV_LOW | SEV_MEDIUM | SEV_HIGH | SEV_CRITICAL

datatype finding_category =
    PROMPT_INJECTION | DATA_EXFILTRATION | PRIVILEGE_ESCALATION | UNAUTHORIZED_TOOL
  | SENSITIVE_FILE_ACCESS | BROWSER_ABUSE | SECRET_LEAKAGE | MULTI_STEP_ATTACK | UNKNOWN_CATEGORY

datatype finding_status = FS_OPEN | FS_ACKNOWLEDGED | FS_RESOLVED | FS_FALSE_POSITIVE

record finding =
  f_id :: string
  f_session_id :: string
  f_agent_id :: string
  f_rule_id :: string
  f_rule_name :: string
  f_severity :: severity
  f_category :: finding_category
  f_status :: finding_status
  f_description :: string
  f_created_at :: instant
  f_recorded_at :: "instant option"
  f_event_sequences :: "nat list"
  f_recovery_generation :: nat
  f_sequence :: nat

text \<open>Validation fills an absent or empty \<^verbatim>\<open>rule_id\<close> from \<^verbatim>\<open>rule_name\<close>.\<close>

definition default_rule_id :: "string \<Rightarrow> string \<Rightarrow> string" where
  "default_rule_id rule_id rule_name = (if rule_id = [] then rule_name else rule_id)"

datatype risk_level = RL_LOW | RL_MEDIUM | RL_HIGH | RL_CRITICAL

fun risk_rank :: "risk_level \<Rightarrow> nat" where
  "risk_rank RL_LOW = 0"
| "risk_rank RL_MEDIUM = 1"
| "risk_rank RL_HIGH = 2"
| "risk_rank RL_CRITICAL = 3"

instantiation risk_level :: linorder
begin

definition less_eq_risk_level :: "risk_level \<Rightarrow> risk_level \<Rightarrow> bool" where
  "less_eq_risk_level a b \<longleftrightarrow> risk_rank a \<le> risk_rank b"

definition less_risk_level :: "risk_level \<Rightarrow> risk_level \<Rightarrow> bool" where
  "less_risk_level a b \<longleftrightarrow> risk_rank a < risk_rank b"

instance
proof
  fix x y z :: risk_level
  show "x < y \<longleftrightarrow> x \<le> y \<and> \<not> y \<le> x" and "x \<le> x" and "x \<le> y \<or> y \<le> x"
    by (auto simp: less_eq_risk_level_def less_risk_level_def)
  show "x \<le> y \<Longrightarrow> y \<le> z \<Longrightarrow> x \<le> z"
    by (simp add: less_eq_risk_level_def)
  show "x \<le> y \<Longrightarrow> y \<le> x \<Longrightarrow> x = y"
    by (cases x; cases y) (simp_all add: less_eq_risk_level_def)
qed

end

record watermark =
  wm_agent_id :: string
  wm_baseline_at :: "instant option"
  wm_evidence_sequence :: nat
  wm_agent_sequence :: nat

lemma risk_le_simps [simp]:
  "RL_LOW \<le> x" "x \<le> RL_CRITICAL" "\<not> RL_CRITICAL \<le> RL_LOW"
  by (cases x; simp add: less_eq_risk_level_def)+

end
