(* ===== verification/Enforcement.thy ===== *)
theory Enforcement
  imports Administrative Finding_Model
begin

section \<open>The enforcement plane\<close>

text \<open>
  The enforcement state and governance history of \<^verbatim>\<open>app/models/agent_enforcement.py\<close> and the
  in-memory repository
  \<^verbatim>\<open>app/repositories/in_memory/enforcement_state_repository.py\<close>: a compare-and-set store on
  the enforcement epoch.
\<close>

datatype enforcement_action = SUSPEND | REINSTATE

record enforcement_trigger =
  tg_session_id :: "string option"
  tg_risk_level :: "risk_level option"
  tg_risk_score :: "nat option"
  tg_finding_ids :: "string list"

record enforcement_transition =
  et_transition_id :: string
  et_agent_id :: string
  et_action :: enforcement_action
  et_actor :: string
  et_reason :: string
  et_previous_status :: agent_status
  et_new_status :: agent_status
  et_trigger :: "enforcement_trigger option"
  et_occurred_at :: instant

record enforcement_state =
  es_agent_id :: string
  es_epoch :: nat
  es_suspended_at :: "instant option"
  es_suspension_reason :: "string option"
  es_baseline_at :: "instant option"
  es_baseline_evidence_sequence :: nat
  es_baseline_agent_sequence :: nat
  es_recovery_generation :: nat
  es_last_transition_at :: "instant option"

definition clean_enforcement_state :: "string \<Rightarrow> enforcement_state" where
  "clean_enforcement_state aid =
     \<lparr>es_agent_id = aid, es_epoch = 0, es_suspended_at = None, es_suspension_reason = None,
      es_baseline_at = None, es_baseline_evidence_sequence = 0, es_baseline_agent_sequence = 0,
      es_recovery_generation = 0, es_last_transition_at = None\<rparr>"

definition state_or_clean :: "string \<Rightarrow> enforcement_state option \<Rightarrow> enforcement_state" where
  "state_or_clean aid st = (case st of None \<Rightarrow> clean_enforcement_state aid | Some x \<Rightarrow> x)"

record enforcement_repo =
  er_states :: "(string, enforcement_state) dict"
  er_transitions :: "enforcement_transition list"
  er_epochs :: "(string, nat) dict"
  er_fault :: "exn option"

definition empty_enforcement_repo :: enforcement_repo where
  "empty_enforcement_repo = \<lparr>er_states = [], er_transitions = [], er_epochs = [], er_fault = None\<rparr>"

definition enforcement_get_state :: "enforcement_repo \<Rightarrow> string \<Rightarrow> enforcement_state option res" where
  "enforcement_get_state r aid =
     (case er_fault r of Some e \<Rightarrow> Inl e | None \<Rightarrow> Inr (dget (er_states r) aid))"

definition persisted_epoch :: "enforcement_repo \<Rightarrow> string \<Rightarrow> nat" where
  "persisted_epoch r aid =
     (case dget (er_states r) aid of Some p \<Rightarrow> es_epoch p | None \<Rightarrow> get_or (er_epochs r) aid 0)"

definition enforcement_record_transition ::
  "enforcement_transition \<Rightarrow> enforcement_state \<Rightarrow> nat \<Rightarrow> (enforcement_repo, bool) eff" where
  "enforcement_record_transition t ns expected r =
     (let aid = et_agent_id t;
          persisted = dget (er_states r) aid;
          current = (case persisted of Some p \<Rightarrow> es_epoch p | None \<Rightarrow> get_or (er_epochs r) aid 0);
          generation = (case persisted of Some p \<Rightarrow> es_recovery_generation p | None \<Rightarrow> 0)
      in if current \<noteq> expected \<or> es_epoch ns \<noteq> expected + 1 then (Inr False, r)
         else if es_recovery_generation ns \<notin> {generation, generation + 1}
           then (Inl EnforcementStateUnavailableError, r)
         else (Inr True, r\<lparr>er_states := dset aid ns (er_states r),
                          er_transitions := er_transitions r @ [t],
                          er_epochs := dset aid (expected + 1) (er_epochs r)\<rparr>))"

definition enforcement_list_transitions ::
  "enforcement_repo \<Rightarrow> string option \<Rightarrow> enforcement_transition list" where
  "enforcement_list_transitions r aid =
     sort_key (\<lambda>t. (et_occurred_at t, et_transition_id t))
       (filter (\<lambda>t. aid = None \<or> Some (et_agent_id t) = aid) (er_transitions r))"

definition get_epoch :: "enforcement_repo \<Rightarrow> string \<Rightarrow> instant \<Rightarrow> nat" where
  "get_epoch r aid as_of =
     length (filter (\<lambda>t. et_agent_id t = aid \<and> et_action t = REINSTATE \<and> et_occurred_at t \<le> as_of)
       (er_transitions r))"

lemmas enforcement_defs [mdefs] =
  enforcement_get_state_def persisted_epoch_def enforcement_record_transition_def

lemma enforcement_record_True:
  "enforcement_record_transition t ns e r = (Inr True, r') \<longleftrightarrow>
     persisted_epoch r (et_agent_id t) = e \<and> es_epoch ns = Suc e
     \<and> es_recovery_generation ns \<in>
         (let g = (case dget (er_states r) (et_agent_id t) of Some p \<Rightarrow> es_recovery_generation p | None \<Rightarrow> 0)
          in {g, g + 1})
     \<and> r' = r\<lparr>er_states := dset (et_agent_id t) ns (er_states r),
               er_transitions := er_transitions r @ [t],
               er_epochs := dset (et_agent_id t) (Suc e) (er_epochs r)\<rparr>"
  by (auto simp: enforcement_record_transition_def persisted_epoch_def Let_def)

lemma persisted_epoch_fault [simp]: "persisted_epoch (r\<lparr>er_fault := f\<rparr>) aid = persisted_epoch r aid"
  by (cases "dget (er_states r) aid") (simp_all add: persisted_epoch_def)

subsection \<open>The repository is a compare-and-set store\<close>

type_synonym enforcement_commit = "enforcement_transition \<times> enforcement_state \<times> nat"

fun enforcement_commit :: "enforcement_commit \<Rightarrow> (enforcement_repo, bool) eff" where
  "enforcement_commit (t, ns, e) r = enforcement_record_transition t ns e r"

interpretation ecas: cas_store persisted_epoch enforcement_commit
  "\<lambda>(t, ns, e). et_agent_id t" "\<lambda>(t, ns, e). e"
proof
  fix x :: enforcement_commit and s s' r and k
  obtain t ns e where x: "x = (t, ns, e)" by (cases x)
  show "enforcement_commit x s = (Inr True, s') \<Longrightarrow>
          persisted_epoch s ((\<lambda>(t, ns, e). et_agent_id t) x) = (\<lambda>(t, ns, e). e) x"
    by (auto simp: x enforcement_record_True)
  show "enforcement_commit x s = (Inr True, s') \<Longrightarrow>
          persisted_epoch s' ((\<lambda>(t, ns, e). et_agent_id t) x) = Suc ((\<lambda>(t, ns, e). e) x)"
    by (auto simp: x enforcement_record_True persisted_epoch_def)
  show "enforcement_commit x s = (Inr True, s') \<Longrightarrow> k \<noteq> (\<lambda>(t, ns, e). et_agent_id t) x \<Longrightarrow>
          persisted_epoch s' k = persisted_epoch s k"
    by (auto simp: x enforcement_record_True persisted_epoch_def split: option.splits)
  show "enforcement_commit x s = (r, s') \<Longrightarrow> r \<noteq> Inr True \<Longrightarrow> s' = s"
    by (auto simp: x enforcement_record_transition_def Let_def split: if_splits)
qed

subsection \<open>Recovery generation\<close>

definition recovery_generation_of :: "enforcement_repo \<Rightarrow> string \<Rightarrow> nat" where
  "recovery_generation_of r aid =
     (case dget (er_states r) aid of Some p \<Rightarrow> es_recovery_generation p | None \<Rightarrow> 0)"

lemma generation_step:
  "enforcement_record_transition t ns e r = (res, r') \<Longrightarrow>
     recovery_generation_of r' aid \<in> {recovery_generation_of r aid, Suc (recovery_generation_of r aid)}"
  by (auto simp: enforcement_record_transition_def recovery_generation_of_def Let_def split: if_splits option.splits)

lemma generation_mono:
  "recovery_generation_of r aid \<le> recovery_generation_of (run_ops enforcement_commit xs r) aid"
proof (induction xs arbitrary: r)
  case Nil
  then show ?case by simp
next
  case (Cons x xs)
  obtain t ns e where x: "x = (t, ns, e)" by (cases x)
  have "recovery_generation_of r aid \<le> recovery_generation_of (snd (enforcement_commit x r)) aid"
    using generation_step [of t ns e r "fst (enforcement_commit x r)" "snd (enforcement_commit x r)" aid]
    by (auto simp: x)
  also have "\<dots> \<le> recovery_generation_of (run_ops enforcement_commit xs (snd (enforcement_commit x r))) aid"
    by (rule Cons.IH)
  finally show ?case by simp
qed

subsection \<open>The governance history determines the state\<close>

text \<open>
  The transitions of an agent alternate, starting with a suspension; the epoch counts them,
  the recovery generation counts the reinstatements, and the agent is suspended exactly when
  the last of them is a suspension.
\<close>

definition history_of :: "enforcement_repo \<Rightarrow> string \<Rightarrow> enforcement_transition list" where
  "history_of r aid = filter (\<lambda>t. et_agent_id t = aid) (er_transitions r)"

definition alternation :: "nat \<Rightarrow> enforcement_action list" where
  "alternation n = map (\<lambda>i. if even i then SUSPEND else REINSTATE) [0..<n]"

definition is_suspended :: "enforcement_state option \<Rightarrow> bool" where
  "is_suspended st = (case st of None \<Rightarrow> False | Some x \<Rightarrow> es_suspended_at x \<noteq> None)"

definition history_ok :: "enforcement_transition list \<Rightarrow> enforcement_state option \<Rightarrow> nat \<Rightarrow> bool" where
  "history_ok h st ep \<longleftrightarrow>
     map et_action h = alternation (length h) \<and> ep = length h
     \<and> (case st of
          None \<Rightarrow> h = []
        | Some x \<Rightarrow> es_epoch x = length h \<and> es_recovery_generation x = length h div 2
                    \<and> (es_suspended_at x \<noteq> None \<longleftrightarrow> odd (length h)))"

definition enforcement_inv :: "enforcement_repo \<Rightarrow> bool" where
  "enforcement_inv r \<longleftrightarrow>
     (\<forall>aid. history_ok (history_of r aid) (dget (er_states r) aid) (persisted_epoch r aid))"

lemma alternation_Suc: "alternation (Suc n) = alternation n @ [if even n then SUSPEND else REINSTATE]"
  by (simp add: alternation_def)

lemma reinstatements_in_alternation:
  "length (filter (\<lambda>a. a = REINSTATE) (alternation n)) = n div 2"
  by (induction n) (auto simp: alternation_Suc alternation_def [of 0] elim!: oddE)

lemma history_append [simp]:
  "history_of (r\<lparr>er_states := d, er_transitions := er_transitions r @ [t], er_epochs := q\<rparr>) aid =
     history_of r aid @ (if et_agent_id t = aid then [t] else [])"
  by (simp add: history_of_def)

lemma enforcement_inv_empty: "enforcement_inv empty_enforcement_repo"
  by (simp add: enforcement_inv_def empty_enforcement_repo_def history_of_def history_ok_def
      alternation_def persisted_epoch_def)

lemma history_ok_snoc:
  assumes "history_ok h st ep" and "et_action t = (if even ep then SUSPEND else REINSTATE)"
    and "es_epoch x = Suc ep" and "es_recovery_generation x = Suc ep div 2"
    and "es_suspended_at x \<noteq> None \<longleftrightarrow> even ep"
  shows "history_ok (h @ [t]) (Some x) (Suc ep)"
  using assms by (simp add: history_ok_def alternation_Suc)

lemma enforcement_inv_record:
  assumes inv: "enforcement_inv r"
    and rec: "enforcement_record_transition t ns e r = (Inr True, r')"
    and act: "et_action t = (if even e then SUSPEND else REINSTATE)"
    and gen: "es_recovery_generation ns = Suc e div 2"
    and sus: "es_suspended_at ns \<noteq> None \<longleftrightarrow> even e"
  shows "enforcement_inv r'"
  unfolding enforcement_inv_def
proof
  fix aid
  note f = rec [unfolded enforcement_record_True]
  have old: "history_ok (history_of r aid) (dget (er_states r) aid) (persisted_epoch r aid)"
    using inv by (simp add: enforcement_inv_def)
  have h: "history_of r' aid = history_of r aid @ (if et_agent_id t = aid then [t] else [])"
    using f by simp
  have d: "dget (er_states r') aid = (if aid = et_agent_id t then Some ns else dget (er_states r) aid)"
    using f by auto
  have p: "persisted_epoch r' aid = (if aid = et_agent_id t then Suc e else persisted_epoch r aid)"
    using ecas.commit_advances [of "(t, ns, e)" r r'] ecas.commit_frame [of "(t, ns, e)" r r' aid] rec
    by auto
  show "history_ok (history_of r' aid) (dget (er_states r') aid) (persisted_epoch r' aid)"
  proof (cases "aid = et_agent_id t")
    case True
    have "history_ok (history_of r aid @ [t]) (Some ns) (Suc e)"
      by (rule history_ok_snoc [OF _ act _ gen sus]) (use old f True in auto)
    with True h d p show ?thesis by simp
  next
    case False
    with old h d p show ?thesis by auto
  qed
qed

end
