(* ===== verification/Lifecycle_Policy.thy ===== *)
theory Lifecycle_Policy
  imports Enforcement
begin

section \<open>Lifecycle authorization across both planes\<close>

text \<open>
  \<^verbatim>\<open>app/policy/lifecycle_authorization.py\<close>: the set of conditions that forbid execution, read
  from both planes, and the one that is surfaced.
\<close>

datatype lifecycle_refusal_code =
    ADMINISTRATIVE_STATE_UNAVAILABLE | ENFORCEMENT_STATE_UNAVAILABLE
  | AGENT_DISABLED | AGENT_NOT_ACTIVE | AGENT_SUSPENDED

definition refusal_precedence :: "lifecycle_refusal_code list" where
  "refusal_precedence =
     [ADMINISTRATIVE_STATE_UNAVAILABLE, ENFORCEMENT_STATE_UNAVAILABLE,
      AGENT_DISABLED, AGENT_NOT_ACTIVE, AGENT_SUSPENDED]"

fun administrative_refusals :: "administrative_lifecycle_state \<Rightarrow> lifecycle_refusal_code option" where
  "administrative_refusals AL_REGISTERED = Some AGENT_NOT_ACTIVE"
| "administrative_refusals AL_DISABLED = Some AGENT_DISABLED"
| "administrative_refusals AL_ACTIVE = None"

definition failing_lifecycle_conditions ::
  "agent_administrative_state option \<Rightarrow> bool \<Rightarrow> enforcement_state option \<Rightarrow> bool
     \<Rightarrow> lifecycle_refusal_code set" where
  "failing_lifecycle_conditions administrative administrative_available enforcement enforcement_available =
     (if \<not> administrative_available then {ADMINISTRATIVE_STATE_UNAVAILABLE}
      else case administrative of
             None \<Rightarrow> {ADMINISTRATIVE_STATE_UNAVAILABLE}
           | Some a \<Rightarrow>
               (case administrative_refusals (as_state a) of
                  Some refusal \<Rightarrow> {refusal}
                | None \<Rightarrow> if as_state a \<noteq> AL_ACTIVE then {AGENT_NOT_ACTIVE} else {}))
     \<union> (if \<not> enforcement_available then {ENFORCEMENT_STATE_UNAVAILABLE}
        else case enforcement of
               None \<Rightarrow> {}
             | Some e \<Rightarrow> if es_suspended_at e \<noteq> None then {AGENT_SUSPENDED} else {})"

definition evaluate_lifecycle_authorization ::
  "agent_administrative_state option \<Rightarrow> bool \<Rightarrow> enforcement_state option \<Rightarrow> bool
     \<Rightarrow> lifecycle_refusal_code option" where
  "evaluate_lifecycle_authorization administrative administrative_available enforcement enforcement_available =
     (let failing = failing_lifecycle_conditions administrative administrative_available
                      enforcement enforcement_available
      in if failing = {} then None
         else case find (\<lambda>code. code \<in> failing) refusal_precedence of
                Some code \<Rightarrow> Some code
              | None \<Rightarrow> Some AGENT_NOT_ACTIVE)"

definition executable_state ::
  "agent_administrative_state option \<Rightarrow> bool \<Rightarrow> enforcement_state option \<Rightarrow> bool \<Rightarrow> bool" where
  "executable_state a a_ok e e_ok \<longleftrightarrow>
     a_ok \<and> e_ok \<and> (\<exists>x. a = Some x \<and> as_state x = AL_ACTIVE)
     \<and> (\<forall>y. e = Some y \<longrightarrow> es_suspended_at y = None)"

lemma failing_empty_iff:
  "failing_lifecycle_conditions a a_ok e e_ok = {} \<longleftrightarrow> executable_state a a_ok e e_ok"
proof (cases a)
  case None
  then show ?thesis by (simp add: failing_lifecycle_conditions_def executable_state_def)
next
  case (Some x)
  then show ?thesis
    by (cases "as_state x"; cases e)
       (auto simp: failing_lifecycle_conditions_def executable_state_def)
qed

lemma evaluate_None_iff:
  "evaluate_lifecycle_authorization a a_ok e e_ok = None \<longleftrightarrow> executable_state a a_ok e e_ok"
  by (auto simp: evaluate_lifecycle_authorization_def Let_def failing_empty_iff split: option.splits)

text \<open>The position of a code in the precedence tuple.\<close>

fun refusal_rank :: "lifecycle_refusal_code \<Rightarrow> nat" where
  "refusal_rank ADMINISTRATIVE_STATE_UNAVAILABLE = 0"
| "refusal_rank ENFORCEMENT_STATE_UNAVAILABLE = 1"
| "refusal_rank AGENT_DISABLED = 2"
| "refusal_rank AGENT_NOT_ACTIVE = 3"
| "refusal_rank AGENT_SUSPENDED = 4"

lemma find_least:
  "sorted (map r xs) \<Longrightarrow> find P xs = Some c \<Longrightarrow> P c \<and> (\<forall>d\<in>set xs. P d \<longrightarrow> r c \<le> r d)"
  by (induction xs) (auto split: if_splits)

lemma refusal_precedence_complete: "c \<in> set refusal_precedence"
  by (cases c) (simp_all add: refusal_precedence_def)

lemma refusal_precedence_sorted: "sorted (map refusal_rank refusal_precedence)"
  by (simp add: refusal_precedence_def)

lemma evaluate_most_significant:
  assumes "evaluate_lifecycle_authorization a a_ok e e_ok = Some c"
  shows "c \<in> failing_lifecycle_conditions a a_ok e e_ok
         \<and> (\<forall>d \<in> failing_lifecycle_conditions a a_ok e e_ok. refusal_rank c \<le> refusal_rank d)"
proof -
  let ?F = "failing_lifecycle_conditions a a_ok e e_ok"
  have ne: "?F \<noteq> {}"
    using assms by (auto simp: evaluate_lifecycle_authorization_def)
  then have "find (\<lambda>c. c \<in> ?F) refusal_precedence \<noteq> None"
    using refusal_precedence_complete by (auto simp: find_None_iff)
  with ne assms have "find (\<lambda>c. c \<in> ?F) refusal_precedence = Some c"
    by (auto simp: evaluate_lifecycle_authorization_def Let_def)
  from find_least [OF refusal_precedence_sorted this] show ?thesis
    using refusal_precedence_complete by blast
qed

end
