(* ===== verification/Agent_Service.thy ===== *)
theory Agent_Service
  imports Lifecycle_Policy
begin

section \<open>The agent service\<close>

text \<open>
  \<^verbatim>\<open>app/services/agent_service.py\<close>, the single writer of both lifecycle planes. The service
  state is the three repositories it is constructed with, the administrative one being
  constructed over the agent store. A call takes the readings of its environment (the clock
  and the identifiers \<^verbatim>\<open>uuid4\<close> gives) as an argument.
\<close>

record env =
  env_now :: instant
  env_uuid :: string
  env_corr_uuid :: string

record agent_service =
  sv_agents :: "(string, agent) dict"
  sv_admin :: administrative_repo
  sv_enf :: enforcement_repo

definition empty_service :: agent_service where
  "empty_service = \<lparr>sv_agents = [], sv_admin = empty_administrative_repo, sv_enf = empty_enforcement_repo\<rparr>"

definition correlation_or :: "env \<Rightarrow> string option \<Rightarrow> string" where
  "correlation_or ev c = (case c of None \<Rightarrow> ''corr-'' @ env_corr_uuid ev
                          | Some x \<Rightarrow> if x = [] then ''corr-'' @ env_corr_uuid ev else x)"

definition system_registration_actor :: actor where
  "system_registration_actor = \<lparr>ac_type = SYSTEM, ac_id = ''system''\<rparr>"

subsection \<open>Reading both planes\<close>

definition read_planes ::
  "agent_service \<Rightarrow> string \<Rightarrow> agent_administrative_state option \<times> bool \<times> enforcement_state option \<times> bool" where
  "read_planes s aid =
     (let (a, a_ok) = (case administrative_get_state (sv_admin s) aid of
                         Inr x \<Rightarrow> (x, True) | Inl e \<Rightarrow> (None, False));
          (e, e_ok) = (case enforcement_get_state (sv_enf s) aid of
                         Inr x \<Rightarrow> (x, True) | Inl e \<Rightarrow> (None, False))
      in (a, a_ok, e, e_ok))"

definition lifecycle_refusal :: "agent_service \<Rightarrow> string \<Rightarrow> lifecycle_refusal_code option" where
  "lifecycle_refusal s aid =
     (let (a, a_ok, e, e_ok) = read_planes s aid in evaluate_lifecycle_authorization a a_ok e e_ok)"

definition project_status ::
  "agent_administrative_state option \<Rightarrow> enforcement_state option \<Rightarrow> agent_status" where
  "project_status administrative enforcement =
     (case administrative of
        None \<Rightarrow> ST_REGISTERED
      | Some a \<Rightarrow>
          if as_state a = AL_DISABLED then ST_DISABLED
          else if is_suspended enforcement then ST_SUSPENDED
          else if as_state a = AL_ACTIVE then ST_ACTIVE
          else ST_REGISTERED)"

definition enforcement_or_unavailable :: "agent_service \<Rightarrow> string \<Rightarrow> enforcement_state option res" where
  "enforcement_or_unavailable s aid =
     (case enforcement_get_state (sv_enf s) aid of
        Inl e \<Rightarrow> Inl EnforcementStateUnavailableError | Inr x \<Rightarrow> Inr x)"

definition project_agent :: "agent_service \<Rightarrow> agent \<Rightarrow> agent res" where
  "project_agent s a =
     res_bind (enforcement_or_unavailable s (ag_id a)) (\<lambda>enf.
     res_bind (administrative_get_state (sv_admin s) (ag_id a)) (\<lambda>adm.
     Inr (a\<lparr>ag_status := project_status adm enf\<rparr>)))"

definition get_agent :: "agent_service \<Rightarrow> string \<Rightarrow> agent res" where
  "get_agent s aid =
     (case dget (sv_agents s) aid of
        None \<Rightarrow> Inl AgentNotFoundError
      | Some a \<Rightarrow>
          res_bind (enforcement_or_unavailable s aid) (\<lambda>enf.
          res_bind (administrative_get_state (sv_admin s) aid) (\<lambda>adm.
          Inr (a\<lparr>ag_status := project_status adm enf\<rparr>))))"

fun project_all :: "agent_service \<Rightarrow> agent list \<Rightarrow> agent list res" where
  "project_all s [] = Inr []"
| "project_all s (a # as) =
     res_bind (project_agent s a) (\<lambda>x. res_bind (project_all s as) (\<lambda>xs. Inr (x # xs)))"

definition list_agents :: "agent_service \<Rightarrow> agent list res" where
  "list_agents s = project_all s (dvals (sv_agents s))"

definition administrative_state :: "agent_service \<Rightarrow> string \<Rightarrow> agent_administrative_state option res" where
  "administrative_state s aid = administrative_get_state (sv_admin s) aid"

definition list_administrative_transitions ::
  "agent_service \<Rightarrow> string option \<Rightarrow> administrative_transition list" where
  "list_administrative_transitions s aid = administrative_list_transitions (sv_admin s) aid"

definition list_transitions :: "agent_service \<Rightarrow> string option \<Rightarrow> enforcement_transition list" where
  "list_transitions s aid = enforcement_list_transitions (sv_enf s) aid"

definition enforcement_epoch :: "agent_service \<Rightarrow> string \<Rightarrow> instant \<Rightarrow> nat" where
  "enforcement_epoch s aid as_of = get_epoch (sv_enf s) aid as_of"

definition get_enforcement_state :: "agent_service \<Rightarrow> string \<Rightarrow> enforcement_state res" where
  "get_enforcement_state s aid =
     res_bind (get_agent s aid) (\<lambda>_.
     res_bind (enforcement_get_state (sv_enf s) aid) (\<lambda>st.
     Inr (state_or_clean aid st)))"

definition get_current_baseline :: "agent_service \<Rightarrow> string \<Rightarrow> watermark res" where
  "get_current_baseline s aid =
     res_bind (get_enforcement_state s aid) (\<lambda>st.
     Inr \<lparr>wm_agent_id = aid, wm_baseline_at = es_baseline_at st,
          wm_evidence_sequence = es_baseline_evidence_sequence st,
          wm_agent_sequence = es_baseline_agent_sequence st\<rparr>)"

subsection \<open>Administrative operations\<close>

definition new_administrative_transition ::
  "env \<Rightarrow> string \<Rightarrow> administrative_action \<Rightarrow> administrative_lifecycle_state option
     \<Rightarrow> administrative_lifecycle_state \<Rightarrow> nat \<Rightarrow> actor \<Rightarrow> string \<Rightarrow> string option \<Rightarrow> administrative_transition" where
  "new_administrative_transition ev aid action previous_state new_state expected_version act reason corr =
     \<lparr>at_transition_id = ''admin-transition-'' @ env_uuid ev, at_agent_id = aid, at_action = action,
      at_actor = act, at_reason = reason, at_previous_state = previous_state, at_new_state = new_state,
      at_version_before = expected_version, at_version_after = expected_version + 1,
      at_correlation_id = correlation_or ev corr, at_occurred_at = env_now ev\<rparr>"

definition new_administrative_state ::
  "env \<Rightarrow> string \<Rightarrow> administrative_lifecycle_state \<Rightarrow> nat \<Rightarrow> agent_administrative_state" where
  "new_administrative_state ev aid new_state version =
     \<lparr>as_agent_id = aid, as_state = new_state, as_version = version,
      as_last_transition_at = Some (env_now ev)\<rparr>"

definition register_agent :: "env \<Rightarrow> agent \<Rightarrow> actor \<Rightarrow> string option \<Rightarrow> (agent_service, agent) eff" where
  "register_agent ev a act corr s =
     (let t = new_administrative_transition ev (ag_id a) REGISTER None AL_REGISTERED 0 act
                ''Agent registered'' corr;
          ns = new_administrative_state ev (ag_id a) AL_REGISTERED 1
      in case commit_registration a t ns (Some (sv_agents s), sv_admin s) of
           (Inl AgentAlreadyRegisteredError, _) \<Rightarrow> (Inl AgentAlreadyExistsError, s)
         | (Inl e, _) \<Rightarrow> (Inl e, s)
         | (Inr _, (agents, admin)) \<Rightarrow>
             (Inr a, s\<lparr>sv_agents := (case agents of Some d \<Rightarrow> d | None \<Rightarrow> sv_agents s), sv_admin := admin\<rparr>))"

definition administrative_transition_to ::
  "env \<Rightarrow> string \<Rightarrow> administrative_lifecycle_state \<Rightarrow> actor \<Rightarrow> string \<Rightarrow> string option
     \<Rightarrow> (agent_service, agent_administrative_state) eff" where
  "administrative_transition_to ev aid new_state act reason corr s =
     (case administrative_get_state (sv_admin s) aid of
        Inl e \<Rightarrow> (Inl e, s)
      | Inr current \<Rightarrow>
          let previous_state = map_option as_state current;
              expected_version = (case current of Some c \<Rightarrow> as_version c | None \<Rightarrow> 0)
          in if \<not> is_legal_administrative_transition previous_state new_state
               then (Inl IllegalAdministrativeTransitionError, s)
             else case administrative_transition_actions (previous_state, new_state) of
               Inl e \<Rightarrow> (Inl e, s)
             | Inr action \<Rightarrow>
                 let t = new_administrative_transition ev aid action previous_state new_state
                           expected_version act reason corr;
                     updated = new_administrative_state ev aid new_state (expected_version + 1)
                 in case administrative_record_transition t updated expected_version (sv_admin s) of
                      (Inl e, r) \<Rightarrow> (Inl e, s\<lparr>sv_admin := r\<rparr>)
                    | (Inr committed, r) \<Rightarrow>
                        if \<not> committed then (Inl AdministrativeConcurrencyError, s\<lparr>sv_admin := r\<rparr>)
                        else (Inr updated, s\<lparr>sv_admin := r\<rparr>))"

definition activate_agent ::
  "env \<Rightarrow> string \<Rightarrow> actor \<Rightarrow> string \<Rightarrow> string option \<Rightarrow> (agent_service, agent_administrative_state) eff" where
  "activate_agent ev aid act reason corr s =
     (case get_agent s aid of
        Inl e \<Rightarrow> (Inl e, s)
      | Inr _ \<Rightarrow> administrative_transition_to ev aid AL_ACTIVE act reason corr s)"

definition disable_agent ::
  "env \<Rightarrow> string \<Rightarrow> actor \<Rightarrow> string \<Rightarrow> string option \<Rightarrow> (agent_service, agent_administrative_state) eff" where
  "disable_agent ev aid act reason corr s =
     (case get_agent s aid of
        Inl e \<Rightarrow> (Inl e, s)
      | Inr _ \<Rightarrow> administrative_transition_to ev aid AL_DISABLED act reason corr s)"

definition register_and_activate_agent ::
  "env \<Rightarrow> env \<Rightarrow> agent \<Rightarrow> actor \<Rightarrow> string option \<Rightarrow> (agent_service, agent) eff" where
  "register_and_activate_agent ev1 ev2 a act corr =
     and_then (register_agent ev1 a act corr) (\<lambda>registered.
     and_then (activate_agent ev2 (ag_id a) act ''Activated on registration by a system actor'' corr)
       (\<lambda>_. ok registered))"

subsection \<open>Enforcement operations\<close>

definition suspended_state :: "instant \<Rightarrow> string \<Rightarrow> enforcement_state \<Rightarrow> enforcement_state" where
  "suspended_state now reason st =
     st\<lparr>es_epoch := es_epoch st + 1, es_suspended_at := Some now, es_suspension_reason := Some reason,
        es_last_transition_at := Some now\<rparr>"

definition reinstated_state :: "instant \<Rightarrow> watermark option \<Rightarrow> enforcement_state \<Rightarrow> enforcement_state" where
  "reinstated_state now wm st =
     (let baseline_at = (case wm of
                           Some w \<Rightarrow> (case wm_baseline_at w of Some b \<Rightarrow> b | None \<Rightarrow> now)
                         | None \<Rightarrow> now)
      in st\<lparr>es_epoch := es_epoch st + 1, es_suspended_at := None, es_suspension_reason := None,
            es_baseline_at := Some baseline_at,
            es_baseline_evidence_sequence := (case wm of Some w \<Rightarrow> wm_evidence_sequence w | None \<Rightarrow> 0),
            es_baseline_agent_sequence := (case wm of Some w \<Rightarrow> wm_agent_sequence w | None \<Rightarrow> 0),
            es_recovery_generation := es_recovery_generation st + 1,
            es_last_transition_at := Some now\<rparr>)"

definition new_enforcement_transition ::
  "env \<Rightarrow> agent \<Rightarrow> agent_status \<Rightarrow> enforcement_action \<Rightarrow> string \<Rightarrow> string
     \<Rightarrow> enforcement_trigger option \<Rightarrow> enforcement_transition" where
  "new_enforcement_transition ev a new_status action act reason trigger =
     \<lparr>et_transition_id = ''transition-'' @ env_uuid ev, et_agent_id = ag_id a,
      et_action = action, et_actor = act, et_reason = reason, et_previous_status = ag_status a,
      et_new_status = new_status, et_trigger = trigger, et_occurred_at = env_now ev\<rparr>"

definition transition ::
  "env \<Rightarrow> agent \<Rightarrow> agent_status \<Rightarrow> enforcement_action \<Rightarrow> string \<Rightarrow> string
     \<Rightarrow> enforcement_trigger option \<Rightarrow> watermark option \<Rightarrow> (agent_service, agent) eff" where
  "transition ev a new_status action act reason trigger wm s =
     (case administrative_get_state (sv_admin s) (ag_id a) of
        Inl e \<Rightarrow> (Inl e, s)
      | Inr administrative \<Rightarrow>
          if action = SUSPEND \<and> map_option as_state administrative = Some AL_DISABLED then (Inr a, s)
          else case enforcement_get_state (sv_enf s) (ag_id a) of
            Inl e \<Rightarrow> (Inl e, s)
          | Inr current \<Rightarrow>
              let st = state_or_clean (ag_id a) current;
                  ns = (if action = SUSPEND then suspended_state (env_now ev) reason st
                        else reinstated_state (env_now ev) wm st);
                  t = new_enforcement_transition ev a new_status action act reason trigger
              in case enforcement_record_transition t ns (es_epoch st) (sv_enf s) of
                   (Inl e, r) \<Rightarrow> (Inl e, s\<lparr>sv_enf := r\<rparr>)
                 | (Inr committed, r) \<Rightarrow>
                     if \<not> committed then (Inl EnforcementConcurrencyError, s\<lparr>sv_enf := r\<rparr>)
                     else case administrative_get_state (sv_admin s) (ag_id a) of
                            Inl e \<Rightarrow> (Inl e, s\<lparr>sv_enf := r\<rparr>)
                          | Inr adm \<Rightarrow> (Inr (a\<lparr>ag_status := project_status adm (Some ns)\<rparr>),
                                        s\<lparr>sv_enf := r\<rparr>))"

definition runtime_actor :: string where
  "runtime_actor = ''runtime''"

definition suspend_agent ::
  "env \<Rightarrow> string \<Rightarrow> string \<Rightarrow> enforcement_trigger option \<Rightarrow> (agent_service, agent) eff" where
  "suspend_agent ev aid reason trigger s =
     (case get_agent s aid of
        Inl e \<Rightarrow> (Inl e, s)
      | Inr a \<Rightarrow>
          (case administrative_get_state (sv_admin s) aid of
             Inl e \<Rightarrow> (Inl e, s)
           | Inr administrative \<Rightarrow>
               (case enforcement_get_state (sv_enf s) aid of
                  Inl e \<Rightarrow> (Inl e, s)
                | Inr enforcement \<Rightarrow>
                    let already_suspended = is_suspended enforcement;
                        is_disabled = (map_option as_state administrative = Some AL_DISABLED)
                    in if already_suspended \<or> is_disabled then (Inr a, s)
                       else transition ev a ST_SUSPENDED SUSPEND runtime_actor reason trigger None s)))"

definition reinstate_agent ::
  "env \<Rightarrow> string \<Rightarrow> string \<Rightarrow> string \<Rightarrow> watermark option \<Rightarrow> (agent_service, agent) eff" where
  "reinstate_agent ev aid act reason wm s =
     (case get_agent s aid of
        Inl e \<Rightarrow> (Inl e, s)
      | Inr a \<Rightarrow>
          if is_blank act then (Inl ValueError, s)
          else if is_blank reason then (Inl ValueError, s)
          else (case enforcement_get_state (sv_enf s) aid of
                  Inl e \<Rightarrow> (Inl e, s)
                | Inr enforcement \<Rightarrow>
                    if \<not> is_suspended enforcement
                    then (Inl AgentNotSuspendedError, s)
                    else transition ev a ST_ACTIVE REINSTATE act reason None wm s))"

end
