(* ===== verification/Agent_Lifecycle.thy ===== *)
theory Agent_Lifecycle
  imports Agent_Service
begin

section \<open>The agent lifecycle as a state machine\<close>

text \<open>
  A step of the service is one call of one of its mutating operations, successful or not, or a
  change in the availability of one of the two repositories. The section characterises what each
  call writes, and shows the invariant of every reachable service state.
\<close>

inductive service_step :: "agent_service \<Rightarrow> agent_service \<Rightarrow> bool" where
  registers: "register_agent ev a act corr s = (r, s') \<Longrightarrow> service_step s s'"
| activates: "activate_agent ev aid act reason corr s = (r, s') \<Longrightarrow> service_step s s'"
| disables: "disable_agent ev aid act reason corr s = (r, s') \<Longrightarrow> service_step s s'"
| suspends: "suspend_agent ev aid reason trig s = (r, s') \<Longrightarrow> service_step s s'"
| reinstates: "reinstate_agent ev aid op reason wm s = (r, s') \<Longrightarrow> service_step s s'"
| administrative_outage: "service_step s (s\<lparr>sv_admin := (sv_admin s)\<lparr>ar_fault := f\<rparr>\<rparr>)"
| enforcement_outage: "service_step s (s\<lparr>sv_enf := (sv_enf s)\<lparr>er_fault := f\<rparr>\<rparr>)"

definition service_reachable :: "agent_service \<Rightarrow> bool" where
  "service_reachable s \<longleftrightarrow> service_step\<^sup>*\<^sup>* empty_service s"

definition service_inv :: "agent_service \<Rightarrow> bool" where
  "service_inv s \<longleftrightarrow>
     administrative_inv (sv_admin s) \<and> enforcement_inv (sv_enf s)
     \<and> (\<forall>aid. dget (sv_agents s) aid = None \<longleftrightarrow> dget (ar_states (sv_admin s)) aid = None)
     \<and> (\<forall>aid a. dget (sv_agents s) aid = Some a \<longrightarrow> ag_id a = aid \<and> ag_status a = ST_REGISTERED)"

subsection \<open>What each operation writes\<close>

lemmas new_records [simp] =
  new_administrative_transition_def new_administrative_state_def new_enforcement_transition_def

lemma register_agent_writes:
  assumes "register_agent ev a act corr s = (r, s')"
  shows "(s' = s \<and> \<not> returns (r, s)) \<or>
    (\<exists>t ns. r = Inr a \<and> dget (sv_agents s) (ag_id a) = None
       \<and> t = new_administrative_transition ev (ag_id a) REGISTER None AL_REGISTERED 0 act
               ''Agent registered'' corr
       \<and> ns = new_administrative_state ev (ag_id a) AL_REGISTERED 1
       \<and> s' = s\<lparr>sv_agents := agent_save a (sv_agents s),
                 sv_admin := (sv_admin s)\<lparr>ar_states := dset (ag_id a) ns (ar_states (sv_admin s)),
                                          ar_transitions := ar_transitions (sv_admin s) @ [t]\<rparr>\<rparr>)"
  using assms
  by (cases "dget (sv_agents s) (ag_id a)")
     (auto simp: register_agent_def commit_registration_def Let_def legal_cases)

lemma administrative_transition_writes:
  assumes run: "administrative_transition_to ev aid n act reason corr s = (r, s')"
  shows "(s' = s \<and> \<not> returns (r, s)) \<or>
    (\<exists>t ns e q. administrative_record_transition t ns e (sv_admin s) = (Inr True, q)
       \<and> at_agent_id t = aid \<and> as_state ns = n \<and> r = Inr ns \<and> s' = s\<lparr>sv_admin := q\<rparr>)"
proof (cases "administrative_get_state (sv_admin s) aid")
  case (Inl e)
  with run show ?thesis by (auto simp: administrative_transition_to_def)
next
  case (Inr current)
  define p where "p = map_option as_state current"
  define e where "e = (case current of Some c \<Rightarrow> as_version c | None \<Rightarrow> 0)"
  show ?thesis
  proof (cases "administrative_transition_actions (p, n)")
    case (Inl x)
    with run Inr actions_defined_iff_legal [of p n] show ?thesis
      by (auto simp: administrative_transition_to_def Let_def p_def)
  next
    case act: (Inr action)
    let ?t = "new_administrative_transition ev aid action p n e act reason corr"
    let ?ns = "new_administrative_state ev aid n (Suc e)"
    obtain x q where rec: "administrative_record_transition ?t ?ns e (sv_admin s) = (x, q)"
      by (cases "administrative_record_transition ?t ?ns e (sv_admin s)")
    have out: "(case x of Inl e \<Rightarrow> (Inl e, s\<lparr>sv_admin := q\<rparr>)
        | Inr c \<Rightarrow> if \<not> c then (Inl AdministrativeConcurrencyError, s\<lparr>sv_admin := q\<rparr>)
                   else (Inr ?ns, s\<lparr>sv_admin := q\<rparr>)) = (r, s')"
      using run Inr act rec actions_defined_iff_legal [of p n]
      by (auto simp: administrative_transition_to_def Let_def p_def [symmetric] e_def [symmetric]
          simp del: new_records)
    show ?thesis
    proof (cases "x = Inr True")
      case True
      with out rec show ?thesis
        by (intro disjI2 exI [of _ ?t] exI [of _ ?ns] exI [of _ e] exI [of _ q]) simp
    next
      case False
      then have "q = sv_admin s"
        using acas.refusal_inert [of "(?t, ?ns, e)" "sv_admin s" x q] rec by simp
      with out False show ?thesis by (cases x) (auto split: if_splits)
    qed
  qed
qed

lemma transition_writes:
  assumes run: "transition ev a ns_status action act reason trig wm s = (r, s')"
    and live: "\<not> (action = SUSPEND \<and> map_option as_state (dget (ar_states (sv_admin s)) (ag_id a)) = Some AL_DISABLED)"
  defines "st \<equiv> state_or_clean (ag_id a) (dget (er_states (sv_enf s)) (ag_id a))"
  shows "(s' = s \<and> \<not> returns (r, s)) \<or>
    (\<exists>t ns q x. enforcement_record_transition t ns (es_epoch st) (sv_enf s) = (Inr True, q)
       \<and> et_agent_id t = ag_id a \<and> et_action t = action
       \<and> ns = (if action = SUSPEND then suspended_state (env_now ev) reason st
                else reinstated_state (env_now ev) wm st)
       \<and> r = Inr x \<and> s' = s\<lparr>sv_enf := q\<rparr>)"
proof (cases "ar_fault (sv_admin s) = None \<and> er_fault (sv_enf s) = None")
  case False
  with run live show ?thesis
    by (auto simp: transition_def administrative_get_state_def enforcement_get_state_def
        split: if_splits option.splits)
next
  case True
  let ?t = "new_enforcement_transition ev a ns_status action act reason trig"
  define ns where "ns = (if action = SUSPEND then suspended_state (env_now ev) reason st
                         else reinstated_state (env_now ev) wm st)"
  obtain x q where rec: "enforcement_record_transition ?t ns (es_epoch st) (sv_enf s) = (x, q)"
    by (cases "enforcement_record_transition ?t ns (es_epoch st) (sv_enf s)")
  have reads: "administrative_get_state (sv_admin s) (ag_id a) = Inr (dget (ar_states (sv_admin s)) (ag_id a))"
    "enforcement_get_state (sv_enf s) (ag_id a) = Inr (dget (er_states (sv_enf s)) (ag_id a))"
    using True by (simp_all add: administrative_get_state_def enforcement_get_state_def)
  have out: "(case x of Inl e \<Rightarrow> (Inl e, s\<lparr>sv_enf := q\<rparr>)
      | Inr c \<Rightarrow> if \<not> c then (Inl EnforcementConcurrencyError, s\<lparr>sv_enf := q\<rparr>)
          else (Inr (a\<lparr>ag_status := project_status (dget (ar_states (sv_admin s)) (ag_id a)) (Some ns)\<rparr>),
                s\<lparr>sv_enf := q\<rparr>)) = (r, s')"
    using run unfolding transition_def reads sum.case if_not_P [OF live] Let_def
      st_def [symmetric] ns_def [symmetric] rec prod.case .
  show ?thesis
  proof (cases "x = Inr True")
    case True
    with out rec show ?thesis
      by (intro disjI2 exI [of _ ?t] exI [of _ ns] exI [of _ q]) (auto simp: ns_def)
  next
    case False
    then have "q = sv_enf s"
      using ecas.refusal_inert [of "(?t, ns, es_epoch st)" "sv_enf s" x q] rec by simp
    with out False show ?thesis by (cases x) (auto split: if_splits)
  qed
qed

text \<open>The administrative calls and the enforcement calls, after their guards.\<close>

lemma activate_writes:
  "activate_agent ev aid act reason corr s = (r, s') \<Longrightarrow> (s' = s \<and> \<not> returns (r, s)) \<or>
    (\<exists>t ns e q. administrative_record_transition t ns e (sv_admin s) = (Inr True, q)
       \<and> at_agent_id t = aid \<and> as_state ns = AL_ACTIVE \<and> r = Inr ns \<and> s' = s\<lparr>sv_admin := q\<rparr>)"
  by (cases "get_agent s aid") (auto simp: activate_agent_def dest: administrative_transition_writes)

lemma disable_writes:
  "disable_agent ev aid act reason corr s = (r, s') \<Longrightarrow> (s' = s \<and> \<not> returns (r, s)) \<or>
    (\<exists>t ns e q. administrative_record_transition t ns e (sv_admin s) = (Inr True, q)
       \<and> at_agent_id t = aid \<and> as_state ns = AL_DISABLED \<and> r = Inr ns \<and> s' = s\<lparr>sv_admin := q\<rparr>)"
  by (cases "get_agent s aid") (auto simp: disable_agent_def dest: administrative_transition_writes)

lemma get_agent_Inr:
  "get_agent s aid = Inr a \<longleftrightarrow>
     (\<exists>x. dget (sv_agents s) aid = Some x \<and> er_fault (sv_enf s) = None \<and> ar_fault (sv_admin s) = None
        \<and> a = x\<lparr>ag_status := project_status (dget (ar_states (sv_admin s)) aid)
                                              (dget (er_states (sv_enf s)) aid)\<rparr>)"
  by (auto simp: get_agent_def enforcement_or_unavailable_def enforcement_get_state_def
      administrative_get_state_def split: option.splits)

lemma service_inv_agent_id:
  "service_inv s \<Longrightarrow> get_agent s aid = Inr a \<Longrightarrow> ag_id a = aid"
  by (auto simp: service_inv_def get_agent_Inr)

lemma suspend_writes:
  assumes inv: "service_inv s" and run: "suspend_agent ev aid reason trig s = (r, s')"
  defines "st \<equiv> state_or_clean aid (dget (er_states (sv_enf s)) aid)"
  shows "s' = s \<or>
    (\<exists>t q. enforcement_record_transition t (suspended_state (env_now ev) reason st) (es_epoch st) (sv_enf s) = (Inr True, q)
       \<and> et_agent_id t = aid \<and> et_action t = SUSPEND \<and> \<not> is_suspended (dget (er_states (sv_enf s)) aid)
       \<and> s' = s\<lparr>sv_enf := q\<rparr>)"
proof (cases "get_agent s aid")
  case (Inl e)
  with run show ?thesis by (simp add: suspend_agent_def)
next
  case (Inr a)
  have id: "ag_id a = aid" by (rule service_inv_agent_id [OF inv Inr])
  have faults: "er_fault (sv_enf s) = None" "ar_fault (sv_admin s) = None"
    using Inr by (auto simp: get_agent_Inr)
  show ?thesis
  proof (cases "is_suspended (dget (er_states (sv_enf s)) aid)
                \<or> map_option as_state (dget (ar_states (sv_admin s)) aid) = Some AL_DISABLED")
    case True
    with run Inr faults show ?thesis
      by (auto simp: suspend_agent_def administrative_get_state_def enforcement_get_state_def Let_def)
  next
    case False
    with run Inr faults
    have "transition ev a ST_SUSPENDED SUSPEND runtime_actor reason trig None s = (r, s')"
      by (auto simp: suspend_agent_def administrative_get_state_def enforcement_get_state_def Let_def
          split: if_splits)
    from transition_writes [OF this] False id show ?thesis by (auto simp: st_def)
  qed
qed

lemma reinstate_writes:
  assumes inv: "service_inv s" and run: "reinstate_agent ev aid op reason wm s = (r, s')"
  defines "st \<equiv> state_or_clean aid (dget (er_states (sv_enf s)) aid)"
  shows "(s' = s \<and> \<not> returns (r, s)) \<or>
    (\<exists>t q. enforcement_record_transition t (reinstated_state (env_now ev) wm st) (es_epoch st) (sv_enf s) = (Inr True, q)
       \<and> et_agent_id t = aid \<and> et_action t = REINSTATE \<and> is_suspended (dget (er_states (sv_enf s)) aid)
       \<and> \<not> is_blank op \<and> \<not> is_blank reason \<and> returns (r, s) \<and> s' = s\<lparr>sv_enf := q\<rparr>)"
proof (cases "get_agent s aid")
  case (Inl e)
  with run have "r = Inl e \<and> s' = s" by (simp add: reinstate_agent_def)
  then show ?thesis by simp
next
  case (Inr a)
  have id: "ag_id a = aid" by (rule service_inv_agent_id [OF inv Inr])
  have faults: "er_fault (sv_enf s) = None" "ar_fault (sv_admin s) = None"
    using Inr by (auto simp: get_agent_Inr)
  show ?thesis
  proof (cases "is_blank op \<or> is_blank reason \<or> \<not> is_suspended (dget (er_states (sv_enf s)) aid)")
    case True
    with run Inr faults show ?thesis
      by (auto simp: reinstate_agent_def enforcement_get_state_def split: if_splits)
  next
    case False
    with run Inr faults
    have "transition ev a ST_ACTIVE REINSTATE op reason None wm s = (r, s')"
      by (auto simp: reinstate_agent_def enforcement_get_state_def split: if_splits)
    from transition_writes [OF this] id
    consider "s' = s" "\<not> returns (r, s)" | t q x where
      "enforcement_record_transition t (reinstated_state (env_now ev) wm st) (es_epoch st) (sv_enf s) = (Inr True, q)"
      "et_agent_id t = aid" "et_action t = REINSTATE" "r = Inr x" "s' = s\<lparr>sv_enf := q\<rparr>"
      unfolding st_def by auto
    then show ?thesis using False by cases fastforce+
  qed
qed

subsection \<open>The invariant of every reachable state\<close>

lemma service_inv_empty: "service_inv empty_service"
  by (simp add: service_inv_def empty_service_def administrative_inv_empty enforcement_inv_empty)
     (simp add: empty_administrative_repo_def)

lemma service_inv_register:
  assumes inv: "service_inv s" and run: "register_agent ev a act corr s = (r, s')"
  shows "service_inv s'"
  using register_agent_writes [OF run]
proof (elim disjE exE conjE)
  assume "s' = s"
  with inv show ?thesis by simp
next
  fix t ns
  assume fresh: "dget (sv_agents s) (ag_id a) = None"
    and t: "t = new_administrative_transition ev (ag_id a) REGISTER None AL_REGISTERED 0 act ''Agent registered'' corr"
    and ns: "ns = new_administrative_state ev (ag_id a) AL_REGISTERED 1"
    and s': "s' = s\<lparr>sv_agents := agent_save a (sv_agents s),
                 sv_admin := (sv_admin s)\<lparr>ar_states := dset (ag_id a) ns (ar_states (sv_admin s)),
                                          ar_transitions := ar_transitions (sv_admin s) @ [t]\<rparr>\<rparr>"
  have none: "dget (ar_states (sv_admin s)) (ag_id a) = None"
    using inv fresh by (auto simp: service_inv_def)
  have "administrative_inv ((sv_admin s)\<lparr>ar_states := dset (ag_id a) ns (ar_states (sv_admin s)),
                             ar_transitions := ar_transitions (sv_admin s) @ [t]\<rparr>)"
    by (rule administrative_inv_extend)
       (use inv none in \<open>auto simp: service_inv_def t ns legal_cases administrative_version_def\<close>)
  with inv show ?thesis
    by (auto simp: service_inv_def s' agent_save_lookup)
qed

lemma service_inv_administrative:
  assumes inv: "service_inv s"
    and rec: "administrative_record_transition t ns e (sv_admin s) = (Inr True, q)"
    and known: "dget (sv_agents s) (at_agent_id t) \<noteq> None"
  shows "service_inv (s\<lparr>sv_admin := q\<rparr>)"
proof -
  have "administrative_inv q"
    using administrative_inv_record [OF _ rec] inv by (simp add: service_inv_def)
  moreover have "dget (ar_states q) k = (if k = at_agent_id t then Some ns else dget (ar_states (sv_admin s)) k)" for k
    using rec by (auto simp: administrative_record_True)
  ultimately show ?thesis
    using inv known by (auto simp: service_inv_def)
qed

lemma service_inv_suspended_parity:
  assumes "service_inv s"
  defines "st aid \<equiv> state_or_clean aid (dget (er_states (sv_enf s)) aid)"
  shows "is_suspended (dget (er_states (sv_enf s)) aid) \<longleftrightarrow> odd (es_epoch (st aid))"
    and "es_recovery_generation (st aid) = es_epoch (st aid) div 2"
    and "es_epoch (st aid) = persisted_epoch (sv_enf s) aid"
proof -
  have "history_ok (history_of (sv_enf s) aid) (dget (er_states (sv_enf s)) aid) (persisted_epoch (sv_enf s) aid)"
    using assms by (simp add: service_inv_def enforcement_inv_def)
  then show "is_suspended (dget (er_states (sv_enf s)) aid) \<longleftrightarrow> odd (es_epoch (st aid))"
    and "es_recovery_generation (st aid) = es_epoch (st aid) div 2"
    and "es_epoch (st aid) = persisted_epoch (sv_enf s) aid"
    by (auto simp: history_ok_def st_def is_suspended_def state_or_clean_def clean_enforcement_state_def split: option.splits)
qed

lemma service_inv_enforcement:
  assumes inv: "service_inv s"
    and rec: "enforcement_record_transition t ns (es_epoch st) (sv_enf s) = (Inr True, q)"
    and st: "st = state_or_clean aid (dget (er_states (sv_enf s)) aid)"
    and new: "et_action t = SUSPEND \<and> ns = suspended_state now reason st
                \<and> \<not> is_suspended (dget (er_states (sv_enf s)) aid)
              \<or> et_action t = REINSTATE \<and> ns = reinstated_state now wm st
                \<and> is_suspended (dget (er_states (sv_enf s)) aid)"
  shows "service_inv (s\<lparr>sv_enf := q\<rparr>)"
proof -
  note parity = service_inv_suspended_parity [OF inv, of aid, folded st]
  have "enforcement_inv q"
  proof (rule enforcement_inv_record [OF _ rec])
    show "enforcement_inv (sv_enf s)" using inv by (simp add: service_inv_def)
    show "et_action t = (if even (es_epoch st) then SUSPEND else REINSTATE)"
      using new parity(1) by auto
    show "es_recovery_generation ns = Suc (es_epoch st) div 2"
      using new parity by (auto simp: suspended_state_def reinstated_state_def Let_def elim!: evenE oddE)
    show "es_suspended_at ns \<noteq> None \<longleftrightarrow> even (es_epoch st)"
      using new parity(1) by (auto simp: suspended_state_def reinstated_state_def Let_def)
  qed
  with inv show ?thesis by (simp add: service_inv_def)
qed

lemma activate_known:
  "activate_agent ev aid act reason corr s = (Inr x, s') \<Longrightarrow> dget (sv_agents s) aid \<noteq> None"
  by (auto simp: activate_agent_def get_agent_def split: option.splits)

lemma disable_known:
  "disable_agent ev aid act reason corr s = (Inr x, s') \<Longrightarrow> dget (sv_agents s) aid \<noteq> None"
  by (auto simp: disable_agent_def get_agent_def split: option.splits)

lemma service_inv_step:
  assumes "service_step s s'" and inv: "service_inv s"
  shows "service_inv s'"
  using assms(1)
proof cases
  case (registers ev a act corr r)
  then show ?thesis using inv by (rule_tac service_inv_register)
next
  case (activates ev aid act reason corr r)
  then show ?thesis
    using activate_writes [OF activates] activate_known service_inv_administrative [OF inv] inv by blast
next
  case (disables ev aid act reason corr r)
  then show ?thesis
    using disable_writes [OF disables] disable_known service_inv_administrative [OF inv] inv by blast
next
  case (suspends ev aid reason trig r)
  from suspend_writes [OF inv suspends] inv show ?thesis
    by (auto intro: service_inv_enforcement [OF inv _ refl])
next
  case (reinstates ev aid op reason wm r)
  from reinstate_writes [OF inv reinstates] inv show ?thesis
    by (auto intro: service_inv_enforcement [OF inv _ refl])
next
  case (administrative_outage f)
  then show ?thesis using inv
    by (simp add: service_inv_def administrative_inv_def ledger_of_def administrative_version_def)
next
  case (enforcement_outage f)
  then show ?thesis using inv
    by (simp add: service_inv_def enforcement_inv_def history_of_def)
qed

lemma service_inv_steps: "service_step\<^sup>*\<^sup>* s s' \<Longrightarrow> service_inv s \<Longrightarrow> service_inv s'"
  by (induction rule: rtranclp_induct) (auto intro: service_inv_step)

lemma service_inv_reachable: "service_reachable s \<Longrightarrow> service_inv s"
  unfolding service_reachable_def by (rule service_inv_steps [OF _ service_inv_empty])

subsection \<open>Consequences\<close>

lemma lifecycle_refusal_None:
  "lifecycle_refusal s aid = None \<longleftrightarrow>
     ar_fault (sv_admin s) = None \<and> er_fault (sv_enf s) = None
     \<and> map_option as_state (dget (ar_states (sv_admin s)) aid) = Some AL_ACTIVE
     \<and> \<not> is_suspended (dget (er_states (sv_enf s)) aid)"
  by (cases "ar_fault (sv_admin s)"; cases "er_fault (sv_enf s)"; cases "dget (er_states (sv_enf s)) aid")
     (simp_all add: lifecycle_refusal_def read_planes_def evaluate_None_iff executable_state_def
        administrative_get_state_def enforcement_get_state_def is_suspended_def)

lemma record_keeps_disabled:
  assumes "administrative_record_transition t ns e r = (Inr True, q)"
    and "map_option as_state (dget (ar_states r) aid) = Some AL_DISABLED"
  shows "map_option as_state (dget (ar_states q) aid) = Some AL_DISABLED"
  using assms by (auto simp: administrative_record_True legal_cases)

lemma step_keeps_disabled:
  assumes "service_step s s'" and inv: "service_inv s"
    and dis: "map_option as_state (dget (ar_states (sv_admin s)) aid) = Some AL_DISABLED"
  shows "map_option as_state (dget (ar_states (sv_admin s')) aid) = Some AL_DISABLED"
  using assms(1)
proof cases
  case (registers ev a act corr r)
  have "dget (sv_agents s) aid \<noteq> None"
    using inv dis by (auto simp: service_inv_def)
  with register_agent_writes [OF registers] dis show ?thesis by auto
next
  case (activates ev aid act reason corr r)
  from activate_writes [OF activates] record_keeps_disabled [OF _ dis] dis show ?thesis by auto
next
  case (disables ev aid act reason corr r)
  from disable_writes [OF disables] record_keeps_disabled [OF _ dis] dis show ?thesis by auto
next
  case (suspends ev aid reason trig r)
  from suspend_writes [OF inv suspends] dis show ?thesis by auto
next
  case (reinstates ev aid op reason wm r)
  from reinstate_writes [OF inv reinstates] dis show ?thesis by auto
qed (use dis in auto)

lemma steps_keep_disabled:
  "service_step\<^sup>*\<^sup>* s s' \<Longrightarrow> service_inv s \<Longrightarrow>
   map_option as_state (dget (ar_states (sv_admin s)) aid) = Some AL_DISABLED \<Longrightarrow>
   map_option as_state (dget (ar_states (sv_admin s')) aid) = Some AL_DISABLED"
proof (induction rule: rtranclp_induct)
  case (step y z)
  from step.IH [OF step.prems] show ?case
    by (rule step_keeps_disabled [OF step.hyps(2) service_inv_steps [OF step.hyps(1) step.prems(1)]])
qed simp

lemma reinstatements_count:
  assumes "history_ok h st ep"
  shows "length (filter (\<lambda>t. et_action t = REINSTATE) h) = length h div 2"
proof -
  have "length (filter (\<lambda>t. et_action t = REINSTATE) h) = length (filter (\<lambda>a. a = REINSTATE) (map et_action h))"
    by (simp add: filter_map comp_def)
  also have "\<dots> = length h div 2"
    using assms by (simp add: history_ok_def reinstatements_in_alternation)
  finally show ?thesis .
qed

lemma fresh_suspension_commits:
  assumes inv: "service_inv s" and clear: "\<not> is_suspended (dget (er_states (sv_enf s)) aid)"
    and st: "st = state_or_clean aid (dget (er_states (sv_enf s)) aid)"
    and t: "et_agent_id t = aid"
  shows "fst (enforcement_record_transition t (suspended_state now reason st) (es_epoch st) (sv_enf s)) = Inr True"
  using service_inv_suspended_parity(3) [OF inv, of aid] t
  by (cases "dget (er_states (sv_enf s)) aid")
     (auto simp: enforcement_record_transition_def suspended_state_def persisted_epoch_def
        state_or_clean_def clean_enforcement_state_def st Let_def)

lemma suspend_agent_returns:
  assumes inv: "service_inv s" and known: "dget (sv_agents s) aid = Some x"
    and up: "ar_fault (sv_admin s) = None" "er_fault (sv_enf s) = None"
  shows "\<exists>a s'. suspend_agent ev aid reason trig s = (Inr a, s')
    \<and> (is_suspended (dget (er_states (sv_enf s')) aid)
       \<or> map_option as_state (dget (ar_states (sv_admin s')) aid) = Some AL_DISABLED)
    \<and> sv_admin s' = sv_admin s \<and> sv_agents s' = sv_agents s \<and> er_fault (sv_enf s') = None"
proof -
  obtain a where a: "get_agent s aid = Inr a"
    using known up by (auto simp: get_agent_Inr)
  have id: "ag_id a = aid" by (rule service_inv_agent_id [OF inv a])
  define st where "st = state_or_clean aid (dget (er_states (sv_enf s)) aid)"
  have reads: "administrative_get_state (sv_admin s) aid = Inr (dget (ar_states (sv_admin s)) aid)"
    "enforcement_get_state (sv_enf s) aid = Inr (dget (er_states (sv_enf s)) aid)"
    using up by (simp_all add: administrative_get_state_def enforcement_get_state_def)
  show ?thesis
  proof (cases "is_suspended (dget (er_states (sv_enf s)) aid)
                \<or> map_option as_state (dget (ar_states (sv_admin s)) aid) = Some AL_DISABLED")
    case True
    then have "suspend_agent ev aid reason trig s = (Inr a, s)"
      by (auto simp: suspend_agent_def a reads)
    with True up show ?thesis by auto
  next
    case False
    let ?t = "new_enforcement_transition ev a ST_SUSPENDED SUSPEND runtime_actor reason trig"
    obtain q where rec: "enforcement_record_transition ?t (suspended_state (env_now ev) reason st)
        (es_epoch st) (sv_enf s) = (Inr True, q)"
      using fresh_suspension_commits [OF inv _ st_def, of ?t] False id by (metis new_records(3) prod.collapse enforcement_transition.select_convs(2))
    have "suspend_agent ev aid reason trig s =
        (Inr (a\<lparr>ag_status := project_status (dget (ar_states (sv_admin s)) aid)
                 (Some (suspended_state (env_now ev) reason st))\<rparr>), s\<lparr>sv_enf := q\<rparr>)"
      using False rec
      by (auto simp: suspend_agent_def transition_def a reads id Let_def st_def [symmetric] simp del: new_records)
    moreover have "is_suspended (dget (er_states q) aid)" "er_fault q = None"
      using rec id up by (auto simp: enforcement_record_True suspended_state_def is_suspended_def)
    ultimately show ?thesis by auto
  qed
qed

subsection \<open>Properties of the agent lifecycle\<close>

text \<open>
  (C18) Execution is permitted exactly when both planes can be read, the administrative state is
  ACTIVE and the enforcement state is not suspended: an unreadable plane, a missing
  administrative record, REGISTERED, DISABLED and SUSPENDED each refuse on their own.
\<close>

theorem execution_permitted_iff:
  "lifecycle_refusal s aid = None \<longleftrightarrow>
     ar_fault (sv_admin s) = None \<and> er_fault (sv_enf s) = None
     \<and> (\<exists>x. dget (ar_states (sv_admin s)) aid = Some x \<and> as_state x = AL_ACTIVE)
     \<and> (case dget (er_states (sv_enf s)) aid of None \<Rightarrow> True | Some e \<Rightarrow> es_suspended_at e = None)"
  by (cases "dget (er_states (sv_enf s)) aid") (simp_all add: lifecycle_refusal_None is_suspended_def)

text \<open>
  The refusal code surfaced is the most significant failing condition in the order of the
  precedence tuple, whatever the order in which the conditions were computed.
\<close>

theorem refusal_is_most_significant:
  "evaluate_lifecycle_authorization a a_ok e e_ok = Some c \<longleftrightarrow>
     c \<in> failing_lifecycle_conditions a a_ok e e_ok
     \<and> (\<forall>d \<in> failing_lifecycle_conditions a a_ok e e_ok. refusal_rank c \<le> refusal_rank d)"
proof
  assume r: "c \<in> failing_lifecycle_conditions a a_ok e e_ok
     \<and> (\<forall>d \<in> failing_lifecycle_conditions a a_ok e e_ok. refusal_rank c \<le> refusal_rank d)"
  then obtain d where d: "evaluate_lifecycle_authorization a a_ok e e_ok = Some d"
    using evaluate_None_iff [of a a_ok e e_ok] failing_empty_iff [of a a_ok e e_ok] by fastforce
  with r evaluate_most_significant [OF d] have "refusal_rank c = refusal_rank d" by force
  then have "c = d" by (cases c; cases d) simp_all
  with d show "evaluate_lifecycle_authorization a a_ok e e_ok = Some c" by simp
qed (rule evaluate_most_significant)

theorem refusal_is_most_significant_witness:
  "evaluate_lifecycle_authorization
     (Some \<lparr>as_agent_id = ''a'', as_state = AL_DISABLED, as_version = 3, as_last_transition_at = None\<rparr>) True
     (Some ((clean_enforcement_state ''a'')\<lparr>es_suspended_at := Some 5\<rparr>)) True = Some AGENT_DISABLED"
  by (subst refusal_is_most_significant) (auto simp: failing_lifecycle_conditions_def)

subsubsection \<open>A concrete history\<close>

text \<open>
  Agent \<open>a\<close> is registered, activated and suspended, then disabled: the inputs of the witnesses.
\<close>

definition ex_env :: env where
  "ex_env = \<lparr>env_now = 10, env_uuid = ''u'', env_corr_uuid = ''c''\<rparr>"

definition ex_agent :: agent where
  "ex_agent = \<lparr>ag_id = ''a'', ag_name = ''agent'', ag_owner = ''ops'', ag_risk_tier = RT_LOW,
     ag_approved_tools = [''file_read''], ag_status = ST_REGISTERED\<rparr>"

definition ex_active :: agent_service where
  "ex_active = snd (activate_agent ex_env ''a'' system_registration_actor ''go'' None
     (snd (register_agent ex_env ex_agent system_registration_actor None empty_service)))"

definition ex_suspended :: agent_service where
  "ex_suspended = snd (suspend_agent ex_env ''a'' ''risk'' None ex_active)"

definition ex_disabled :: agent_service where
  "ex_disabled = snd (disable_agent ex_env ''a'' system_registration_actor ''off'' None ex_suspended)"

lemma step_of_call:
  "service_step s (snd (register_agent ev a act corr s))"
  "service_step s (snd (activate_agent ev aid act reason corr s))"
  "service_step s (snd (disable_agent ev aid act reason corr s))"
  "service_step s (snd (suspend_agent ev aid reason trig s))"
  "service_step s (snd (reinstate_agent ev aid op reason wm s))"
  by (metis prod.collapse registers activates disables suspends reinstates)+

lemma ex_steps:
  "service_step\<^sup>*\<^sup>* empty_service ex_active" "service_step ex_active ex_suspended"
  "service_step ex_suspended ex_disabled"
  unfolding ex_disabled_def ex_suspended_def ex_active_def
  by (meson step_of_call rtranclp.rtrancl_refl rtranclp.rtrancl_into_rtrancl)+

lemma ex_reachable:
  "service_reachable ex_active" "service_reachable ex_suspended" "service_reachable ex_disabled"
  using ex_steps unfolding service_reachable_def by (meson rtranclp.rtrancl_into_rtrancl)+

text \<open>
  (C23) In every reachable state the administrative ledger of an agent is a chain of legal
  transitions from nothing, each starting in the state and version where the one before ended;
  the recorded state is the one the ledger ends in and the version is the length of the ledger.
\<close>

theorem ledger_is_evidence:
  assumes "service_reachable s"
  shows "chain None 0 (ledger_of (sv_admin s) aid)
    \<and> map_option as_state (dget (ar_states (sv_admin s)) aid) = ledger_end (ledger_of (sv_admin s) aid)
    \<and> administrative_version (sv_admin s) aid = length (ledger_of (sv_admin s) aid)"
  using service_inv_reachable [OF assms] by (simp add: service_inv_def administrative_inv_def)

theorem ledger_is_evidence_witness:
  "map at_action (ledger_of (sv_admin ex_disabled) ''a'') = [REGISTER, ACTIVATE, DISABLE]
   \<and> administrative_version (sv_admin ex_disabled) ''a'' = 3"
proof -
  have "map at_action (ledger_of (sv_admin ex_disabled) ''a'') = [REGISTER, ACTIVATE, DISABLE]"
    by code_simp
  moreover from this have "length (ledger_of (sv_admin ex_disabled) ''a'') = 3"
    by (metis length_map length_Cons list.size(3) numeral_3_eq_3)
  ultimately show ?thesis
    using ledger_is_evidence [OF ex_reachable(3), of "''a''"] by simp
qed

text \<open>
  DISABLED is final: whatever operations and outages follow, a disabled agent stays disabled
  and is never executable again, reinstatement included.
\<close>

theorem disabled_is_final:
  assumes "service_reachable s"
    and "map_option as_state (dget (ar_states (sv_admin s)) aid) = Some AL_DISABLED"
    and "service_step\<^sup>*\<^sup>* s s'"
  shows "map_option as_state (dget (ar_states (sv_admin s')) aid) = Some AL_DISABLED
    \<and> lifecycle_refusal s' aid \<noteq> None"
  using steps_keep_disabled [OF assms(3) service_inv_reachable [OF assms(1)] assms(2)]
  by (auto simp: lifecycle_refusal_None)

theorem disabled_is_final_witness:
  "lifecycle_refusal (snd (reinstate_agent ex_env ''a'' ''op'' ''cleared'' None ex_disabled)) ''a'' \<noteq> None"
proof -
  have "map_option as_state (dget (ar_states (sv_admin ex_disabled)) ''a'') = Some AL_DISABLED"
    by code_simp
  from disabled_is_final [OF ex_reachable(3) this r_into_rtranclp [of service_step, OF step_of_call(5)]]
  show ?thesis by blast
qed

text \<open>
  The enforcement epoch counts the recorded transitions of the agent, the recovery generation
  counts its reinstatements and nothing else, and the two are tied by the suspension status.
\<close>

theorem epoch_and_generation_account:
  assumes "service_reachable s" and "dget (er_states (sv_enf s)) aid = Some st"
  shows "es_epoch st = length (history_of (sv_enf s) aid)
    \<and> es_recovery_generation st
        = length (filter (\<lambda>t. et_action t = REINSTATE) (history_of (sv_enf s) aid))
    \<and> es_epoch st = 2 * es_recovery_generation st + (if es_suspended_at st = None then 0 else 1)"
proof -
  have ok: "history_ok (history_of (sv_enf s) aid) (Some st) (persisted_epoch (sv_enf s) aid)"
    using service_inv_reachable [OF assms(1)] assms(2) by (simp add: service_inv_def enforcement_inv_def) metis
  then have h: "es_epoch st = length (history_of (sv_enf s) aid)"
    "es_recovery_generation st = length (history_of (sv_enf s) aid) div 2"
    "es_suspended_at st \<noteq> None \<longleftrightarrow> odd (length (history_of (sv_enf s) aid))"
    by (simp_all add: history_ok_def)
  with reinstatements_count [OF ok] show ?thesis
    by (cases "es_suspended_at st") (simp_all add: odd_two_times_div_two_succ)
qed

theorem epoch_and_generation_account_witness:
  "\<exists>st. dget (er_states (sv_enf ex_suspended)) ''a'' = Some st \<and> es_recovery_generation st = 0 \<and> es_epoch st = 1"
proof -
  have len: "length (history_of (sv_enf ex_suspended) ''a'') = 1"
    and none: "length (filter (\<lambda>t. et_action t = REINSTATE) (history_of (sv_enf ex_suspended) ''a'')) = 0"
    and known: "dget (er_states (sv_enf ex_suspended)) ''a'' \<noteq> None"
    by code_simp+
  from known obtain st where st: "dget (er_states (sv_enf ex_suspended)) ''a'' = Some st" by blast
  with epoch_and_generation_account [OF ex_reachable(2) st] len none show ?thesis by simp
qed

text \<open>
  A successful reinstatement clears the suspension and advances the recovery generation by one,
  and leaves the administrative plane, the agent records and every other agent as they were:
  the agent is executable afterwards exactly when it is administratively ACTIVE.
\<close>

theorem reinstatement_is_recovery_only:
  assumes "service_reachable s" and run: "reinstate_agent ev aid op reason wm s = (Inr a, s')"
  shows "sv_admin s' = sv_admin s \<and> sv_agents s' = sv_agents s
    \<and> (\<forall>k. k \<noteq> aid \<longrightarrow> dget (er_states (sv_enf s')) k = dget (er_states (sv_enf s)) k)
    \<and> recovery_generation_of (sv_enf s') aid = Suc (recovery_generation_of (sv_enf s) aid)
    \<and> (lifecycle_refusal s' aid = None
         \<longleftrightarrow> map_option as_state (dget (ar_states (sv_admin s)) aid) = Some AL_ACTIVE)"
proof -
  note inv = service_inv_reachable [OF assms(1)]
  from reinstate_writes [OF inv run] obtain t q where
    rec: "enforcement_record_transition t
        (reinstated_state (env_now ev) wm (state_or_clean aid (dget (er_states (sv_enf s)) aid)))
        (es_epoch (state_or_clean aid (dget (er_states (sv_enf s)) aid))) (sv_enf s) = (Inr True, q)"
    and t: "et_agent_id t = aid" and s': "s' = s\<lparr>sv_enf := q\<rparr>"
    by auto
  have up: "ar_fault (sv_admin s) = None" "er_fault (sv_enf s) = None"
    using run by (auto simp: reinstate_agent_def get_agent_Inr split: sum.splits)
  show ?thesis
    using rec t up
    by (auto simp: enforcement_record_True s' lifecycle_refusal_None is_suspended_def reinstated_state_def
        recovery_generation_of_def state_or_clean_def clean_enforcement_state_def Let_def split: option.splits)
qed

theorem reinstatement_is_recovery_only_witness:
  "lifecycle_refusal (snd (reinstate_agent ex_env ''a'' ''op'' ''cleared'' None ex_suspended)) ''a'' = None"
proof -
  have "returns (reinstate_agent ex_env ''a'' ''op'' ''cleared'' None ex_suspended)"
    and act: "map_option as_state (dget (ar_states (sv_admin ex_suspended)) ''a'') = Some AL_ACTIVE"
    by code_simp+
  then obtain a s' where run: "reinstate_agent ex_env ''a'' ''op'' ''cleared'' None ex_suspended = (Inr a, s')"
    by (auto simp: returns_iff)
  with reinstatement_is_recovery_only [OF ex_reachable(2) run] act show ?thesis by simp
qed

text \<open>
  Suspension takes effect and is idempotent: on a known agent with both planes readable the call
  returns (no compare-and-set race is possible inside the service), the agent is refused
  afterwards, the administrative plane is untouched, and a second suspension changes nothing.
\<close>

theorem suspension_takes_effect:
  assumes "service_reachable s" and "dget (sv_agents s) aid = Some x"
    and "ar_fault (sv_admin s) = None" and "er_fault (sv_enf s) = None"
  shows "\<exists>a s'. suspend_agent ev aid reason trig s = (Inr a, s') \<and> lifecycle_refusal s' aid \<noteq> None
    \<and> sv_admin s' = sv_admin s \<and> snd (suspend_agent ev2 aid reason2 trig2 s') = s'"
proof -
  note inv = service_inv_reachable [OF assms(1)]
  from suspend_agent_returns [OF inv assms(2-4), of ev reason trig] obtain a s' where
    run: "suspend_agent ev aid reason trig s = (Inr a, s')"
    and out: "is_suspended (dget (er_states (sv_enf s')) aid)
       \<or> map_option as_state (dget (ar_states (sv_admin s')) aid) = Some AL_DISABLED"
    and same: "sv_admin s' = sv_admin s" "sv_agents s' = sv_agents s" "er_fault (sv_enf s') = None" by blast
  have "snd (suspend_agent ev2 aid reason2 trig2 s') = s'"
    using out same assms(3) by (auto simp: suspend_agent_def administrative_get_state_def
        enforcement_get_state_def split: sum.splits)
  moreover have "lifecycle_refusal s' aid \<noteq> None"
    using out by (auto simp: lifecycle_refusal_None)
  ultimately show ?thesis using run same by blast
qed

theorem suspension_takes_effect_witness:
  "lifecycle_refusal (snd (suspend_agent ex_env ''a'' ''risk'' None ex_active)) ''a'' \<noteq> None"
proof -
  have "dget (sv_agents ex_active) ''a'' = Some (the (dget (sv_agents ex_active) ''a''))"
    and up: "ar_fault (sv_admin ex_active) = None" "er_fault (sv_enf ex_active) = None"
    by code_simp+
  from suspension_takes_effect [OF ex_reachable(1) this, of ex_env "''risk''" None ex_env "''again''" None]
  show ?thesis by auto
qed

text \<open>
  The status shown for an agent never disagrees with the execution decision: it is ACTIVE exactly
  when the lifecycle refuses nothing.
\<close>

theorem projected_status_agrees:
  assumes "get_agent s aid = Inr a"
  shows "ag_status a = ST_ACTIVE \<longleftrightarrow> lifecycle_refusal s aid = None"
  using assms by (auto simp: get_agent_Inr lifecycle_refusal_None project_status_def
      split: option.splits if_splits)

theorem projected_status_agrees_witness:
  "\<exists>a. get_agent ex_suspended ''a'' = Inr a \<and> ag_status a = ST_SUSPENDED \<and> lifecycle_refusal ex_suspended ''a'' \<noteq> None"
proof -
  have "get_agent ex_suspended ''a'' = Inr (ex_agent\<lparr>ag_status := ST_SUSPENDED\<rparr>)"
    by code_simp
  from projected_status_agrees [OF this] this show ?thesis by simp
qed

text \<open>
  Of any number of administrative commits that read the same version of the same agent, in any
  interleaving, at most one succeeds.
\<close>

theorem administrative_one_winner:
  assumes "\<forall>(t, ns, v)\<in>set cs. at_agent_id t = aid \<and> v = expected"
  shows "length (filter (\<lambda>(c, r). r = Inr True) (results administrative_commit cs repo)) \<le> 1"
  by (rule acas.one_winner [of _ aid expected]) (use assms in fastforce)

theorem administrative_one_winner_witness:
  "length (filter (\<lambda>(c, r). r = Inr True) (results administrative_commit
     (replicate 3 (new_administrative_transition ex_env ''a'' DISABLE (Some AL_ACTIVE) AL_DISABLED 2
                     system_registration_actor ''off'' None,
                   new_administrative_state ex_env ''a'' AL_DISABLED 3, 2)) (sv_admin ex_active))) \<le> 1"
  by (rule administrative_one_winner [of _ "''a''" 2]) (simp add: numeral_3_eq_3)

end
