(* ===== verification/Binding.thy ===== *)
theory Binding
  imports Interfaces
begin

section \<open>Execution bindings\<close>

text \<open>
  \<^verbatim>\<open>app/models/execution_binding.py\<close>: the canonical description of the one operation an
  authorization covers, and its deterministic serialisation. Parameter mappings come from the
  caller, so their keys and values may be anything: \<open>PyOther\<close> stands for a value that is not
  a string.
\<close>

subsection \<open>Canonical parameters\<close>

datatype py_value = PyStr string | PyOther

datatype raw_parameters = NoParameters | NotAMapping | Params "(py_value \<times> py_value) list"

fun canonical_pairs :: "(py_value \<times> py_value) list \<Rightarrow> (string \<times> string) list res" where
  "canonical_pairs [] = Inr []"
| "canonical_pairs ((name, v) # rest) =
     (case name of
        PyOther \<Rightarrow> Inl ExecutionBindingValidationError
      | PyStr n \<Rightarrow>
          if n = [] then Inl ExecutionBindingValidationError
          else (case v of
                  PyOther \<Rightarrow> Inl ExecutionBindingValidationError
                | PyStr s \<Rightarrow> res_bind (canonical_pairs rest) (\<lambda>ps. Inr ((n, s) # ps))))"

definition canonicalize_parameters :: "raw_parameters \<Rightarrow> (string \<times> string) list res" where
  "canonicalize_parameters p =
     (case p of
        NoParameters \<Rightarrow> Inr []
      | NotAMapping \<Rightarrow> Inl ExecutionBindingValidationError
      | Params ps \<Rightarrow> res_bind (canonical_pairs ps) (\<lambda>qs. Inr (sort qs)))"

subsection \<open>Bindings\<close>

record binding =
  b_tool_id :: string
  b_tool_version :: string
  b_resource :: "string option"
  b_parameters :: "(string \<times> string) list"

definition resource_parameter :: string where
  "resource_parameter = ''path''"

definition canonical_parameter_order :: "(string \<times> string) list \<Rightarrow> (string \<times> string) list res" where
  "canonical_parameter_order ps =
     (if [] \<in> set (map fst ps) then Inl ValueError
      else if \<not> distinct (map fst ps) then Inl ValueError
      else Inr (sort ps))"

definition make_binding ::
  "string \<Rightarrow> string \<Rightarrow> string option \<Rightarrow> (string \<times> string) list \<Rightarrow> binding res" where
  "make_binding tool_id tool_version resource parameters =
     (if tool_id = [] \<or> tool_version = [] then Inl ValueError
      else res_bind (canonical_parameter_order parameters) (\<lambda>ps.
        let declared = dget ps resource_parameter
        in if declared \<noteq> None \<and> resource \<noteq> declared then Inl ValueError
           else Inr \<lparr>b_tool_id = tool_id, b_tool_version = tool_version,
                     b_resource = resource, b_parameters = ps\<rparr>))"

definition from_operation ::
  "string \<Rightarrow> string \<Rightarrow> raw_parameters \<Rightarrow> string option \<Rightarrow> binding res" where
  "from_operation tool_id tool_version parameters resource =
     res_bind (canonicalize_parameters parameters) (\<lambda>canonical.
       let declared = dget canonical resource_parameter
       in if resource \<noteq> None \<and> declared \<noteq> None \<and> resource \<noteq> declared
            then Inl ExecutionBindingValidationError
          else case make_binding tool_id tool_version
                      (if resource \<noteq> None then resource else declared) canonical of
                 Inl e \<Rightarrow> Inl ExecutionBindingValidationError
               | Inr b \<Rightarrow> Inr b)"

definition parameters_dict :: "binding \<Rightarrow> (string, string) dict" where
  "parameters_dict b = b_parameters b"

subsection \<open>Serialisation\<close>

text \<open>
  The part of \<^verbatim>\<open>json.dumps(..., separators=(",", ":"), ensure_ascii=False)\<close> the binding uses: null,
  strings, arrays and objects. Characters are code points below 256.
\<close>

definition hex_digit :: "nat \<Rightarrow> char" where
  "hex_digit n = ''0123456789abcdef'' ! n"

definition json_char :: "char \<Rightarrow> string" where
  "json_char c =
     (let n = of_char c :: nat
      in if n = 34 then [CHR 0x5C, CHR 0x22]
         else if n = 92 then [CHR 0x5C, CHR 0x5C]
         else if n = 10 then [CHR 0x5C, CHR ''n'']
         else if n = 13 then [CHR 0x5C, CHR ''r'']
         else if n = 9 then [CHR 0x5C, CHR ''t'']
         else if n = 12 then [CHR 0x5C, CHR ''f'']
         else if n = 8 then [CHR 0x5C, CHR ''b'']
         else if n < 32 then [CHR 0x5C, CHR ''u'', CHR ''0'', CHR ''0'', hex_digit (n div 16), hex_digit (n mod 16)]
         else [c])"

definition json_string :: "string \<Rightarrow> string" where
  "json_string s = CHR 0x22 # concat (map json_char s) @ [CHR 0x22]"

definition json_or_null :: "string option \<Rightarrow> string" where
  "json_or_null s = (case s of None \<Rightarrow> ''null'' | Some x \<Rightarrow> json_string x)"

fun json_array :: "string list \<Rightarrow> string" where
  "json_array [] = ''[]''"
| "json_array (x # xs) = CHR ''['' # x @ concat (map (\<lambda>y. CHR '','' # y) xs) @ '']''"

definition canonical_json :: "binding \<Rightarrow> string" where
  "canonical_json b =
     CHR ''{'' # json_string ''parameters'' @ '':'' @
       json_array (map (\<lambda>(n, v). json_array [json_string n, json_string v]) (b_parameters b)) @
     '','' @ json_string ''resource'' @ '':'' @ json_or_null (b_resource b) @
     '','' @ json_string ''tool_id'' @ '':'' @ json_string (b_tool_id b) @
     '','' @ json_string ''tool_version'' @ '':'' @ json_string (b_tool_version b) @ ''}''"

subsection \<open>Canonical form\<close>

definition wf_binding :: "binding \<Rightarrow> bool" where
  "wf_binding b \<longleftrightarrow>
     b_tool_id b \<noteq> [] \<and> b_tool_version b \<noteq> []
     \<and> sorted (b_parameters b) \<and> distinct (map fst (b_parameters b))
     \<and> [] \<notin> set (map fst (b_parameters b))
     \<and> (dget (b_parameters b) resource_parameter \<noteq> None
          \<longrightarrow> b_resource b = dget (b_parameters b) resource_parameter)"

lemma make_binding_Inr:
  "make_binding i v r ps = Inr b \<longleftrightarrow>
     b = \<lparr>b_tool_id = i, b_tool_version = v, b_resource = r, b_parameters = sort ps\<rparr>
     \<and> i \<noteq> [] \<and> v \<noteq> [] \<and> [] \<notin> set (map fst ps) \<and> distinct (map fst ps)
     \<and> (dget (sort ps) resource_parameter \<noteq> None \<longrightarrow> r = dget (sort ps) resource_parameter)"
  by (auto simp: make_binding_def canonical_parameter_order_def Let_def res_bind_Inr)

lemma distinct_fst_sort: "distinct (map fst (sort ps)) \<longleftrightarrow> distinct (map fst (ps :: (string \<times> string) list))"
  by (metis mset_map mset_sort mset_eq_imp_distinct_iff)

lemma make_binding_wf: "make_binding i v r ps = Inr b \<Longrightarrow> wf_binding b"
  by (auto simp: make_binding_Inr wf_binding_def distinct_fst_sort)

fun ok_pair :: "py_value \<times> py_value \<Rightarrow> bool" where
  "ok_pair (PyStr n, PyStr v) = (n \<noteq> [])"
| "ok_pair _ = False"

fun str_of :: "py_value \<Rightarrow> string" where
  "str_of (PyStr s) = s"
| "str_of PyOther = []"

lemma canonical_pairs_eq:
  "canonical_pairs ps =
     (if list_all ok_pair ps then Inr (map (map_prod str_of str_of) ps)
      else Inl ExecutionBindingValidationError)"
  by (induction ps rule: canonical_pairs.induct) (auto split: py_value.splits)

lemma canonicalize_eq:
  "canonicalize_parameters (Params ps) =
     (if list_all ok_pair ps then Inr (sort (map (map_prod str_of str_of) ps))
      else Inl ExecutionBindingValidationError)"
  by (simp add: canonicalize_parameters_def canonical_pairs_eq)

lemma canonicalize_perm:
  assumes "mset ps = mset qs"
  shows "canonicalize_parameters (Params ps) = canonicalize_parameters (Params qs)"
proof -
  have "set ps = set qs" using assms by (rule mset_eq_setD)
  moreover have "sort (map (map_prod str_of str_of) ps) = sort (map (map_prod str_of str_of) qs)"
    using assms by (metis mset_map mset_sort properties_for_sort sorted_sort)
  ultimately show ?thesis by (simp add: canonicalize_eq list_all_iff)
qed

lemma from_operation_wf: "from_operation i v p r = Inr b \<Longrightarrow> wf_binding b"
  by (auto simp: from_operation_def res_bind_Inr Let_def intro: make_binding_wf split: if_splits sum.splits)

text \<open>The mapping a binding's parameters come back as when an executor rebuilds the operation.\<close>

definition as_params :: "(string \<times> string) list \<Rightarrow> raw_parameters" where
  "as_params ps = Params (map (map_prod PyStr PyStr) ps)"

lemma canonicalize_as_params:
  "canonicalize_parameters (as_params ps) =
     (if [] \<notin> set (map fst ps) then Inr (sort ps) else Inl ExecutionBindingValidationError)"
proof -
  have "list_all ok_pair (map (map_prod PyStr PyStr) ps) \<longleftrightarrow> [] \<notin> set (map fst ps)"
    by (induction ps) auto
  then show ?thesis
    by (simp add: as_params_def canonicalize_eq comp_def map_prod_def case_prod_beta)
qed

lemma from_operation_rebuild:
  assumes "wf_binding b" and "r = b_resource b \<or> r = None \<and> b_resource b = dget (b_parameters b) resource_parameter"
  shows "from_operation (b_tool_id b) (b_tool_version b) (as_params (b_parameters b)) r = Inr b"
proof -
  have r: "(if r \<noteq> None then r else dget (b_parameters b) resource_parameter) = b_resource b"
    "\<not> (r \<noteq> None \<and> dget (b_parameters b) resource_parameter \<noteq> None \<and> r \<noteq> dget (b_parameters b) resource_parameter)"
    using assms by (auto simp: wf_binding_def)
  have "make_binding (b_tool_id b) (b_tool_version b) (b_resource b) (b_parameters b) = Inr b"
    using assms(1) by (auto simp: make_binding_Inr wf_binding_def sorted_sort_id)
  moreover have "canonicalize_parameters (as_params (b_parameters b)) = Inr (b_parameters b)"
    using assms(1) by (simp add: canonicalize_as_params wf_binding_def sorted_sort_id)
  ultimately show ?thesis
    using r(1) by (auto simp: from_operation_def Let_def if_not_P [OF r(2)]
        simp del: not_None_eq de_Morgan_conj split: if_splits)
qed

subsection \<open>The serialisation is injective\<close>

text \<open>
  A decoder for one serialised character: the serialisation can be read back, so no two texts
  share a serialisation, nor can one run into what follows it.
\<close>

definition hex_value :: "char \<Rightarrow> nat" where
  "hex_value c = (let n = of_char c in if n < 97 then n - 48 else n - 87)"

fun json_unescape :: "string \<Rightarrow> nat \<times> string" where
  "json_unescape (CHR ''u'' # a # b # h # l # r) = (16 * hex_value h + hex_value l, r)"
| "json_unescape (c # r) =
     (case dget [(CHR ''n'', 10), (CHR ''r'', 13), (CHR ''t'', 9), (CHR ''f'', 12), (CHR ''b'', 8)] c of
        Some n \<Rightarrow> (n, r) | None \<Rightarrow> (of_char c, r))"
| "json_unescape [] = (0, [])"

fun json_read_char :: "string \<Rightarrow> char \<times> string" where
  "json_read_char (c # r) =
     (if c = CHR 0x5C then (let (n, r') = json_unescape r in (char_of n, r')) else (c, r))"
| "json_read_char [] = (CHR 0x00, [])"

lemma json_read_control:
  "\<forall>n \<in> set [0..<32]. json_read_char (json_char (char_of (n :: nat)) @ xs) = (char_of n, xs)"
proof -
  have "set [0..<32] = {0 :: nat, 1, 2, 3, 4, 5, 6, 7, 8, 9, 10, 11, 12, 13, 14, 15, 16, 17, 18, 19,
      20, 21, 22, 23, 24, 25, 26, 27, 28, 29, 30, 31}" by code_simp
  then show ?thesis
    by (simp add: json_char_def hex_digit_def hex_value_def char_of_def bit_Suc_0_iff
        numeral_2_eq_2 [symmetric] del: set_upt)
qed

lemma json_read_char: "json_read_char (json_char c @ xs) = (c, xs)"
proof -
  consider "(of_char c :: nat) < 32" | "(of_char c :: nat) \<in> {34, 92}"
    | "(of_char c :: nat) \<ge> 32" "(of_char c :: nat) \<noteq> 34" "(of_char c :: nat) \<noteq> 92" by force
  then show ?thesis
  proof cases
    case 1
    then show ?thesis using json_read_control [of xs] by (metis atLeastLessThan_iff char_of_char set_upt zero_le)
  next
    case 2
    then have "of_char c = (of_char (CHR 0x22) :: nat) \<or> of_char c = (of_char (CHR 0x5C) :: nat)" by simp
    then have "c = CHR 0x22 \<or> c = CHR 0x5C" by (simp only: of_char_eq_iff)
    then show ?thesis by (auto simp: json_char_def char_of_def bit_Suc_0_iff)
  next
    case 3
    then have "c \<noteq> CHR 0x5C" by auto
    with 3 show ?thesis by (auto simp: json_char_def)
  qed
qed

lemma json_char_prefix: "json_char c @ xs = json_char d @ ys \<Longrightarrow> c = d \<and> xs = ys"
  by (metis json_read_char prod.inject)

lemma json_char_not_quote: "json_char c @ xs \<noteq> CHR 0x22 # ys"
  by (auto simp: json_char_def Let_def)

lemma json_body_prefix:
  "concat (map json_char s) @ CHR 0x22 # xs = concat (map json_char t) @ CHR 0x22 # ys \<Longrightarrow> s = t \<and> xs = ys"
proof (induction s arbitrary: t)
  case Nil
  then show ?case by (cases t) (auto simp: json_char_not_quote [symmetric])
next
  case (Cons c s)
  show ?case
  proof (cases t)
    case Nil
    with Cons.prems show ?thesis by (simp add: json_char_not_quote)
  next
    case (Cons d u)
    with Cons.prems Cons.IH [of u] json_char_prefix [of c _ d] show ?thesis by auto
  qed
qed

lemma json_string_prefix: "json_string s @ xs = json_string t @ ys \<longleftrightarrow> s = t \<and> xs = ys"
  by (auto simp: json_string_def dest: json_body_prefix)

lemma json_or_null_prefix: "json_or_null s @ xs = json_or_null t @ ys \<Longrightarrow> s = t \<and> xs = ys"
  by (cases s; cases t) (auto simp: json_or_null_def json_string_prefix, auto simp: json_string_def)

lemma json_string_inj [simp]: "json_string s = json_string t \<longleftrightarrow> s = t"
  using json_string_prefix [of s "[]" t "[]"] by simp

definition json_pair :: "string \<times> string \<Rightarrow> string" where
  "json_pair = (\<lambda>(n, v). json_array [json_string n, json_string v])"

lemma json_pair_prefix: "json_pair p @ xs = json_pair q @ ys \<longleftrightarrow> p = q \<and> xs = ys"
  by (cases p; cases q) (auto simp: json_pair_def json_string_prefix)

lemma json_pair_head: "\<exists>r. json_pair p = CHR ''['' # r"
  by (cases p) (simp add: json_pair_def)

lemma json_rest_prefix:
  "concat (map (\<lambda>y. CHR '','' # json_pair y) ps) @ CHR '']'' # xs =
   concat (map (\<lambda>y. CHR '','' # json_pair y) qs) @ CHR '']'' # ys \<Longrightarrow> ps = qs \<and> xs = ys"
proof (induction ps arbitrary: qs)
  case Nil
  then show ?case by (cases qs) auto
next
  case (Cons p ps)
  then show ?case by (cases qs) (auto simp: json_pair_prefix)
qed

lemma json_pairs_prefix:
  "json_array (map json_pair ps) @ xs = json_array (map json_pair qs) @ ys \<Longrightarrow> ps = qs \<and> xs = ys"
proof (cases ps)
  case Nil
  assume "json_array (map json_pair ps) @ xs = json_array (map json_pair qs) @ ys"
  with Nil show ?thesis
    using json_pair_head [of "hd qs"] by (cases qs) auto
next
  case (Cons p ps')
  assume a: "json_array (map json_pair ps) @ xs = json_array (map json_pair qs) @ ys"
  with Cons obtain q qs' where q: "qs = q # qs'"
    using json_pair_head [of p] by (cases qs) auto
  with a Cons show ?thesis
    using json_rest_prefix [of ps' xs qs' ys] by (simp add: json_pair_prefix comp_def)
qed

lemma canonical_json_inj: "canonical_json b = canonical_json c \<Longrightarrow> b = c"
proof -
  assume "canonical_json b = canonical_json c"
  then have "json_array (map json_pair (b_parameters b)) @ '','' @ json_string ''resource'' @ '':'' @
      json_or_null (b_resource b) @ '','' @ json_string ''tool_id'' @ '':'' @ json_string (b_tool_id b) @
      '','' @ json_string ''tool_version'' @ '':'' @ json_string (b_tool_version b) @ ''}''
    = json_array (map json_pair (b_parameters c)) @ '','' @ json_string ''resource'' @ '':'' @
      json_or_null (b_resource c) @ '','' @ json_string ''tool_id'' @ '':'' @ json_string (b_tool_id c) @
      '','' @ json_string ''tool_version'' @ '':'' @ json_string (b_tool_version c) @ ''}''"
    by (simp add: canonical_json_def json_pair_def [symmetric] del: append_assoc json_array.simps) 
  note p = json_pairs_prefix [OF this]
  then have "json_or_null (b_resource b) @ '','' @ json_string ''tool_id'' @ '':'' @ json_string (b_tool_id b) @
      '','' @ json_string ''tool_version'' @ '':'' @ json_string (b_tool_version b) @ ''}''
    = json_or_null (b_resource c) @ '','' @ json_string ''tool_id'' @ '':'' @ json_string (b_tool_id c) @
      '','' @ json_string ''tool_version'' @ '':'' @ json_string (b_tool_version c) @ ''}''"
    by simp
  note r = json_or_null_prefix [OF this]
  then have "b_tool_id b = b_tool_id c \<and> b_tool_version b = b_tool_version c"
    by (auto simp: json_string_prefix)
  with p r show "b = c" by simp
qed

subsection \<open>Properties of bindings\<close>

text \<open>
  The order in which a request lists its parameters does not matter: permuted mappings give
  the same binding, or are refused alike.
\<close>

theorem binding_order_insensitive:
  assumes "mset ps = mset qs"
  shows "from_operation tool version (Params ps) resource = from_operation tool version (Params qs) resource"
  by (simp add: from_operation_def canonicalize_perm [OF assms])

theorem binding_order_insensitive_witness:
  "from_operation ''t'' ''1'' (Params [(PyStr ''path'', PyStr ''/a''), (PyStr ''mode'', PyStr ''r'')]) None =
   from_operation ''t'' ''1'' (Params [(PyStr ''mode'', PyStr ''r''), (PyStr ''path'', PyStr ''/a'')]) None"
  by (rule binding_order_insensitive) simp

text \<open>
  Every binding that is built is canonical (names non-empty, unique and sorted, resource equal to
  the resource parameter when there is one), and rebuilding the operation it describes from its
  own parameters and resource gives the binding back.
\<close>

theorem binding_canonical:
  assumes "from_operation tool version p resource = Inr b"
  shows "wf_binding b \<and> from_operation tool version (as_params (b_parameters b)) (b_resource b) = Inr b"
proof -
  have "b_tool_id b = tool" "b_tool_version b = version"
    using assms by (auto simp: from_operation_def res_bind_Inr Let_def make_binding_Inr split: if_splits sum.splits)
  with from_operation_rebuild [of b "b_resource b"] from_operation_wf [OF assms] show ?thesis by simp
qed

theorem binding_canonical_witness:
  "\<exists>b. from_operation ''t'' ''1'' (Params [(PyStr ''path'', PyStr ''/a''), (PyStr ''mode'', PyStr ''r'')]) None = Inr b
    \<and> b_resource b = Some ''/a'' \<and> wf_binding b"
proof -
  let ?b = "\<lparr>b_tool_id = ''t'', b_tool_version = ''1'', b_resource = Some ''/a'',
             b_parameters = [(''mode'', ''r''), (''path'', ''/a'')]\<rparr>"
  have "from_operation ''t'' ''1'' (Params [(PyStr ''path'', PyStr ''/a''), (PyStr ''mode'', PyStr ''r'')]) None = Inr ?b"
    by code_simp
  from binding_canonical [OF this] this show ?thesis by auto
qed

text \<open>
  (C40) The serialisation a grant signature covers determines the binding: two bindings with the same
  canonical JSON are equal, whatever characters their fields hold.
\<close>

theorem canonical_json_injective:
  "canonical_json b = canonical_json c \<longleftrightarrow> b = c"
  using canonical_json_inj by blast

end
