(* ===== verification/Execution_Authority.thy ===== *)
theory Execution_Authority
  imports Enforcement Binding
begin

section \<open>The execution authority\<close>

text \<open>
  \<^verbatim>\<open>app/runtime/execution_authority.py\<close>: issuing, verifying, claiming and revoking execution
  grants. The keyed MAC (HMAC-SHA256 of the serialised payload under the random key of the
  process) is the parameter \<open>mac\<close> of every operation that signs; the readings of the monotonic
  clock and of \<^verbatim>\<open>uuid4\<close> are arguments. Each method body runs under the authority's lock, so an
  interleaving of threads is a sequence of these operations.
\<close>

subsection \<open>State\<close>

datatype issuance_plane = PLANE_ADMINISTRATIVE | PLANE_ENFORCEMENT

record outstanding_grant =
  og_expires_at :: instant
  og_agent_id :: string
  og_session_id :: string

record grant =
  gr_grant_id :: string
  gr_authority_id :: string
  gr_agent_id :: string
  gr_session_id :: string
  gr_binding :: binding
  gr_issued_at :: instant
  gr_expires_at :: instant
  gr_signature :: string
  gr_capability_profile_id :: "string option"
  gr_capability_digest :: "string option"

text \<open>What a caller presents as a grant: nothing, some other object, or a grant object.\<close>

datatype presented = NoGrant | NotAGrant | Presented grant

record sign_payload =
  sp_agent_id :: string
  sp_authority_id :: string
  sp_binding :: string
  sp_expires_at :: instant
  sp_grant_id :: string
  sp_issued_at :: instant
  sp_session_id :: string
  sp_capability_profile_id :: "string option"
  sp_capability_digest :: "string option"

type_synonym mac = "sign_payload \<Rightarrow> string"

record authority =
  au_authority_id :: string
  au_ttl :: duration
  au_outstanding :: "(string, outstanding_grant) dict"
  au_revoked :: "(string, instant) dict"
  au_issuance_closed :: "(string, issuance_plane set) dict"

definition max_grant_ttl :: duration where
  "max_grant_ttl = 30 * 1000000"

definition new_authority :: "string \<Rightarrow> duration \<Rightarrow> authority res" where
  "new_authority uuid ttl =
     (if ttl \<le> 0 then Inl ValueError
      else if ttl > max_grant_ttl then Inl ValueError
      else Inr \<lparr>au_authority_id = ''authority-'' @ uuid, au_ttl = ttl, au_outstanding = [],
                au_revoked = [], au_issuance_closed = []\<rparr>)"

subsection \<open>Issuing\<close>

definition sign ::
  "mac \<Rightarrow> string \<Rightarrow> string \<Rightarrow> binding \<Rightarrow> instant \<Rightarrow> instant \<Rightarrow> string \<Rightarrow> string
     \<Rightarrow> string option \<Rightarrow> string option \<Rightarrow> string" where
  "sign mac grant_id authority_id b issued_at expires_at agent_id session_id profile_id digest =
     mac \<lparr>sp_agent_id = agent_id, sp_authority_id = authority_id, sp_binding = canonical_json b,
          sp_expires_at = expires_at, sp_grant_id = grant_id, sp_issued_at = issued_at,
          sp_session_id = session_id, sp_capability_profile_id = profile_id,
          sp_capability_digest = digest\<rparr>"

definition prune :: "instant \<Rightarrow> authority \<Rightarrow> authority" where
  "prune now a =
     a\<lparr>au_outstanding := filter (\<lambda>(gid, og). \<not> og_expires_at og \<le> now) (au_outstanding a),
       au_revoked := filter (\<lambda>(gid, e). \<not> e \<le> now) (au_revoked a)\<rparr>"

definition outstanding_grant_count :: "instant \<Rightarrow> authority \<Rightarrow> nat \<times> authority" where
  "outstanding_grant_count now a = (let a' = prune now a in (length (au_outstanding a'), a'))"

text \<open>
  The grant model requires a non-empty identity; its validation error is raised after the grant
  has been entered as outstanding.
\<close>

definition new_grant ::
  "mac \<Rightarrow> instant \<Rightarrow> string \<Rightarrow> binding \<Rightarrow> string \<Rightarrow> string \<Rightarrow> string option \<Rightarrow> string option
     \<Rightarrow> authority \<Rightarrow> grant" where
  "new_grant mac now uuid b agent_id session_id profile_id digest a =
     (let grant_id = ''grant-'' @ uuid; expires_at = now + au_ttl a
      in \<lparr>gr_grant_id = grant_id, gr_authority_id = au_authority_id a, gr_agent_id = agent_id,
          gr_session_id = session_id, gr_binding = b, gr_issued_at = now, gr_expires_at = expires_at,
          gr_signature = sign mac grant_id (au_authority_id a) b now expires_at agent_id session_id
                           profile_id digest,
          gr_capability_profile_id = profile_id, gr_capability_digest = digest\<rparr>)"

definition create_grant ::
  "mac \<Rightarrow> instant \<Rightarrow> string \<Rightarrow> binding \<Rightarrow> string \<Rightarrow> string \<Rightarrow> string option \<Rightarrow> string option
     \<Rightarrow> (authority, grant) eff" where
  "create_grant mac now uuid b agent_id session_id profile_id digest a =
     (let a1 = prune now a;
          g = new_grant mac now uuid b agent_id session_id profile_id digest a1;
          a2 = a1\<lparr>au_outstanding :=
                    dset (gr_grant_id g)
                      \<lparr>og_expires_at = gr_expires_at g, og_agent_id = agent_id, og_session_id = session_id\<rparr>
                      (au_outstanding a1)\<rparr>
      in if agent_id = [] \<or> session_id = [] then (Inl ValueError, a2) else (Inr g, a2))"

record issue_request =
  iq_binding :: binding
  iq_decision :: decision
  iq_agent_id :: string
  iq_session_id :: string
  iq_expected_epoch :: "nat option"
  iq_capability_profile_id :: "string option"
  iq_capability_digest :: "string option"

definition issue ::
  "mac \<Rightarrow> instant \<Rightarrow> string \<Rightarrow> enforcement_repo option \<Rightarrow> issue_request \<Rightarrow> (authority, grant option) eff" where
  "issue mac now uuid repo q a =
     (let create = and_then (create_grant mac now uuid (iq_binding q) (iq_agent_id q) (iq_session_id q)
                              (iq_capability_profile_id q) (iq_capability_digest q)) (\<lambda>g. ok (Some g)) a
      in if iq_decision q \<noteq> ALLOW then (Inr None, a)
         else if get_or (au_issuance_closed a) (iq_agent_id q) {} \<noteq> {} then (Inr None, a)
         else case (iq_expected_epoch q, repo) of
                (Some expected, Some r) \<Rightarrow>
                  (case enforcement_get_state r (iq_agent_id q) of
                     Inl e \<Rightarrow> (Inl e, a)
                   | Inr persisted \<Rightarrow>
                       if (case persisted of Some st \<Rightarrow> es_epoch st | None \<Rightarrow> 0) \<noteq> expected
                       then (Inr None, a) else create)
              | _ \<Rightarrow> create)"

subsection \<open>Verifying and claiming\<close>

definition verify_authenticity :: "mac \<Rightarrow> authority \<Rightarrow> presented \<Rightarrow> grant res" where
  "verify_authenticity mac a p =
     (case p of
        NoGrant \<Rightarrow> Inl (ExecutionBindingError MISSING_GRANT)
      | NotAGrant \<Rightarrow> Inl (ExecutionBindingError MALFORMED_GRANT)
      | Presented g \<Rightarrow>
          if gr_authority_id g \<noteq> au_authority_id a then Inl (ExecutionBindingError FOREIGN_AUTHORITY)
          else if sign mac (gr_grant_id g) (gr_authority_id g) (gr_binding g) (gr_issued_at g)
                    (gr_expires_at g) (gr_agent_id g) (gr_session_id g)
                    (gr_capability_profile_id g) (gr_capability_digest g) \<noteq> gr_signature g
            then Inl (ExecutionBindingError INVALID_SIGNATURE)
          else Inr g)"

definition require_exact_match :: "binding \<Rightarrow> binding \<Rightarrow> unit res" where
  "require_exact_match authorized requested =
     (if b_tool_id requested \<noteq> b_tool_id authorized then Inl (ExecutionBindingError TOOL_MISMATCH)
      else if b_tool_version requested \<noteq> b_tool_version authorized
        then Inl (ExecutionBindingError TOOL_MISMATCH)
      else if b_resource requested \<noteq> b_resource authorized
        then Inl (ExecutionBindingError RESOURCE_MISMATCH)
      else if b_parameters requested \<noteq> b_parameters authorized
        then Inl (ExecutionBindingError PARAMETER_MISMATCH)
      else Inr ())"

definition require_claimable_locked :: "instant \<Rightarrow> grant \<Rightarrow> binding \<Rightarrow> (authority, unit) eff" where
  "require_claimable_locked now g requested a0 =
     (let a = prune now a0
      in if now \<ge> gr_expires_at g
           then (Inl (ExecutionBindingError EXPIRED),
                 a\<lparr>au_outstanding := ddel (gr_grant_id g) (au_outstanding a)\<rparr>)
         else if dget (au_revoked a) (gr_grant_id g) \<noteq> None
           then (Inl (ExecutionBindingError REVOKED), a)
         else case dget (au_outstanding a) (gr_grant_id g) of
                None \<Rightarrow> (Inl (ExecutionBindingError CONSUMED), a)
              | Some og \<Rightarrow>
                  if og_agent_id og \<noteq> gr_agent_id g \<or> og_session_id og \<noteq> gr_session_id g
                  then (Inl (ExecutionBindingError IDENTITY_MISMATCH), a)
                  else (require_exact_match (gr_binding g) requested, a))"

definition verify_grant :: "mac \<Rightarrow> instant \<Rightarrow> presented \<Rightarrow> binding \<Rightarrow> (authority, unit) eff" where
  "verify_grant mac now p requested a =
     (case verify_authenticity mac a p of
        Inl e \<Rightarrow> (Inl e, a)
      | Inr g \<Rightarrow> require_claimable_locked now g requested a)"

definition claim_grant :: "mac \<Rightarrow> instant \<Rightarrow> presented \<Rightarrow> binding \<Rightarrow> (authority, unit) eff" where
  "claim_grant mac now p requested a =
     (case verify_authenticity mac a p of
        Inl e \<Rightarrow> (Inl e, a)
      | Inr g \<Rightarrow>
          (case require_claimable_locked now g requested a of
             (Inl e, a') \<Rightarrow> (Inl e, a')
           | (Inr _, a') \<Rightarrow>
               (Inr (), a'\<lparr>au_outstanding := ddel (gr_grant_id g) (au_outstanding a')\<rparr>)))"

definition consume_grant :: "grant \<Rightarrow> authority \<Rightarrow> authority" where
  "consume_grant g a =
     (if dget (au_outstanding a) (gr_grant_id g) \<noteq> None
      then a\<lparr>au_outstanding := ddel (gr_grant_id g) (au_outstanding a)\<rparr> else a)"

definition verify_and_consume :: "mac \<Rightarrow> instant \<Rightarrow> presented \<Rightarrow> binding \<Rightarrow> (authority, unit) eff" where
  "verify_and_consume mac now p requested = claim_grant mac now p requested"

subsection \<open>Closing and reopening issuance\<close>

definition revoke_one :: "string \<Rightarrow> authority \<Rightarrow> authority" where
  "revoke_one gid a =
     (case dget (au_outstanding a) gid of
        None \<Rightarrow> a
      | Some og \<Rightarrow> a\<lparr>au_outstanding := ddel gid (au_outstanding a),
                     au_revoked := dset gid (og_expires_at og) (au_revoked a)\<rparr>)"

definition suspend_issuance :: "string \<Rightarrow> issuance_plane \<Rightarrow> authority \<Rightarrow> nat \<times> authority" where
  "suspend_issuance agent_id plane a =
     (let a1 = a\<lparr>au_issuance_closed :=
                   dset agent_id (insert plane (get_or (au_issuance_closed a) agent_id {}))
                     (au_issuance_closed a)\<rparr>;
          revoked = map fst (filter (\<lambda>(gid, og). og_agent_id og = agent_id) (au_outstanding a1))
      in (length revoked, fold revoke_one revoked a1))"

definition resume_issuance :: "string \<Rightarrow> issuance_plane \<Rightarrow> authority \<Rightarrow> authority" where
  "resume_issuance agent_id plane a =
     (case dget (au_issuance_closed a) agent_id of
        None \<Rightarrow> a
      | Some closed \<Rightarrow>
          let rest = closed - {plane}
          in if rest = {} then a\<lparr>au_issuance_closed := ddel agent_id (au_issuance_closed a)\<rparr>
             else a\<lparr>au_issuance_closed := dset agent_id rest (au_issuance_closed a)\<rparr>)"

definition issuance_closed_planes :: "authority \<Rightarrow> string \<Rightarrow> issuance_plane set" where
  "issuance_closed_planes a agent_id = get_or (au_issuance_closed a) agent_id {}"

definition issuance_suspended :: "authority \<Rightarrow> string \<Rightarrow> bool" where
  "issuance_suspended a agent_id \<longleftrightarrow> issuance_closed_planes a agent_id \<noteq> {}"

subsection \<open>Well-formed authorities\<close>

definition authority_inv :: "authority \<Rightarrow> bool" where
  "authority_inv a \<longleftrightarrow>
     0 < au_ttl a \<and> au_ttl a \<le> max_grant_ttl
     \<and> distinct (dkeys (au_outstanding a)) \<and> distinct (dkeys (au_revoked a))
     \<and> (\<forall>gid og. dget (au_outstanding a) gid = Some og \<longrightarrow> \<not> issuance_suspended a (og_agent_id og))"

lemmas closed_defs [mdefs] = issuance_suspended_def issuance_closed_planes_def

lemma prune_fields [simp]:
  "au_authority_id (prune now a) = au_authority_id a" "au_ttl (prune now a) = au_ttl a"
  "au_issuance_closed (prune now a) = au_issuance_closed a"
  by (simp_all add: prune_def)

lemma suspended_cong:
  "au_issuance_closed a = au_issuance_closed b \<Longrightarrow> issuance_suspended a k = issuance_suspended b k"
  by (simp add: mdefs)

lemma prune_outstanding:
  "distinct (dkeys (au_outstanding a)) \<Longrightarrow>
   dget (au_outstanding (prune now a)) t =
     (case dget (au_outstanding a) t of
        Some og \<Rightarrow> if og_expires_at og \<le> now then None else Some og | None \<Rightarrow> None)"
  by (simp add: prune_def dget_filter split: option.splits)

lemma prune_outstanding_Some:
  "distinct (dkeys (au_outstanding a)) \<Longrightarrow>
   dget (au_outstanding (prune now a)) t = Some og \<longleftrightarrow> dget (au_outstanding a) t = Some og \<and> now < og_expires_at og"
  by (auto simp: prune_outstanding split: option.splits if_splits)

lemma authority_inv_prune [intro]: "authority_inv a \<Longrightarrow> authority_inv (prune now a)"
proof -
  assume inv: "authority_inv a"
  have "distinct (dkeys (au_outstanding (prune now a)))" "distinct (dkeys (au_revoked (prune now a)))"
    using inv by (auto simp: authority_inv_def prune_def)
  with inv show ?thesis
    by (auto simp: authority_inv_def prune_outstanding_Some suspended_cong [of "prune now a" a])
qed

lemma authority_inv_delete [intro]:
  "authority_inv a \<Longrightarrow> authority_inv (a\<lparr>au_outstanding := ddel gid (au_outstanding a)\<rparr>)"
  by (auto simp: authority_inv_def mdefs)

lemma new_authority_inv: "new_authority uuid ttl = Inr a \<Longrightarrow> authority_inv a"
  by (auto simp: new_authority_def authority_inv_def split: if_splits)

lemma create_grant_inv:
  assumes inv: "authority_inv a" and open_: "\<not> issuance_suspended a aid"
    and run: "create_grant mac now uuid b aid sid pr dg a = (r, a')"
  shows "authority_inv a'"
  using authority_inv_prune [OF inv, of now] open_ run
  by (auto simp: create_grant_def Let_def authority_inv_def mdefs split: if_splits)

text \<open>What an issuance does to the state: nothing, or one new outstanding grant.\<close>

definition epoch_current :: "enforcement_repo option \<Rightarrow> issue_request \<Rightarrow> bool" where
  "epoch_current repo q \<longleftrightarrow>
     (case (iq_expected_epoch q, repo) of
        (Some e, Some r) \<Rightarrow>
          er_fault r = None
          \<and> (case dget (er_states r) (iq_agent_id q) of Some st \<Rightarrow> es_epoch st | None \<Rightarrow> 0) = e
      | _ \<Rightarrow> True)"

definition may_issue :: "enforcement_repo option \<Rightarrow> issue_request \<Rightarrow> authority \<Rightarrow> bool" where
  "may_issue repo q a \<longleftrightarrow>
     iq_decision q = ALLOW \<and> \<not> issuance_suspended a (iq_agent_id q) \<and> epoch_current repo q"

definition create_for :: "mac \<Rightarrow> instant \<Rightarrow> string \<Rightarrow> issue_request \<Rightarrow> (authority, grant) eff" where
  "create_for mac now uuid q =
     create_grant mac now uuid (iq_binding q) (iq_agent_id q) (iq_session_id q)
       (iq_capability_profile_id q) (iq_capability_digest q)"

lemma issue_allowed:
  "may_issue repo q a \<Longrightarrow> issue mac now uuid repo q a = and_then (create_for mac now uuid q) (\<lambda>g. ok (Some g)) a"
  by (auto simp: issue_def may_issue_def epoch_current_def create_for_def mdefs Let_def split: option.splits)

lemma issue_refused:
  "\<not> may_issue repo q a \<Longrightarrow> \<exists>r. issue mac now uuid repo q a = (r, a) \<and> (\<forall>g. r \<noteq> Inr (Some g))"
  by (auto simp: issue_def may_issue_def epoch_current_def mdefs Let_def split: option.splits)

lemma issue_inv:
  assumes "authority_inv a" and "issue mac now uuid repo q a = (r, a')"
  shows "authority_inv a'"
proof (cases "may_issue repo q a")
  case True
  obtain x b where c: "create_for mac now uuid q a = (x, b)" by fastforce
  with True assms issue_allowed [OF True, of mac now uuid] have "a' = b"
    by (auto simp: and_then_def split: sum.splits)
  with c True assms(1) show ?thesis
    by (auto simp: create_for_def may_issue_def intro: create_grant_inv)
next
  case False
  with assms issue_refused [OF False, of mac now uuid] show ?thesis by auto
qed

lemma claimable_state:
  "require_claimable_locked now g rq a = (r, a') \<Longrightarrow>
     a' = prune now a
     \<or> (gr_expires_at g \<le> now \<and> r = Inl (ExecutionBindingError EXPIRED)
        \<and> a' = (prune now a)\<lparr>au_outstanding := ddel (gr_grant_id g) (au_outstanding (prune now a))\<rparr>)"
  by (auto simp: require_claimable_locked_def Let_def split: if_splits option.splits)

lemma exact_match_iff: "require_exact_match b c = Inr () \<longleftrightarrow> c = b"
  by (auto simp: require_exact_match_def)

lemma claimable_iff:
  "require_claimable_locked now g rq a = (Inr (), a') \<longleftrightarrow>
     a' = prune now a \<and> now < gr_expires_at g \<and> dget (au_revoked a') (gr_grant_id g) = None
     \<and> (\<exists>og. dget (au_outstanding a') (gr_grant_id g) = Some og
           \<and> og_agent_id og = gr_agent_id g \<and> og_session_id og = gr_session_id g)
     \<and> rq = gr_binding g"
  by (auto simp: require_claimable_locked_def Let_def exact_match_iff split: if_splits option.splits)

lemma claim_iff:
  "claim_grant mac now p rq a = (Inr (), a') \<longleftrightarrow>
     (\<exists>g a1. verify_authenticity mac a p = Inr g \<and> require_claimable_locked now g rq a = (Inr (), a1)
        \<and> a' = a1\<lparr>au_outstanding := ddel (gr_grant_id g) (au_outstanding a1)\<rparr>)"
  by (auto simp: claim_grant_def split: sum.splits prod.splits)

lemma claim_refused_state:
  "claim_grant mac now p rq a = (Inl e, a') \<Longrightarrow>
     a' = a \<or> (\<exists>g. p = Presented g \<and> verify_authenticity mac a p = Inr g \<and> require_claimable_locked now g rq a = (Inl e, a'))"
  by (auto simp: claim_grant_def verify_authenticity_def split: sum.splits prod.splits presented.splits if_splits)

lemma claimable_inv: "authority_inv a \<Longrightarrow> require_claimable_locked now g rq a = (r, a') \<Longrightarrow> authority_inv a'"
  using claimable_state [of now g rq a r a'] by auto

lemma verify_inv: "authority_inv a \<Longrightarrow> verify_grant mac now p rq a = (r, a') \<Longrightarrow> authority_inv a'"
  by (auto simp: verify_grant_def intro: claimable_inv split: sum.splits)

lemma claim_inv: "authority_inv a \<Longrightarrow> claim_grant mac now p rq a = (r, a') \<Longrightarrow> authority_inv a'"
  by (auto simp: claim_grant_def dest: claimable_inv split: sum.splits prod.splits)

lemma consume_inv: "authority_inv a \<Longrightarrow> authority_inv (consume_grant g a)"
  by (auto simp: consume_grant_def)

subsection \<open>Revocation\<close>

lemma revoke_one_outstanding:
  "dget (au_outstanding (revoke_one gid a)) t = (if t = gid then None else dget (au_outstanding a) t)"
  by (auto simp: revoke_one_def split: option.splits)

lemma revoke_one_fields [simp]:
  "au_issuance_closed (revoke_one gid a) = au_issuance_closed a" "au_ttl (revoke_one gid a) = au_ttl a"
  "au_authority_id (revoke_one gid a) = au_authority_id a"
  by (auto simp: revoke_one_def split: option.splits)

lemma revoke_all_fields [simp]:
  "au_issuance_closed (fold revoke_one gids a) = au_issuance_closed a"
  "au_ttl (fold revoke_one gids a) = au_ttl a"
  "au_authority_id (fold revoke_one gids a) = au_authority_id a"
  by (induction gids arbitrary: a) auto

lemma revoke_all_outstanding:
  "dget (au_outstanding (fold revoke_one gids a)) t = (if t \<in> set gids then None else dget (au_outstanding a) t)"
  by (induction gids arbitrary: a) (auto simp: revoke_one_outstanding)

lemma revoke_all_distinct:
  "distinct (dkeys (au_outstanding a)) \<Longrightarrow> distinct (dkeys (au_revoked a)) \<Longrightarrow>
   distinct (dkeys (au_outstanding (fold revoke_one gids a))) \<and> distinct (dkeys (au_revoked (fold revoke_one gids a)))"
  by (induction gids arbitrary: a) (auto simp: revoke_one_def split: option.splits)

lemma suspend_outstanding:
  assumes "distinct (dkeys (au_outstanding a))"
  shows "dget (au_outstanding (snd (suspend_issuance aid plane a))) t =
    (case dget (au_outstanding a) t of
       Some og \<Rightarrow> if og_agent_id og = aid then None else Some og | None \<Rightarrow> None)"
proof -
  have "t \<in> set (map fst (filter (\<lambda>(gid, og). og_agent_id og = aid) (au_outstanding a)))
        \<longleftrightarrow> (\<exists>og. dget (au_outstanding a) t = Some og \<and> og_agent_id og = aid)"
    using assms by (force simp: map_of_eq_Some_iff)
  then show ?thesis
    by (auto simp: suspend_issuance_def Let_def revoke_all_outstanding split: option.splits)
qed

lemma suspend_closed:
  "issuance_closed_planes (snd (suspend_issuance aid plane a)) k =
     (if k = aid then insert plane (issuance_closed_planes a aid) else issuance_closed_planes a k)"
  by (simp add: suspend_issuance_def Let_def mdefs)

lemma suspend_inv: "authority_inv a \<Longrightarrow> authority_inv (snd (suspend_issuance aid plane a))"
proof -
  assume inv: "authority_inv a"
  have d: "distinct (dkeys (au_outstanding (snd (suspend_issuance aid plane a))))
    \<and> distinct (dkeys (au_revoked (snd (suspend_issuance aid plane a))))"
    using inv by (simp add: suspend_issuance_def Let_def authority_inv_def revoke_all_distinct)
  have ttl: "au_ttl (snd (suspend_issuance aid plane a)) = au_ttl a"
    by (simp add: suspend_issuance_def Let_def)
  show ?thesis
    using inv d ttl
    by (auto simp: authority_inv_def suspend_outstanding issuance_suspended_def suspend_closed split: option.splits if_splits)
qed

lemma resume_closed:
  "issuance_closed_planes (resume_issuance aid plane a) k =
     (if k = aid then issuance_closed_planes a aid - {plane} else issuance_closed_planes a k)"
  by (auto simp: resume_issuance_def Let_def mdefs get_or_def split: option.splits)

lemma resume_fields [simp]:
  "au_outstanding (resume_issuance aid plane a) = au_outstanding a"
  "au_revoked (resume_issuance aid plane a) = au_revoked a"
  "au_ttl (resume_issuance aid plane a) = au_ttl a"
  "au_authority_id (resume_issuance aid plane a) = au_authority_id a"
  by (auto simp: resume_issuance_def Let_def split: option.splits)

lemma resume_inv: "authority_inv a \<Longrightarrow> authority_inv (resume_issuance aid plane a)"
  by (auto simp: authority_inv_def issuance_suspended_def resume_closed)

subsection \<open>Sequences of operations\<close>

datatype authority_op =
    OpIssue instant string "enforcement_repo option" issue_request
  | OpVerify instant presented binding
  | OpClaim instant presented binding
  | OpConsume grant
  | OpSuspend string issuance_plane
  | OpResume string issuance_plane

fun claimed_id :: "presented \<Rightarrow> unit res \<Rightarrow> string option" where
  "claimed_id (Presented g) (Inr _) = Some (gr_grant_id g)"
| "claimed_id _ _ = None"

text \<open>The result of an operation is the identifier of the grant it claims, if it claims one.\<close>

fun authority_exec :: "mac \<Rightarrow> authority_op \<Rightarrow> authority \<Rightarrow> string option \<times> authority" where
  "authority_exec mac (OpIssue now uuid repo q) a = (None, snd (issue mac now uuid repo q a))"
| "authority_exec mac (OpVerify now p rq) a = (None, snd (verify_grant mac now p rq a))"
| "authority_exec mac (OpClaim now p rq) a =
     (let (r, a') = claim_grant mac now p rq a in (claimed_id p r, a'))"
| "authority_exec mac (OpConsume g) a = (None, consume_grant g a)"
| "authority_exec mac (OpSuspend aid plane) a = (None, snd (suspend_issuance aid plane a))"
| "authority_exec mac (OpResume aid plane) a = (None, resume_issuance aid plane a)"

fun mints_grant :: "authority_op \<Rightarrow> string \<Rightarrow> bool" where
  "mints_grant (OpIssue now uuid repo q) gid = (gid = ''grant-'' @ uuid)"
| "mints_grant _ gid = False"

definition grant_live :: "authority \<Rightarrow> string \<Rightarrow> bool" where
  "grant_live a gid \<longleftrightarrow> dget (au_outstanding a) gid \<noteq> None"

lemma authority_exec_inv: "authority_inv a \<Longrightarrow> authority_inv (snd (authority_exec mac x a))"
  by (cases x)
     (auto intro: issue_inv verify_inv claim_inv consume_inv suspend_inv resume_inv split: prod.splits
        simp: prod_eq_iff)

lemma authority_runs_inv: "authority_inv a \<Longrightarrow> authority_inv (run_ops (authority_exec mac) xs a)"
  by (rule run_ops_invariant) (auto intro: authority_exec_inv)

lemma claimable_live:
  assumes "authority_inv a" and "require_claimable_locked now g rq a = (r, a')" and "\<not> grant_live a gid"
  shows "\<not> grant_live a' gid"
  using claimable_state [OF assms(2)] assms(1,3)
  by (auto simp: grant_live_def authority_inv_def prune_outstanding)

lemma issue_live:
  assumes inv: "authority_inv a" and run: "issue mac now uuid repo q a = (r, a')"
    and dead: "\<not> grant_live a gid" and other: "gid \<noteq> ''grant-'' @ uuid"
  shows "\<not> grant_live a' gid"
proof (cases "may_issue repo q a")
  case True
  obtain x b where c: "create_for mac now uuid q a = (x, b)" by fastforce
  with run issue_allowed [OF True, of mac now uuid] have "a' = b"
    by (auto simp: and_then_def split: sum.splits)
  with c inv dead other show ?thesis
    by (auto simp: create_for_def create_grant_def new_grant_def Let_def grant_live_def prune_outstanding authority_inv_def split: if_splits)
next
  case False
  with run dead issue_refused [OF False, of mac now uuid] show ?thesis by auto
qed

interpretation grants: single_use grant_live "authority_exec mac" mints_grant authority_inv
  for mac
proof
  fix a x gid a'
  assume inv: "authority_inv a"
  show "grant_live a gid" and "\<not> grant_live a' gid" if "authority_exec mac x a = (Some gid, a')"
  proof -
    from that obtain now g rq where x: "x = OpClaim now (Presented g) rq" and gid: "gid = gr_grant_id g"
      and run: "claim_grant mac now (Presented g) rq a = (Inr (), a')"
      by (cases x) (auto split: prod.splits elim!: claimed_id.elims)
    then obtain a1 where v: "verify_authenticity mac a (Presented g) = Inr g"
      and c: "require_claimable_locked now g rq a = (Inr (), a1)"
      and a': "a' = a1\<lparr>au_outstanding := ddel (gr_grant_id g) (au_outstanding a1)\<rparr>"
      by (auto simp: claim_iff verify_authenticity_def split: if_splits)
    show "grant_live a gid"
      using c inv by (auto simp: claimable_iff gid grant_live_def authority_inv_def prune_outstanding_Some)
    show "\<not> grant_live a' gid"
      by (simp add: a' gid grant_live_def)
  qed
  show "\<not> grant_live (snd (authority_exec mac x a)) gid" if dead: "\<not> grant_live a gid" and "\<not> mints_grant x gid"
  proof (cases x)
    case (OpClaim now p rq)
    obtain r a1 where run: "claim_grant mac now p rq a = (r, a1)" by fastforce
    then show ?thesis
      using claimable_live [OF inv _ dead] dead OpClaim
      by (auto simp: claim_grant_def grant_live_def split: sum.splits prod.splits)
  next
    case (OpVerify now p rq)
    then show ?thesis
      using claimable_live [OF inv _ dead, of now _ rq] dead
      by (auto simp: verify_grant_def prod_eq_iff split: sum.splits)
  next
    case (OpIssue now uuid repo q)
    then show ?thesis
      using issue_live [OF inv _ dead, of mac now uuid repo q] that by (auto simp: prod_eq_iff)
  next
    case (OpSuspend aid plane)
    then show ?thesis
      using dead inv by (auto simp: grant_live_def authority_inv_def suspend_outstanding)
  qed (use dead in \<open>auto simp: grant_live_def consume_grant_def\<close>)
  show "authority_inv (snd (authority_exec mac x a))"
    using inv by (rule authority_exec_inv)
qed

subsection \<open>Facts the properties rest on\<close>

lemma authentic_iff:
  "verify_authenticity mac a p = Inr g \<longleftrightarrow>
     p = Presented g \<and> gr_authority_id g = au_authority_id a
     \<and> gr_signature g = sign mac (gr_grant_id g) (gr_authority_id g) (gr_binding g) (gr_issued_at g)
         (gr_expires_at g) (gr_agent_id g) (gr_session_id g) (gr_capability_profile_id g) (gr_capability_digest g)"
  by (auto simp: verify_authenticity_def split: presented.splits if_splits)

lemma issued_grant:
  assumes "issue mac now uuid repo q a = (Inr (Some g), a')"
  shows "may_issue repo q a"
    and "g = new_grant mac now uuid (iq_binding q) (iq_agent_id q) (iq_session_id q)
               (iq_capability_profile_id q) (iq_capability_digest q) a"
    and "dget (au_outstanding a') (gr_grant_id g) =
           Some \<lparr>og_expires_at = gr_expires_at g, og_agent_id = iq_agent_id q, og_session_id = iq_session_id q\<rparr>"
    and "au_authority_id a' = au_authority_id a"
proof -
  show m: "may_issue repo q a"
    using issue_refused [of repo q a mac now uuid] assms by auto
  have "and_then (create_for mac now uuid q) (\<lambda>g. ok (Some g)) a = (Inr (Some g), a')"
    using issue_allowed [OF m, of mac now uuid] assms by simp
  then have c: "create_for mac now uuid q a = (Inr g, a')"
    by (auto simp: and_then_returns)
  have cong: "new_grant mac now uuid b i j k l (prune now a) = new_grant mac now uuid b i j k l a" for b i j k l
    by (simp add: new_grant_def)
  show "g = new_grant mac now uuid (iq_binding q) (iq_agent_id q) (iq_session_id q)
               (iq_capability_profile_id q) (iq_capability_digest q) a"
    and "dget (au_outstanding a') (gr_grant_id g) =
           Some \<lparr>og_expires_at = gr_expires_at g, og_agent_id = iq_agent_id q, og_session_id = iq_session_id q\<rparr>"
    and "au_authority_id a' = au_authority_id a"
    using c by (auto simp: create_for_def create_grant_def Let_def cong split: if_splits)
qed

lemma claimable_closed [simp]:
  "au_issuance_closed (snd (require_claimable_locked now g rq a)) = au_issuance_closed a"
  using claimable_state [of now g rq a, OF prod.collapse [symmetric]] by auto

lemma exec_closed_planes:
  "issuance_closed_planes (snd (authority_exec mac x a)) aid =
     (case x of
        OpSuspend k p \<Rightarrow> if k = aid then insert p (issuance_closed_planes a aid) else issuance_closed_planes a aid
      | OpResume k p \<Rightarrow> if k = aid then issuance_closed_planes a aid - {p} else issuance_closed_planes a aid
      | _ \<Rightarrow> issuance_closed_planes a aid)"
proof (cases x)
  case (OpIssue now uuid repo q)
  have "au_issuance_closed (snd (issue mac now uuid repo q a)) = au_issuance_closed a"
  proof (cases "may_issue repo q a")
    case True
    then show ?thesis
      by (auto simp: issue_allowed and_then_def create_for_def create_grant_def Let_def)
  next
    case False
    then show ?thesis using issue_refused [OF False, of mac now uuid] by auto
  qed
  with OpIssue show ?thesis by (simp add: issuance_closed_planes_def)
next
  case (OpVerify now p rq)
  then show ?thesis
    by (auto simp: verify_grant_def issuance_closed_planes_def split: sum.splits)
next
  case (OpClaim now p rq)
  then show ?thesis
    by (auto simp: claim_grant_def issuance_closed_planes_def split: sum.splits prod.splits)
       (metis claimable_closed snd_conv)+
next
  case (OpConsume g)
  then show ?thesis by (auto simp: consume_grant_def issuance_closed_planes_def)
qed (simp_all add: suspend_closed resume_closed)

lemma closed_plane_persists:
  assumes "plane \<in> issuance_closed_planes a aid" and "OpResume aid plane \<notin> set xs"
  shows "plane \<in> issuance_closed_planes (run_ops (authority_exec mac) xs a) aid"
  using assms
proof (induction xs arbitrary: a)
  case (Cons x xs)
  then have "plane \<in> issuance_closed_planes (snd (authority_exec mac x a)) aid"
    by (auto simp: exec_closed_planes split: authority_op.splits)
  with Cons show ?case by simp
qed simp

subsection \<open>Concrete inputs\<close>

text \<open>
  A concrete injective payload encoding, at which the hypotheses on the MAC hold, and an authority
  that has issued one grant for agent \<open>a\<close>.
\<close>

definition ex_int :: "int \<Rightarrow> string" where
  "ex_int i = (if i < 0 then ''-'' @ replicate (nat (- i)) CHR ''I'' else replicate (nat i) CHR ''I'')"

definition ex_mac :: mac where
  "ex_mac p =
     json_string (sp_agent_id p) @ json_string (sp_authority_id p) @ json_string (sp_binding p) @
     json_string (ex_int (sp_expires_at p)) @ json_string (sp_grant_id p) @
     json_string (ex_int (sp_issued_at p)) @ json_string (sp_session_id p) @
     json_or_null (sp_capability_profile_id p) @ json_or_null (sp_capability_digest p)"

lemma ex_int_inj [simp]: "ex_int i = ex_int j \<longleftrightarrow> i = j"
proof
  assume eq: "ex_int i = ex_int j"
  have "length (ex_int k) = (if k < 0 then Suc (nat (- k)) else nat k)" for k
    by (simp add: ex_int_def)
  moreover have "(take 1 (ex_int k) = ''-'') = (k < 0)" for k
    by (cases "nat k") (auto simp: ex_int_def)
  ultimately show "i = j" using eq
    by (metis Suc_inject int_nat_eq linorder_not_less minus_equation_iff nat_eq_iff2 neg_0_less_iff_less not_less_iff_gr_or_eq)
qed simp

lemma ex_mac_inj: "inj ex_mac"
proof (rule injI)
  fix p q assume "ex_mac p = ex_mac q"
  then show "p = q"
    using json_or_null_prefix [of "sp_capability_profile_id p" _ "sp_capability_profile_id q"]
      json_or_null_prefix [of "sp_capability_digest p" "[]" "sp_capability_digest q" "[]"]
    by (auto simp: ex_mac_def json_string_prefix)
qed

definition ex_binding :: binding where
  "ex_binding = \<lparr>b_tool_id = ''file_read'', b_tool_version = ''1.0'', b_resource = Some ''/a'',
     b_parameters = [(''path'', ''/a'')]\<rparr>"

definition ex_request :: issue_request where
  "ex_request = \<lparr>iq_binding = ex_binding, iq_decision = ALLOW, iq_agent_id = ''a'', iq_session_id = ''s'',
     iq_expected_epoch = None, iq_capability_profile_id = None, iq_capability_digest = None\<rparr>"

definition ex_authority :: authority where
  "ex_authority = \<lparr>au_authority_id = ''authority-1'', au_ttl = 20, au_outstanding = [],
     au_revoked = [], au_issuance_closed = []\<rparr>"

definition ex_issued :: "grant option res \<times> authority" where
  "ex_issued = issue ex_mac 5 ''g'' None ex_request ex_authority"

definition ex_grant :: grant where
  "ex_grant = new_grant ex_mac 5 ''g'' ex_binding ''a'' ''s'' None None ex_authority"

lemma ex_new: "new_authority ''1'' 20 = Inr ex_authority"
  by (simp add: new_authority_def ex_authority_def max_grant_ttl_def)

lemma ex_inv: "authority_inv ex_authority"
  by (rule new_authority_inv [OF ex_new])

lemma ex_issued_eq: "issue ex_mac 5 ''g'' None ex_request ex_authority = (Inr (Some ex_grant), snd ex_issued)"
  by code_simp

subsection \<open>Properties of the execution authority\<close>

text \<open>
  (C11) A grant is good for one execution: from a new authority, after any history, in any sequence of
  issue, verify, claim, consume, suspend and resume operations in which its identifier is not
  minted again, at most one claim of it succeeds.
\<close>

theorem grant_claimed_at_most_once:
  assumes "new_authority uuid ttl = Inr a0"
    and "\<forall>x\<in>set xs. \<not> mints_grant x gid"
  shows "length (filter (\<lambda>(x, r). r = Some gid)
           (results (authority_exec mac) xs (run_ops (authority_exec mac) before a0))) \<le> 1"
  by (rule grants.at_most_one_claim [OF authority_runs_inv [OF new_authority_inv [OF assms(1)]] assms(2)])

theorem grant_claimed_at_most_once_witness:
  "map snd (results (authority_exec ex_mac)
      [OpClaim 6 (Presented ex_grant) ex_binding, OpClaim 7 (Presented ex_grant) ex_binding] (snd ex_issued))
     = [Some ''grant-g'', None]
   \<and> length (filter (\<lambda>(x, r). r = Some ''grant-g'') (results (authority_exec ex_mac)
      [OpClaim 6 (Presented ex_grant) ex_binding, OpClaim 7 (Presented ex_grant) ex_binding]
      (run_ops (authority_exec ex_mac) [OpIssue 5 ''g'' None ex_request] ex_authority))) \<le> 1"
proof
  show "map snd (results (authority_exec ex_mac)
      [OpClaim 6 (Presented ex_grant) ex_binding, OpClaim 7 (Presented ex_grant) ex_binding] (snd ex_issued))
     = [Some ''grant-g'', None]" by code_simp
  show "length (filter (\<lambda>(x, r). r = Some ''grant-g'') (results (authority_exec ex_mac)
      [OpClaim 6 (Presented ex_grant) ex_binding, OpClaim 7 (Presented ex_grant) ex_binding]
      (run_ops (authority_exec ex_mac) [OpIssue 5 ''g'' None ex_request] ex_authority))) \<le> 1"
    by (rule grant_claimed_at_most_once [OF ex_new]) simp
qed

text \<open>
  (C13) Containment revokes at once and for good: once issuance is suspended for an agent, on either
  plane, no grant that was outstanding for it is ever claimed, whatever follows, reopening of
  issuance included.
\<close>

theorem suspension_revokes_outstanding:
  assumes "new_authority uuid ttl = Inr a0" and "a = run_ops (authority_exec mac) before a0"
    and "dget (au_outstanding a) gid = Some og" and "\<forall>x\<in>set xs. \<not> mints_grant x gid"
  shows "filter (\<lambda>(x, r). r = Some gid)
           (results (authority_exec mac) xs (snd (suspend_issuance (og_agent_id og) plane a))) = []"
proof -
  have inv: "authority_inv a"
    using authority_runs_inv [OF new_authority_inv [OF assms(1)]] assms(2) by simp
  have "\<not> grant_live (snd (suspend_issuance (og_agent_id og) plane a)) gid"
    using inv assms(3) by (simp add: grant_live_def authority_inv_def suspend_outstanding)
  from grants.dead_never_claimed [OF suspend_inv [OF inv] this assms(4)] show ?thesis .
qed

theorem suspension_revokes_outstanding_witness:
  "filter (\<lambda>(x, r). r = Some ''grant-g'') (results (authority_exec ex_mac)
     [OpResume ''a'' PLANE_ENFORCEMENT, OpClaim 6 (Presented ex_grant) ex_binding]
     (snd (suspend_issuance ''a'' PLANE_ENFORCEMENT
        (run_ops (authority_exec ex_mac) [OpIssue 5 ''g'' None ex_request] ex_authority)))) = []"
proof -
  let ?og = "\<lparr>og_expires_at = 25, og_agent_id = ''a'', og_session_id = ''s''\<rparr>"
  have "dget (au_outstanding (run_ops (authority_exec ex_mac) [OpIssue 5 ''g'' None ex_request] ex_authority))
      ''grant-g'' = Some ?og" by code_simp
  from suspension_revokes_outstanding [OF ex_new refl this,
      of "[OpResume ''a'' PLANE_ENFORCEMENT, OpClaim 6 (Presented ex_grant) ex_binding]" PLANE_ENFORCEMENT]
  show ?thesis by simp
qed

text \<open>
  (C16) Neither plane can reopen what the other has closed: while one plane's closure of an agent has
  not itself been resumed, whatever else happens the closure stands, the agent has no
  outstanding grant, and no request of it is issued one.
\<close>

theorem closed_plane_blocks_issuance:
  assumes "new_authority uuid ttl = Inr a0"
    and "plane \<in> issuance_closed_planes (run_ops (authority_exec mac) before a0) aid"
    and "OpResume aid plane \<notin> set xs"
  shows "let a = run_ops (authority_exec mac) (before @ xs) a0
         in plane \<in> issuance_closed_planes a aid
            \<and> (\<forall>gid og. dget (au_outstanding a) gid = Some og \<longrightarrow> og_agent_id og \<noteq> aid)
            \<and> (\<forall>now u repo q. iq_agent_id q = aid \<longrightarrow>
                 (\<forall>g. fst (issue mac now u repo q a) \<noteq> Inr (Some g)) \<and> snd (issue mac now u repo q a) = a)"
proof -
  let ?a = "run_ops (authority_exec mac) (before @ xs) a0"
  have closed: "plane \<in> issuance_closed_planes ?a aid"
    using closed_plane_persists [OF assms(2,3)] by (simp add: run_ops_append)
  have inv: "authority_inv ?a"
    by (rule authority_runs_inv [OF new_authority_inv [OF assms(1)]])
  have "\<not> may_issue repo q ?a" if "iq_agent_id q = aid" for repo q
    using closed that by (auto simp: may_issue_def issuance_suspended_def)
  then have "(\<forall>g. fst (issue mac now u repo q ?a) \<noteq> Inr (Some g)) \<and> snd (issue mac now u repo q ?a) = ?a"
    if "iq_agent_id q = aid" for now u repo q
    using issue_refused [of repo q ?a mac now u] that by auto
  moreover have "og_agent_id og \<noteq> aid" if "dget (au_outstanding ?a) gid = Some og" for gid og
    using inv closed that by (auto simp: authority_inv_def issuance_suspended_def)
  ultimately show ?thesis
    using closed unfolding Let_def by blast
qed

theorem closed_plane_blocks_issuance_witness:
  "PLANE_ADMINISTRATIVE \<in> issuance_closed_planes (run_ops (authority_exec ex_mac)
     ([OpSuspend ''a'' PLANE_ADMINISTRATIVE, OpSuspend ''a'' PLANE_ENFORCEMENT] @
      [OpResume ''a'' PLANE_ENFORCEMENT]) ex_authority) ''a''"
proof -
  have "PLANE_ADMINISTRATIVE \<in> issuance_closed_planes (run_ops (authority_exec ex_mac)
     [OpSuspend ''a'' PLANE_ADMINISTRATIVE, OpSuspend ''a'' PLANE_ENFORCEMENT] ex_authority) ''a''"
    by code_simp
  from closed_plane_blocks_issuance [OF ex_new this, of "[OpResume ''a'' PLANE_ENFORCEMENT]"]
  show ?thesis unfolding Let_def by simp
qed

text \<open>
  (C17) A claim succeeds exactly when the object presented is a grant of this authority whose signature
  verifies, that has not expired, is not revoked, is outstanding for the identity it names, and
  whose binding is the operation requested; it then removes that grant and nothing else that is
  still valid.
\<close>

theorem claim_succeeds_iff:
  "claim_grant mac now p requested a = (Inr (), a') \<longleftrightarrow>
     (\<exists>g og. p = Presented g \<and> gr_authority_id g = au_authority_id a
        \<and> gr_signature g = sign mac (gr_grant_id g) (gr_authority_id g) (gr_binding g) (gr_issued_at g)
            (gr_expires_at g) (gr_agent_id g) (gr_session_id g)
            (gr_capability_profile_id g) (gr_capability_digest g)
        \<and> now < gr_expires_at g
        \<and> dget (au_revoked (prune now a)) (gr_grant_id g) = None
        \<and> dget (au_outstanding (prune now a)) (gr_grant_id g) = Some og
        \<and> og_agent_id og = gr_agent_id g \<and> og_session_id og = gr_session_id g
        \<and> requested = gr_binding g
        \<and> a' = (prune now a)\<lparr>au_outstanding := ddel (gr_grant_id g) (au_outstanding (prune now a))\<rparr>)"
  by (auto simp: claim_iff authentic_iff claimable_iff)

text \<open>
  What executes is what was authorized, and soon: whoever claims an issued grant, in whatever
  later state of the authority, asks for exactly the operation of an ALLOW decision, within
  thirty seconds of its issue.
\<close>

theorem issued_grant_bounds_execution:
  assumes "authority_inv a" and "issue mac t0 uuid repo q a = (Inr (Some g), a1)"
    and "claim_grant mac now (Presented g) requested a2 = (Inr (), a3)"
  shows "iq_decision q = ALLOW \<and> requested = iq_binding q \<and> gr_agent_id g = iq_agent_id q
    \<and> gr_session_id g = iq_session_id q \<and> now < t0 + 30 * 1000000"
proof -
  note i = issued_grant [OF assms(2)]
  have "gr_expires_at g \<le> t0 + max_grant_ttl"
    using assms(1) by (simp add: i(2) new_grant_def Let_def authority_inv_def)
  moreover have "requested = gr_binding g \<and> now < gr_expires_at g"
    using assms(3) by (auto simp: claim_iff authentic_iff claimable_iff)
  ultimately show ?thesis
    using i(1) by (simp add: i(2) new_grant_def Let_def may_issue_def max_grant_ttl_def)
qed

theorem issued_grant_bounds_execution_witness:
  "claim_grant ex_mac 6 (Presented ex_grant) ex_binding (snd ex_issued)
     = (Inr (), snd (claim_grant ex_mac 6 (Presented ex_grant) ex_binding (snd ex_issued)))
   \<and> iq_decision ex_request = ALLOW \<and> (6 :: int) < 5 + 30 * 1000000"
proof -
  have c: "claim_grant ex_mac 6 (Presented ex_grant) ex_binding (snd ex_issued)
     = (Inr (), snd (claim_grant ex_mac 6 (Presented ex_grant) ex_binding (snd ex_issued)))" by code_simp
  from issued_grant_bounds_execution [OF ex_inv ex_issued_eq c] c show ?thesis by blast
qed

text \<open>
  A refused claim never consumes a grant: every unexpired outstanding grant,
  the one presented included, is outstanding afterwards exactly as before.
\<close>

theorem refused_claim_keeps_grants:
  assumes "authority_inv a" and "claim_grant mac now p requested a = (Inl e, a')"
    and "dget (au_outstanding a) gid = Some og" and "now < og_expires_at og"
    and "\<And>g. p = Presented g \<Longrightarrow> gr_grant_id g = gid \<Longrightarrow> now < gr_expires_at g"
  shows "dget (au_outstanding a') gid = Some og"
proof -
  have d: "distinct (dkeys (au_outstanding a))" using assms(1) by (simp add: authority_inv_def)
  have keep: "dget (au_outstanding (prune now a)) gid = Some og"
    using assms(3,4) by (simp add: prune_outstanding_Some [OF d])
  from claim_refused_state [OF assms(2)] show ?thesis
  proof (elim disjE exE conjE)
    fix g
    assume p: "p = Presented g" and c: "require_claimable_locked now g requested a = (Inl e, a')"
    from claimable_state [OF c] show ?thesis
      using keep assms(5) [OF p] by (auto simp: not_le)
  qed (use assms(3) in simp)
qed

theorem refused_claim_keeps_grants_witness:
  "dget (au_outstanding (snd (claim_grant ex_mac 6 (Presented ex_grant)
      (ex_binding\<lparr>b_resource := Some ''/etc''\<rparr>) (snd ex_issued)))) ''grant-g''
     = Some \<lparr>og_expires_at = 25, og_agent_id = ''a'', og_session_id = ''s''\<rparr>"
proof -
  have c: "claim_grant ex_mac 6 (Presented ex_grant) (ex_binding\<lparr>b_resource := Some ''/etc''\<rparr>) (snd ex_issued)
     = (Inl (ExecutionBindingError RESOURCE_MISMATCH), snd (claim_grant ex_mac 6 (Presented ex_grant)
          (ex_binding\<lparr>b_resource := Some ''/etc''\<rparr>) (snd ex_issued)))"
    and o: "dget (au_outstanding (snd ex_issued)) ''grant-g''
     = Some \<lparr>og_expires_at = 25, og_agent_id = ''a'', og_session_id = ''s''\<rparr>"
    and e: "gr_expires_at ex_grant = 25"
    by code_simp+
  have inv: "authority_inv (snd ex_issued)" by (rule issue_inv [OF ex_inv ex_issued_eq])
  show ?thesis
    by (rule refused_claim_keeps_grants [OF inv c o]) (use e in auto)
qed

text \<open>
  Grants are tamper-evident: when the MAC has no collisions, an object that carries the
  signature of an issued grant passes the authenticity check only if every field of it
  (binding, identity, expiry, capability) is the issued one.
\<close>

theorem grant_tamper_evident:
  assumes "inj mac" and "issue mac now uuid repo q a = (Inr (Some g0), a1)"
    and "gr_signature g = gr_signature g0" and "verify_authenticity mac a2 (Presented g) = Inr x"
  shows "g = g0"
proof -
  have "sign mac (gr_grant_id g) (gr_authority_id g) (gr_binding g) (gr_issued_at g) (gr_expires_at g)
      (gr_agent_id g) (gr_session_id g) (gr_capability_profile_id g) (gr_capability_digest g)
    = sign mac (gr_grant_id g0) (gr_authority_id g0) (gr_binding g0) (gr_issued_at g0) (gr_expires_at g0)
      (gr_agent_id g0) (gr_session_id g0) (gr_capability_profile_id g0) (gr_capability_digest g0)"
    using assms(3,4) by (auto simp: authentic_iff issued_grant(2) [OF assms(2)] new_grant_def Let_def)
  with assms(1,3) show ?thesis
    by (auto simp: sign_def dest!: injD canonical_json_inj)
qed

theorem grant_tamper_evident_witness:
  "\<nexists>x. verify_authenticity ex_mac (snd ex_issued) (Presented (ex_grant\<lparr>gr_agent_id := ''b''\<rparr>)) = Inr x"
proof
  assume "\<exists>x. verify_authenticity ex_mac (snd ex_issued) (Presented (ex_grant\<lparr>gr_agent_id := ''b''\<rparr>)) = Inr x"
  then obtain x where "verify_authenticity ex_mac (snd ex_issued) (Presented (ex_grant\<lparr>gr_agent_id := ''b''\<rparr>)) = Inr x" ..
  with grant_tamper_evident [OF ex_mac_inj ex_issued_eq _ this] have "ex_grant\<lparr>gr_agent_id := ''b''\<rparr> = ex_grant" by simp
  then have "gr_agent_id (ex_grant\<lparr>gr_agent_id := ''b''\<rparr>) = gr_agent_id ex_grant" by simp
  then show False by (simp add: ex_grant_def new_grant_def Let_def)
qed

end
