(* ===== verification/Sessions.thy ===== *)
theory Sessions
  imports Finding_Model
begin

section \<open>Sessions, ownership and the detection horizon\<close>

text \<open>
  \<^verbatim>\<open>app/models/session.py\<close>, \<^verbatim>\<open>app/models/session_event.py\<close>,
  \<^verbatim>\<open>app/models/detection_retention.py\<close>, the in-memory repository
  \<^verbatim>\<open>app/repositories/in_memory/session_repository.py\<close> and the service over it,
  \<^verbatim>\<open>app/services/session_service.py\<close>. The retention policy the service is constructed with is an
  argument of the operations that consult it.
\<close>

subsection \<open>Data\<close>

datatype terminal_reason = EXPLICIT_END | IDLE_TIMEOUT

record tombstone =
  tb_session_id :: string
  tb_agent_id :: string
  tb_terminated_at :: instant
  tb_terminal_reason :: terminal_reason

record session =
  ss_session_id :: string
  ss_agent_id :: string
  ss_started_at :: instant
  ss_last_activity_at :: instant

record session_event =
  se_session_id :: string
  se_agent_id :: string
  se_tool_id :: string
  se_tool_version :: "string option"
  se_decision :: decision
  se_sequence_number :: nat
  se_agent_sequence :: nat
  se_final_decision :: "decision option"
  se_timestamp :: instant

datatype aggregation_scope = SCOPE_SESSION | SCOPE_AGENT

record horizon_query =
  hq_agent_id :: string
  hq_scope :: aggregation_scope
  hq_session_id :: "string option"
  hq_window :: duration
  hq_evaluation_time :: instant
  hq_baseline_agent_sequence :: nat

definition validate_scope_parameters :: "horizon_query \<Rightarrow> horizon_query res" where
  "validate_scope_parameters q =
     (if hq_window q \<le> 0 then Inl ValueError
      else case hq_scope q of
             SCOPE_SESSION \<Rightarrow>
               (case hq_session_id q of None \<Rightarrow> Inl ValueError | Some s \<Rightarrow> if s = [] then Inl ValueError else Inr q)
           | SCOPE_AGENT \<Rightarrow> (if hq_session_id q \<noteq> None then Inl ValueError else Inr q))"

record retention_policy =
  rp_window :: duration
  rp_grace :: duration

definition total_retention :: "retention_policy \<Rightarrow> duration" where
  "total_retention p = rp_window p + rp_grace p"

subsection \<open>The repository\<close>

record session_repo =
  sr_sessions :: "(string, session) dict"
  sr_tombstones :: "(string, tombstone) dict"
  sr_events :: "session_event list"
  sr_session_sequences :: "(string, nat) dict"
  sr_agent_sequences :: "(string, nat) dict"

definition empty_session_repo :: session_repo where
  "empty_session_repo = \<lparr>sr_sessions = [], sr_tombstones = [], sr_events = [],
     sr_session_sequences = [], sr_agent_sequences = []\<rparr>"

definition repo_save_session :: "session \<Rightarrow> session_repo \<Rightarrow> session_repo" where
  "repo_save_session s r = r\<lparr>sr_sessions := dset (ss_session_id s) s (sr_sessions r)\<rparr>"

definition repo_create_session :: "session \<Rightarrow> (session_repo, session) eff" where
  "repo_create_session s r =
     (if dget (sr_tombstones r) (ss_session_id s) \<noteq> None then (Inl SessionTerminalError, r)
      else if dget (sr_sessions r) (ss_session_id s) \<noteq> None then (Inl SessionAlreadyExistsError, r)
      else (Inr s, r\<lparr>sr_sessions := dset (ss_session_id s) s (sr_sessions r)\<rparr>))"

definition bind_or_create_session :: "string \<Rightarrow> string \<Rightarrow> instant \<Rightarrow> (session_repo, session) eff" where
  "bind_or_create_session sid aid now r =
     (if dget (sr_tombstones r) sid \<noteq> None then (Inl SessionTerminalError, r)
      else case dget (sr_sessions r) sid of
             None \<Rightarrow>
               let s = \<lparr>ss_session_id = sid, ss_agent_id = aid, ss_started_at = now, ss_last_activity_at = now\<rparr>
               in (Inr s, r\<lparr>sr_sessions := dset sid s (sr_sessions r)\<rparr>)
           | Some existing \<Rightarrow>
               if ss_agent_id existing \<noteq> aid then (Inl SessionBindingError, r)
               else let s = existing\<lparr>ss_last_activity_at := now\<rparr>
                    in (Inr s, r\<lparr>sr_sessions := dset sid s (sr_sessions r)\<rparr>))"

definition terminalize_session :: "string \<Rightarrow> tombstone \<Rightarrow> session_repo \<Rightarrow> bool \<times> session_repo" where
  "terminalize_session sid t r =
     (if dget (sr_sessions r) sid = None then (False, r)
      else if dget (sr_tombstones r) sid \<noteq> None then (False, r)
      else (True, r\<lparr>sr_sessions := ddel sid (sr_sessions r), sr_tombstones := dset sid t (sr_tombstones r)\<rparr>))"

definition repo_record_event :: "session_event \<Rightarrow> (session_repo, session_event) eff" where
  "repo_record_event e r =
     (if dget (sr_tombstones r) (se_session_id e) \<noteq> None then (Inl SessionTerminalError, r)
      else case dget (sr_sessions r) (se_session_id e) of
             None \<Rightarrow> (Inl SessionNotFoundError, r)
           | Some active \<Rightarrow>
               if ss_agent_id active \<noteq> se_agent_id e then (Inl SessionBindingError, r)
               else if se_sequence_number e \<noteq> 0 then (Inl ValueError, r)
               else if se_agent_sequence e \<noteq> 0 then (Inl ValueError, r)
               else let next_seq = get_or (sr_session_sequences r) (se_session_id e) 0 + 1;
                        next_agent_seq = get_or (sr_agent_sequences r) (se_agent_id e) 0 + 1;
                        persisted = e\<lparr>se_sequence_number := next_seq, se_agent_sequence := next_agent_seq\<rparr>
                    in (Inr persisted,
                        r\<lparr>sr_session_sequences := dset (se_session_id e) next_seq (sr_session_sequences r),
                          sr_agent_sequences := dset (se_agent_id e) next_agent_seq (sr_agent_sequences r),
                          sr_sessions := dset (se_session_id e) (active\<lparr>ss_last_activity_at := se_timestamp e\<rparr>)
                                           (sr_sessions r),
                          sr_events := sr_events r @ [persisted]\<rparr>))"

definition horizon_match :: "horizon_query \<Rightarrow> session_event \<Rightarrow> bool" where
  "horizon_match q e \<longleftrightarrow>
     se_agent_id e = hq_agent_id q
     \<and> \<not> (hq_scope q = SCOPE_SESSION \<and> Some (se_session_id e) \<noteq> hq_session_id q)
     \<and> \<not> se_agent_sequence e \<le> hq_baseline_agent_sequence q
     \<and> \<not> (se_timestamp e < hq_evaluation_time q - hq_window q \<or> se_timestamp e > hq_evaluation_time q)"

definition list_eligible_events :: "horizon_query \<Rightarrow> session_repo \<Rightarrow> session_event list" where
  "list_eligible_events q r =
     (let matching = filter (horizon_match q) (sr_events r)
      in if hq_scope q = SCOPE_AGENT then sort_key se_agent_sequence matching
         else sort_key se_sequence_number matching)"

definition list_events :: "string \<Rightarrow> session_repo \<Rightarrow> session_event list" where
  "list_events sid r =
     sort_key (\<lambda>e. (se_timestamp e, se_sequence_number e)) (filter (\<lambda>e. se_session_id e = sid) (sr_events r))"

definition repo_prune_events :: "instant \<Rightarrow> session_repo \<Rightarrow> nat \<times> session_repo" where
  "repo_prune_events cutoff r =
     (let kept = filter (\<lambda>e. se_timestamp e \<ge> cutoff) (sr_events r)
      in (length (sr_events r) - length kept, r\<lparr>sr_events := kept\<rparr>))"

definition current_agent_sequence :: "session_repo \<Rightarrow> string \<Rightarrow> nat" where
  "current_agent_sequence r aid = get_or (sr_agent_sequences r) aid 0"

fun finalize_first :: "string \<Rightarrow> nat \<Rightarrow> decision \<Rightarrow> session_event list \<Rightarrow> session_event list res" where
  "finalize_first sid n d [] = Inl ValueError"
| "finalize_first sid n d (e # es) =
     (if se_session_id e = sid \<and> se_sequence_number e = n then
        (if se_final_decision e \<noteq> None \<and> se_final_decision e \<noteq> Some d then Inl ValueError
         else Inr (e\<lparr>se_final_decision := Some d\<rparr> # es))
      else res_bind (finalize_first sid n d es) (\<lambda>es'. Inr (e # es')))"

definition update_event_final_decision :: "string \<Rightarrow> nat \<Rightarrow> decision \<Rightarrow> (session_repo, unit) eff" where
  "update_event_final_decision sid n d r =
     (if dget (sr_tombstones r) sid \<noteq> None then (Inl SessionTerminalError, r)
      else if dget (sr_sessions r) sid = None then (Inl SessionNotFoundError, r)
      else case finalize_first sid n d (sr_events r) of
             Inl e \<Rightarrow> (Inl e, r)
           | Inr es \<Rightarrow> (Inr (), r\<lparr>sr_events := es\<rparr>))"

subsection \<open>The service\<close>

definition get_session :: "session_repo \<Rightarrow> string \<Rightarrow> session res" where
  "get_session r sid = (case dget (sr_sessions r) sid of None \<Rightarrow> Inl SessionNotFoundError | Some s \<Rightarrow> Inr s)"

definition list_sessions :: "session_repo \<Rightarrow> session list" where
  "list_sessions r = dvals (sr_sessions r)"

definition is_terminal :: "session_repo \<Rightarrow> string \<Rightarrow> bool" where
  "is_terminal r sid \<longleftrightarrow> dget (sr_tombstones r) sid \<noteq> None"

definition end_session :: "string \<Rightarrow> string \<Rightarrow> instant \<Rightarrow> (session_repo, unit) eff" where
  "end_session sid aid now r =
     (case dget (sr_tombstones r) sid of
        Some t \<Rightarrow> if tb_agent_id t \<noteq> aid then (Inl SessionBindingError, r) else (Inr (), r)
      | None \<Rightarrow>
          (case dget (sr_sessions r) sid of
             None \<Rightarrow> (Inl SessionNotFoundError, r)
           | Some existing \<Rightarrow>
               if ss_agent_id existing \<noteq> aid then (Inl SessionBindingError, r)
               else (case terminalize_session sid
                            \<lparr>tb_session_id = sid, tb_agent_id = aid, tb_terminated_at = now,
                             tb_terminal_reason = EXPLICIT_END\<rparr> r of
                       (True, r') \<Rightarrow> (Inr (), r')
                     | (False, r') \<Rightarrow>
                         (case dget (sr_tombstones r') sid of
                            Some t \<Rightarrow> if tb_agent_id t \<noteq> aid then (Inl SessionBindingError, r') else (Inr (), r')
                          | None \<Rightarrow> (Inl SessionNotFoundError, r')))))"

fun expire_each :: "duration \<Rightarrow> instant \<Rightarrow> session list \<Rightarrow> string list \<Rightarrow> session_repo \<Rightarrow> string list \<times> session_repo" where
  "expire_each threshold now [] expired r = (expired, r)"
| "expire_each threshold now (s # ss) expired r =
     (if now - ss_last_activity_at s \<ge> threshold then
        (case terminalize_session (ss_session_id s)
                \<lparr>tb_session_id = ss_session_id s, tb_agent_id = ss_agent_id s, tb_terminated_at = now,
                 tb_terminal_reason = IDLE_TIMEOUT\<rparr> r of
           (True, r') \<Rightarrow> expire_each threshold now ss (expired @ [ss_session_id s]) r'
         | (False, r') \<Rightarrow> expire_each threshold now ss expired r')
      else expire_each threshold now ss expired r)"

definition expire_idle_sessions :: "duration \<Rightarrow> instant \<Rightarrow> (session_repo, string list) eff" where
  "expire_idle_sessions threshold now r =
     (if threshold \<le> 0 then (Inl ValueError, r)
      else let (ids, r') = expire_each threshold now (list_sessions r) [] r in (Inr ids, r'))"

definition prune_events :: "retention_policy option \<Rightarrow> instant \<Rightarrow> session_repo \<Rightarrow> nat \<times> session_repo" where
  "prune_events policy now r =
     (case policy of None \<Rightarrow> (0, r) | Some p \<Rightarrow> repo_prune_events (now - total_retention p) r)"

definition record_event :: "retention_policy option \<Rightarrow> session_event \<Rightarrow> (session_repo, session_event) eff" where
  "record_event policy e r =
     (case repo_record_event e r of
        (Inl x, r') \<Rightarrow> (Inl x, r')
      | (Inr recorded, r') \<Rightarrow> (Inr recorded, snd (prune_events policy (se_timestamp recorded) r')))"

subsection \<open>Sequences of operations\<close>

datatype session_op =
    OpCreateSession session
  | OpBind string string instant
  | OpEnd string string instant
  | OpExpireIdle duration instant
  | OpRecord session_event
  | OpPrune instant
  | OpFinalize string nat decision

text \<open>The result of an operation is the event it records, if it records one.\<close>

fun session_exec :: "retention_policy option \<Rightarrow> session_op \<Rightarrow> session_repo \<Rightarrow> session_event option \<times> session_repo" where
  "session_exec p (OpCreateSession x) r = (None, snd (repo_create_session x r))"
| "session_exec p (OpBind sid aid now) r = (None, snd (bind_or_create_session sid aid now r))"
| "session_exec p (OpEnd sid aid now) r = (None, snd (end_session sid aid now r))"
| "session_exec p (OpExpireIdle th now) r = (None, snd (expire_idle_sessions th now r))"
| "session_exec p (OpRecord e) r =
     (case record_event p e r of (Inr x, r') \<Rightarrow> (Some x, r') | (Inl y, r') \<Rightarrow> (None, r'))"
| "session_exec p (OpPrune now) r = (None, snd (prune_events p now r))"
| "session_exec p (OpFinalize sid n d) r = (None, snd (update_event_final_decision sid n d r))"

subsection \<open>What the operations leave alone\<close>

lemma prune_keeps [simp]:
  "sr_sessions (snd (prune_events p now r)) = sr_sessions r"
  "sr_tombstones (snd (prune_events p now r)) = sr_tombstones r"
  "sr_session_sequences (snd (prune_events p now r)) = sr_session_sequences r"
  "sr_agent_sequences (snd (prune_events p now r)) = sr_agent_sequences r"
  by (auto simp: prune_events_def repo_prune_events_def Let_def split: option.splits)

lemma finalize_keeps [simp]:
  "sr_sessions (snd (update_event_final_decision sid n d r)) = sr_sessions r"
  "sr_tombstones (snd (update_event_final_decision sid n d r)) = sr_tombstones r"
  "sr_session_sequences (snd (update_event_final_decision sid n d r)) = sr_session_sequences r"
  "sr_agent_sequences (snd (update_event_final_decision sid n d r)) = sr_agent_sequences r"
  by (auto simp: update_event_final_decision_def split: sum.splits)

lemma terminalize_keeps [simp]:
  "sr_events (snd (terminalize_session sid t r)) = sr_events r"
  "sr_session_sequences (snd (terminalize_session sid t r)) = sr_session_sequences r"
  "sr_agent_sequences (snd (terminalize_session sid t r)) = sr_agent_sequences r"
  by (auto simp: terminalize_session_def)

lemma expire_each_keeps [simp]:
  "sr_events (snd (expire_each th now ss xs r)) = sr_events r"
  "sr_session_sequences (snd (expire_each th now ss xs r)) = sr_session_sequences r"
  "sr_agent_sequences (snd (expire_each th now ss xs r)) = sr_agent_sequences r"
  by (induction th now ss xs r rule: expire_each.induct)
     (auto split: prod.splits bool.splits, (metis snd_conv terminalize_keeps)+)

lemma end_session_cases:
  "snd (end_session sid aid now r) = r
   \<or> (\<exists>s. dget (sr_sessions r) sid = Some s \<and> ss_agent_id s = aid \<and> dget (sr_tombstones r) sid = None
       \<and> snd (end_session sid aid now r) =
           r\<lparr>sr_sessions := ddel sid (sr_sessions r),
             sr_tombstones := dset sid \<lparr>tb_session_id = sid, tb_agent_id = aid, tb_terminated_at = now,
                                        tb_terminal_reason = EXPLICIT_END\<rparr> (sr_tombstones r)\<rparr>)"
  by (auto simp: end_session_def terminalize_session_def split: option.splits)

subsection \<open>Ownership\<close>

definition session_owner :: "session_repo \<Rightarrow> string \<Rightarrow> string option" where
  "session_owner r sid =
     (case dget (sr_sessions r) sid of
        Some s \<Rightarrow> Some (ss_agent_id s) | None \<Rightarrow> map_option tb_agent_id (dget (sr_tombstones r) sid))"

definition sessions_wf :: "session_repo \<Rightarrow> bool" where
  "sessions_wf r \<longleftrightarrow>
     distinct (dkeys (sr_sessions r))
     \<and> (\<forall>sid s. dget (sr_sessions r) sid = Some s \<longrightarrow> ss_session_id s = sid \<and> dget (sr_tombstones r) sid = None)"

text \<open>
  \<open>session_le r r'\<close>: tombstones of \<open>r\<close> are still there, and every owner of a session in
  \<open>r\<close> is its owner in \<open>r'\<close>, active or terminal.
\<close>

definition session_le :: "session_repo \<Rightarrow> session_repo \<Rightarrow> bool" where
  "session_le r r' \<longleftrightarrow>
     (\<forall>sid t. dget (sr_tombstones r) sid = Some t \<longrightarrow> dget (sr_tombstones r') sid = Some t)
     \<and> (\<forall>sid a. session_owner r sid = Some a \<longrightarrow> session_owner r' sid = Some a)"

lemma session_le_refl [simp]: "session_le r r"
  by (simp add: session_le_def)

lemma session_le_trans: "session_le r r' \<Longrightarrow> session_le r' r'' \<Longrightarrow> session_le r r''"
  by (auto simp: session_le_def)

lemma session_le_same:
  "sr_sessions r' = sr_sessions r \<Longrightarrow> sr_tombstones r' = sr_tombstones r \<Longrightarrow> session_le r r'"
  by (simp add: session_le_def session_owner_def split: option.splits)

lemma wf_same:
  "sr_sessions r' = sr_sessions r \<Longrightarrow> sr_tombstones r' = sr_tombstones r \<Longrightarrow> sessions_wf r \<Longrightarrow> sessions_wf r'"
  by (simp add: sessions_wf_def)

lemma terminalize_step:
  assumes "sessions_wf r" and "\<And>s. dget (sr_sessions r) sid = Some s \<Longrightarrow> tb_agent_id t = ss_agent_id s"
  shows "sessions_wf (snd (terminalize_session sid t r)) \<and> session_le r (snd (terminalize_session sid t r))"
  using assms
  by (auto simp: terminalize_session_def sessions_wf_def session_le_def session_owner_def split: option.splits if_splits)

lemma terminalize_subset:
  "dget (sr_sessions (snd (terminalize_session sid t r))) k = Some x \<Longrightarrow> dget (sr_sessions r) k = Some x"
  by (auto simp: terminalize_session_def split: if_splits)

lemma expire_each_step:
  assumes "sessions_wf r" and "\<forall>s\<in>set ss. \<forall>x. dget (sr_sessions r) (ss_session_id s) = Some x \<longrightarrow> ss_agent_id x = ss_agent_id s"
  shows "sessions_wf (snd (expire_each th now ss xs r)) \<and> session_le r (snd (expire_each th now ss xs r))"
  using assms
proof (induction ss arbitrary: xs r)
  case (Cons s ss)
  let ?t = "\<lparr>tb_session_id = ss_session_id s, tb_agent_id = ss_agent_id s, tb_terminated_at = now,
             tb_terminal_reason = IDLE_TIMEOUT\<rparr>"
  obtain b r' where t: "terminalize_session (ss_session_id s) ?t r = (b, r')" by fastforce
  have "tb_agent_id ?t = ss_agent_id x" if "dget (sr_sessions r) (ss_session_id s) = Some x" for x
    using Cons.prems(2) that unfolding list.set by fastforce
  from terminalize_step [of r "ss_session_id s" ?t, OF Cons.prems(1) this]
  have step: "sessions_wf r' \<and> session_le r r'" unfolding t by simp
  have known: "\<forall>s\<in>set ss. \<forall>x. dget (sr_sessions r') (ss_session_id s) = Some x \<longrightarrow> ss_agent_id x = ss_agent_id s"
    using terminalize_subset [of "ss_session_id s" ?t r] Cons.prems(2) unfolding t snd_conv list.set by blast
  note rest = Cons.IH [of r', OF step [THEN conjunct1] known]
  show ?case
  proof (cases "now - ss_last_activity_at s \<ge> th")
    case True
    with t rest step show ?thesis by (cases b) (auto intro: session_le_trans)
  next
    case False
    have "\<forall>s\<in>set ss. \<forall>x. dget (sr_sessions r) (ss_session_id s) = Some x \<longrightarrow> ss_agent_id x = ss_agent_id s"
      using Cons.prems(2) unfolding list.set by blast
    from Cons.IH [OF Cons.prems(1) this] False show ?thesis by simp
  qed
qed simp

lemma record_event_cases:
  "(\<exists>x. record_event p e r = (Inl x, r))
   \<or> (\<exists>active. dget (sr_sessions r) (se_session_id e) = Some active \<and> ss_agent_id active = se_agent_id e
        \<and> dget (sr_tombstones r) (se_session_id e) = None
        \<and> record_event p e r =
          (let n = get_or (sr_session_sequences r) (se_session_id e) 0 + 1;
               m = get_or (sr_agent_sequences r) (se_agent_id e) 0 + 1;
               x = e\<lparr>se_sequence_number := n, se_agent_sequence := m\<rparr>
           in (Inr x, snd (prune_events p (se_timestamp e)
                 (r\<lparr>sr_session_sequences := dset (se_session_id e) n (sr_session_sequences r),
                    sr_agent_sequences := dset (se_agent_id e) m (sr_agent_sequences r),
                    sr_sessions := dset (se_session_id e) (active\<lparr>ss_last_activity_at := se_timestamp e\<rparr>) (sr_sessions r),
                    sr_events := sr_events r @ [x]\<rparr>)))))"
  by (auto simp: record_event_def repo_record_event_def Let_def split: option.splits)

lemma session_exec_step:
  assumes wf: "sessions_wf r"
  shows "sessions_wf (snd (session_exec p x r)) \<and> session_le r (snd (session_exec p x r))"
proof (cases x)
  case (OpCreateSession s)
  then show ?thesis using wf
    by (auto simp: repo_create_session_def sessions_wf_def session_le_def session_owner_def split: option.splits)
next
  case (OpBind sid aid now)
  then show ?thesis using wf
    by (auto simp: bind_or_create_session_def sessions_wf_def session_le_def session_owner_def Let_def split: option.splits)
next
  case (OpEnd sid aid now)
  then show ?thesis using wf end_session_cases [of sid aid now r]
    by (auto simp: sessions_wf_def session_le_def session_owner_def split: option.splits if_splits)
next
  case (OpExpireIdle th now)
  have "\<forall>s\<in>set (list_sessions r). \<forall>x. dget (sr_sessions r) (ss_session_id s) = Some x \<longrightarrow> ss_agent_id x = ss_agent_id s"
  proof (intro ballI allI impI)
    fix s x
    assume "s \<in> set (list_sessions r)" and x: "dget (sr_sessions r) (ss_session_id s) = Some x"
    then obtain k where "dget (sr_sessions r) k = Some s"
      using wf by (auto simp: list_sessions_def sessions_wf_def map_of_eq_Some_iff)
    with wf x show "ss_agent_id x = ss_agent_id s" by (auto simp: sessions_wf_def)
  qed
  with expire_each_step [OF wf] OpExpireIdle show ?thesis
    using wf by (auto simp: expire_idle_sessions_def split: prod.splits) (metis snd_conv)+
next
  case (OpRecord e)
  then show ?thesis using wf record_event_cases [of p e r]
    by (auto simp: sessions_wf_def session_le_def session_owner_def Let_def split: option.splits if_splits)
qed (use wf in \<open>auto intro: wf_same session_le_same\<close>)

lemma session_runs:
  "sessions_wf r \<Longrightarrow> sessions_wf (run_ops (session_exec p) xs r) \<and> session_le r (run_ops (session_exec p) xs r)"
proof (induction xs arbitrary: r)
  case (Cons x xs)
  with session_exec_step [of r p x] show ?case by (auto intro: session_le_trans)
qed simp

lemma sessions_wf_empty: "sessions_wf empty_session_repo"
  by (simp add: sessions_wf_def empty_session_repo_def)

subsection \<open>Positions\<close>

definition alloc_agent_position :: "retention_policy option \<Rightarrow> session_op \<Rightarrow> session_repo \<Rightarrow> nat option \<times> session_repo" where
  "alloc_agent_position p x r = (let (e, r') = session_exec p x r in (map_option se_agent_sequence e, r'))"

definition alloc_session_position :: "retention_policy option \<Rightarrow> session_op \<Rightarrow> session_repo \<Rightarrow> nat option \<times> session_repo" where
  "alloc_session_position p x r = (let (e, r') = session_exec p x r in (map_option se_sequence_number e, r'))"

fun op_agent :: "session_op \<Rightarrow> string" where
  "op_agent (OpRecord e) = se_agent_id e"
| "op_agent _ = []"

fun op_session :: "session_op \<Rightarrow> string" where
  "op_session (OpRecord e) = se_session_id e"
| "op_session _ = []"

lemma exec_sequences:
  "session_exec p x r = (None, r') \<Longrightarrow>
     sr_agent_sequences r' = sr_agent_sequences r \<and> sr_session_sequences r' = sr_session_sequences r"
  "session_exec p x r = (Some e, r') \<Longrightarrow>
     se_agent_sequence e = Suc (get_or (sr_agent_sequences r) (op_agent x) 0)
     \<and> se_sequence_number e = Suc (get_or (sr_session_sequences r) (op_session x) 0)
     \<and> sr_agent_sequences r' = dset (op_agent x) (se_agent_sequence e) (sr_agent_sequences r)
     \<and> sr_session_sequences r' = dset (op_session x) (se_sequence_number e) (sr_session_sequences r)"
proof -
  show "sr_agent_sequences r' = sr_agent_sequences r \<and> sr_session_sequences r' = sr_session_sequences r"
    if "session_exec p x r = (None, r')"
  proof (cases x)
    case (OpRecord e)
    with that record_event_cases [of p e r] show ?thesis by (auto simp: Let_def)
  next
    case (OpEnd sid aid now)
    with that end_session_cases [of sid aid now r] show ?thesis by auto
  next
    case (OpExpireIdle th now)
    with that show ?thesis
      by (auto simp: expire_idle_sessions_def split: prod.splits if_splits) (metis expire_each_keeps snd_conv)+
  qed (use that in \<open>auto simp: repo_create_session_def bind_or_create_session_def Let_def split: option.splits\<close>)
  show "se_agent_sequence e = Suc (get_or (sr_agent_sequences r) (op_agent x) 0)
     \<and> se_sequence_number e = Suc (get_or (sr_session_sequences r) (op_session x) 0)
     \<and> sr_agent_sequences r' = dset (op_agent x) (se_agent_sequence e) (sr_agent_sequences r)
     \<and> sr_session_sequences r' = dset (op_session x) (se_sequence_number e) (sr_session_sequences r)"
    if "session_exec p x r = (Some e, r')"
  proof (cases x)
    case (OpRecord e)
    with that record_event_cases [of p e r] show ?thesis by (auto simp: Let_def)
  qed (use that in auto)
qed

interpretation agent_positions: allocator current_agent_sequence "alloc_agent_position p" op_agent
  for p
proof
  fix x r n r' k
  show "alloc_agent_position p x r = (Some n, r') \<Longrightarrow>
      n = Suc (current_agent_sequence r (op_agent x)) \<and> current_agent_sequence r' (op_agent x) = n"
    and "alloc_agent_position p x r = (Some n, r') \<Longrightarrow> k \<noteq> op_agent x \<Longrightarrow>
      current_agent_sequence r' k = current_agent_sequence r k"
    using exec_sequences(2) [of p x r]
    by (auto simp: alloc_agent_position_def current_agent_sequence_def split: prod.splits)
  show "alloc_agent_position p x r = (None, r') \<Longrightarrow> current_agent_sequence r' k = current_agent_sequence r k"
    using exec_sequences(1) [of p x r]
    by (auto simp: alloc_agent_position_def current_agent_sequence_def split: prod.splits)
qed

definition current_session_sequence :: "session_repo \<Rightarrow> string \<Rightarrow> nat" where
  "current_session_sequence r sid = get_or (sr_session_sequences r) sid 0"

interpretation session_positions: allocator current_session_sequence "alloc_session_position p" op_session
  for p
proof
  fix x r n r' k
  show "alloc_session_position p x r = (Some n, r') \<Longrightarrow>
      n = Suc (current_session_sequence r (op_session x)) \<and> current_session_sequence r' (op_session x) = n"
    and "alloc_session_position p x r = (Some n, r') \<Longrightarrow> k \<noteq> op_session x \<Longrightarrow>
      current_session_sequence r' k = current_session_sequence r k"
    using exec_sequences(2) [of p x r]
    by (auto simp: alloc_session_position_def current_session_sequence_def split: prod.splits)
  show "alloc_session_position p x r = (None, r') \<Longrightarrow> current_session_sequence r' k = current_session_sequence r k"
    using exec_sequences(1) [of p x r]
    by (auto simp: alloc_session_position_def current_session_sequence_def split: prod.splits)
qed

subsection \<open>Retained events\<close>

definition ev_before :: "session_event \<Rightarrow> session_event \<Rightarrow> bool" where
  "ev_before a b \<longleftrightarrow>
     (se_session_id a = se_session_id b \<longrightarrow> se_sequence_number a < se_sequence_number b)
     \<and> (se_agent_id a = se_agent_id b \<longrightarrow> se_agent_sequence a < se_agent_sequence b)"

text \<open>
  Retained events stand in the order of their positions, no position is above its allocator, and
  every event is attributed to the owner of its session.
\<close>

definition events_wf :: "session_repo \<Rightarrow> bool" where
  "events_wf r \<longleftrightarrow>
     sorted_wrt ev_before (sr_events r)
     \<and> (\<forall>e\<in>set (sr_events r).
          se_sequence_number e \<le> current_session_sequence r (se_session_id e)
          \<and> se_agent_sequence e \<le> current_agent_sequence r (se_agent_id e)
          \<and> session_owner r (se_session_id e) = Some (se_agent_id e))"

definition unfinal :: "session_event \<Rightarrow> session_event" where
  "unfinal e = e\<lparr>se_final_decision := None\<rparr>"

lemma unfinal_fields [simp]:
  "se_session_id (unfinal e) = se_session_id e" "se_agent_id (unfinal e) = se_agent_id e"
  "se_sequence_number (unfinal e) = se_sequence_number e" "se_agent_sequence (unfinal e) = se_agent_sequence e"
  "se_timestamp (unfinal e) = se_timestamp e" "ev_before (unfinal e) (unfinal f) = ev_before e f"
  by (simp_all add: unfinal_def ev_before_def)

lemma finalize_unfinal: "finalize_first sid n d es = Inr es' \<Longrightarrow> map unfinal es' = map unfinal es"
  by (induction es arbitrary: es') (auto simp: res_bind_Inr unfinal_def split: if_splits)

text \<open>Well-formedness depends on the events up to their final decisions only.\<close>

lemma events_wf_unfinal:
  "events_wf r \<longleftrightarrow>
     sorted_wrt ev_before (map unfinal (sr_events r))
     \<and> (\<forall>e\<in>set (map unfinal (sr_events r)).
          se_sequence_number e \<le> current_session_sequence r (se_session_id e)
          \<and> se_agent_sequence e \<le> current_agent_sequence r (se_agent_id e)
          \<and> session_owner r (se_session_id e) = Some (se_agent_id e))"
  by (simp add: events_wf_def sorted_wrt_map)

lemma events_wf_shrink:
  assumes wf: "events_wf r" and ev: "map unfinal (sr_events r') = map unfinal (filter P (sr_events r))"
    and le: "session_le r r'"
    and pos: "\<And>k. current_session_sequence r k \<le> current_session_sequence r' k"
      "\<And>k. current_agent_sequence r k \<le> current_agent_sequence r' k"
  shows "events_wf r'"
  unfolding events_wf_unfinal ev
proof
  show "sorted_wrt ev_before (map unfinal (filter P (sr_events r)))"
    using wf by (simp add: events_wf_def sorted_wrt_map sorted_wrt_filter)
  show "\<forall>e\<in>set (map unfinal (filter P (sr_events r))).
      se_sequence_number e \<le> current_session_sequence r' (se_session_id e)
      \<and> se_agent_sequence e \<le> current_agent_sequence r' (se_agent_id e)
      \<and> session_owner r' (se_session_id e) = Some (se_agent_id e)"
  proof
    fix e assume "e \<in> set (map unfinal (filter P (sr_events r)))"
    then obtain f where f: "f \<in> set (sr_events r)" "e = unfinal f" by auto
    with wf have "se_sequence_number f \<le> current_session_sequence r (se_session_id f)"
      "se_agent_sequence f \<le> current_agent_sequence r (se_agent_id f)"
      "session_owner r (se_session_id f) = Some (se_agent_id f)" by (auto simp: events_wf_def)
    with f le pos show "se_sequence_number e \<le> current_session_sequence r' (se_session_id e)
      \<and> se_agent_sequence e \<le> current_agent_sequence r' (se_agent_id e)
      \<and> session_owner r' (se_session_id e) = Some (se_agent_id e)"
      by (auto simp: session_le_def intro: order_trans)
  qed
qed

lemma prune_events_filter:
  "sr_events (snd (prune_events p now r)) =
     filter (\<lambda>e. case p of None \<Rightarrow> True | Some q \<Rightarrow> se_timestamp e \<ge> now - total_retention q) (sr_events r)"
  by (cases p) (simp_all add: prune_events_def repo_prune_events_def Let_def)

lemma sequence_frames [simp]:
  "current_session_sequence (snd (prune_events p now r)) = current_session_sequence r"
  "current_agent_sequence (snd (prune_events p now r)) = current_agent_sequence r"
  by (auto simp: current_session_sequence_def current_agent_sequence_def)

lemma events_wf_prune: "events_wf r \<Longrightarrow> events_wf (snd (prune_events p now r))"
  by (rule events_wf_shrink [of r]) (auto simp: prune_events_filter intro: session_le_same)

lemma events_wf_append:
  fixes e :: session_event
  assumes wf: "events_wf r" and own: "session_owner r (se_session_id e) = Some (se_agent_id e)"
    and x: "x = e\<lparr>se_sequence_number := Suc (current_session_sequence r (se_session_id e)),
                  se_agent_sequence := Suc (current_agent_sequence r (se_agent_id e))\<rparr>"
    and r': "sr_events r' = sr_events r @ [x]"
      "sr_session_sequences r' = dset (se_session_id e) (se_sequence_number x) (sr_session_sequences r)"
      "sr_agent_sequences r' = dset (se_agent_id e) (se_agent_sequence x) (sr_agent_sequences r)"
    and le: "session_le r r'"
  shows "events_wf r'"
proof -
  have cur: "current_session_sequence r' k = (if k = se_session_id e then se_sequence_number x else current_session_sequence r k)"
    "current_agent_sequence r' k = (if k = se_agent_id e then se_agent_sequence x else current_agent_sequence r k)" for k
    by (simp_all add: current_session_sequence_def current_agent_sequence_def r')
  have "sorted_wrt ev_before (sr_events r @ [x])"
    using wf by (auto simp: events_wf_def sorted_wrt_append ev_before_def x le_imp_less_Suc)
  moreover have "se_sequence_number f \<le> current_session_sequence r' (se_session_id f)
      \<and> se_agent_sequence f \<le> current_agent_sequence r' (se_agent_id f)
      \<and> session_owner r' (se_session_id f) = Some (se_agent_id f)" if "f \<in> set (sr_events r')" for f
    using that wf own le by (auto simp: r' cur events_wf_def session_le_def x le_Suc_eq)
  ultimately show ?thesis by (simp add: events_wf_def r'(1))
qed

lemma events_wf_exec:
  assumes swf: "sessions_wf r" and wf: "events_wf r"
  shows "events_wf (snd (session_exec p x r))"
proof -
  have le: "session_le r (snd (session_exec p x r))"
    using session_exec_step [OF swf] by blast
  have keep: ?thesis
    if "map unfinal (sr_events (snd (session_exec p x r))) = map unfinal (filter (\<lambda>_. True) (sr_events r))"
      and "fst (session_exec p x r) = None"
    using events_wf_shrink [OF wf that(1) le] exec_sequences(1) [of p x r] that(2)
    by (metis current_agent_sequence_def current_session_sequence_def order_refl prod.collapse)
  show ?thesis
  proof (cases x)
    case (OpRecord e)
    from record_event_cases [of p e r] show ?thesis
    proof (elim disjE exE conjE)
      fix active
      assume s: "dget (sr_sessions r) (se_session_id e) = Some active" "ss_agent_id active = se_agent_id e"
        and run: "record_event p e r =
          (let n = get_or (sr_session_sequences r) (se_session_id e) 0 + 1;
               m = get_or (sr_agent_sequences r) (se_agent_id e) 0 + 1;
               x = e\<lparr>se_sequence_number := n, se_agent_sequence := m\<rparr>
           in (Inr x, snd (prune_events p (se_timestamp e)
                 (r\<lparr>sr_session_sequences := dset (se_session_id e) n (sr_session_sequences r),
                    sr_agent_sequences := dset (se_agent_id e) m (sr_agent_sequences r),
                    sr_sessions := dset (se_session_id e) (active\<lparr>ss_last_activity_at := se_timestamp e\<rparr>) (sr_sessions r),
                    sr_events := sr_events r @ [x]\<rparr>))))"
      let ?n = "get_or (sr_session_sequences r) (se_session_id e) 0 + 1"
      let ?m = "get_or (sr_agent_sequences r) (se_agent_id e) 0 + 1"
      let ?x = "e\<lparr>se_sequence_number := ?n, se_agent_sequence := ?m\<rparr>"
      let ?r = "r\<lparr>sr_session_sequences := dset (se_session_id e) ?n (sr_session_sequences r),
                    sr_agent_sequences := dset (se_agent_id e) ?m (sr_agent_sequences r),
                    sr_sessions := dset (se_session_id e) (active\<lparr>ss_last_activity_at := se_timestamp e\<rparr>) (sr_sessions r),
                    sr_events := sr_events r @ [?x]\<rparr>"
      have "session_le r ?r"
        using s by (auto simp: session_le_def session_owner_def split: option.splits if_splits)
      then have "events_wf ?r"
        by (intro events_wf_append [OF wf, of e ?x])
           (use s in \<open>auto simp: session_owner_def current_session_sequence_def current_agent_sequence_def\<close>)
      then have "events_wf (snd (prune_events p (se_timestamp e) ?r))" by (rule events_wf_prune)
      then show ?thesis using run by (simp add: OpRecord Let_def)
    qed (use wf OpRecord in auto)
  next
    case (OpPrune now)
    then show ?thesis using events_wf_prune [OF wf] by simp
  next
    case (OpFinalize sid n d)
    show ?thesis
      by (rule keep) (auto simp: OpFinalize update_event_final_decision_def split: sum.splits dest: finalize_unfinal)
  next
    case (OpEnd sid aid now)
    show ?thesis by (rule keep) (use end_session_cases [of sid aid now r] in \<open>auto simp: OpEnd\<close>)
  next
    case (OpExpireIdle th now)
    show ?thesis
      by (rule keep) (auto simp: OpExpireIdle expire_idle_sessions_def split: prod.splits, metis expire_each_keeps(1) snd_conv)
  next
    case (OpCreateSession s)
    show ?thesis by (rule keep) (auto simp: OpCreateSession repo_create_session_def)
  next
    case (OpBind sid aid now)
    show ?thesis by (rule keep) (auto simp: OpBind bind_or_create_session_def Let_def split: option.splits)
  qed
qed

lemma runs_wf_events:
  "sessions_wf r \<Longrightarrow> events_wf r \<Longrightarrow> events_wf (run_ops (session_exec p) xs r)"
proof (induction xs arbitrary: r)
  case (Cons x xs)
  from Cons.IH [OF session_exec_step [OF Cons.prems(1), THEN conjunct1] events_wf_exec [OF Cons.prems]]
  show ?case by simp
qed simp

lemma events_wf_empty: "events_wf empty_session_repo"
  by (simp add: events_wf_def empty_session_repo_def)

subsection \<open>Idle expiry\<close>

definition idle :: "duration \<Rightarrow> instant \<Rightarrow> session \<Rightarrow> bool" where
  "idle threshold now s \<longleftrightarrow> now - ss_last_activity_at s \<ge> threshold"

lemma expire_each_exact:
  assumes "distinct (map ss_session_id ss)"
    and "\<forall>s\<in>set ss. dget (sr_sessions r) (ss_session_id s) = Some s \<and> dget (sr_tombstones r) (ss_session_id s) = None"
  shows "fst (expire_each th now ss xs r) = xs @ map ss_session_id (filter (idle th now) ss)
    \<and> (\<forall>k. dget (sr_sessions (snd (expire_each th now ss xs r))) k =
           (if k \<in> set (map ss_session_id (filter (idle th now) ss)) then None else dget (sr_sessions r) k))"
  using assms
proof (induction ss arbitrary: xs r)
  case (Cons s ss)
  show ?case
  proof (cases "idle th now s")
    case True
    let ?t = "\<lparr>tb_session_id = ss_session_id s, tb_agent_id = ss_agent_id s, tb_terminated_at = now,
               tb_terminal_reason = IDLE_TIMEOUT\<rparr>"
    define r' where "r' = r\<lparr>sr_sessions := ddel (ss_session_id s) (sr_sessions r),
                            sr_tombstones := dset (ss_session_id s) ?t (sr_tombstones r)\<rparr>"
    have t: "terminalize_session (ss_session_id s) ?t r = (True, r')"
      using Cons.prems(2) by (simp add: terminalize_session_def r'_def)
    have known: "\<forall>s\<in>set ss. dget (sr_sessions r') (ss_session_id s) = Some s \<and> dget (sr_tombstones r') (ss_session_id s) = None"
    proof
      fix x assume x: "x \<in> set ss"
      with Cons.prems(1) have "ss_session_id x \<noteq> ss_session_id s" by (metis distinct.simps(2) imageI list.simps(9) set_map)
      with x Cons.prems(2) show "dget (sr_sessions r') (ss_session_id x) = Some x \<and> dget (sr_tombstones r') (ss_session_id x) = None"
        by (simp add: r'_def)
    qed
    have eq: "expire_each th now (s # ss) xs r = expire_each th now ss (xs @ [ss_session_id s]) r'"
      using t True by (simp add: idle_def)
    have "distinct (map ss_session_id ss)" using Cons.prems(1) by simp
    from Cons.IH [OF this known, of "xs @ [ss_session_id s]"] show ?thesis
      unfolding eq using True by (simp add: r'_def)
  next
    case False
    have eq: "expire_each th now (s # ss) xs r = expire_each th now ss xs r"
      using False by (simp add: idle_def)
    have "distinct (map ss_session_id ss)"
      "\<forall>s\<in>set ss. dget (sr_sessions r) (ss_session_id s) = Some s \<and> dget (sr_tombstones r) (ss_session_id s) = None"
      using Cons.prems by simp_all
    from Cons.IH [OF this, of xs] show ?thesis
      unfolding eq using False by simp
  qed
qed simp

lemma listed_sessions:
  assumes "sessions_wf r"
  shows "distinct (map ss_session_id (list_sessions r))"
    and "\<forall>s\<in>set (list_sessions r). dget (sr_sessions r) (ss_session_id s) = Some s \<and> dget (sr_tombstones r) (ss_session_id s) = None"
proof -
  have key: "ss_session_id v = k" if "(k, v) \<in> set (sr_sessions r)" for k v
    using assms that by (simp add: sessions_wf_def map_of_eq_Some_iff)
  then have "map ss_session_id (list_sessions r) = dkeys (sr_sessions r)"
    by (auto simp: list_sessions_def)
  with assms show "distinct (map ss_session_id (list_sessions r))" by (simp add: sessions_wf_def)
  show "\<forall>s\<in>set (list_sessions r). dget (sr_sessions r) (ss_session_id s) = Some s \<and> dget (sr_tombstones r) (ss_session_id s) = None"
    using assms key by (auto simp: list_sessions_def sessions_wf_def map_of_eq_Some_iff)
qed

subsection \<open>Concrete inputs\<close>

definition ex_event :: "instant \<Rightarrow> session_event" where
  "ex_event t = \<lparr>se_session_id = ''s'', se_agent_id = ''a'', se_tool_id = ''t'', se_tool_version = None,
     se_decision = DENY, se_sequence_number = 0, se_agent_sequence = 0, se_final_decision = None, se_timestamp = t\<rparr>"

definition ex_ops :: "session_op list" where
  "ex_ops = [OpBind ''s'' ''a'' 1, OpRecord (ex_event 2), OpRecord (ex_event 5), OpEnd ''s'' ''a'' 9]"

subsection \<open>Properties of sessions\<close>

text \<open>
  (C34) Terminal is final: whatever operations follow, the tombstone of an ended or expired session is
  still there unchanged, no agent can bind or re-create the session, and no event enters it.
\<close>

theorem terminal_session_final:
  assumes "r = run_ops (session_exec p) before empty_session_repo" and "dget (sr_tombstones r) sid = Some t"
  shows "let r' = run_ops (session_exec p) xs r
         in dget (sr_tombstones r') sid = Some t
            \<and> bind_or_create_session sid aid now r' = (Inl SessionTerminalError, r')
            \<and> (\<forall>s. ss_session_id s = sid \<longrightarrow> repo_create_session s r' = (Inl SessionTerminalError, r'))
            \<and> (\<forall>e. se_session_id e = sid \<longrightarrow> record_event p e r' = (Inl SessionTerminalError, r'))"
proof -
  have "sessions_wf r" using session_runs [OF sessions_wf_empty] assms(1) by blast
  then have "dget (sr_tombstones (run_ops (session_exec p) xs r)) sid = Some t"
    using session_runs [of r p xs] assms(2) by (simp add: session_le_def)
  then show ?thesis
    by (simp add: Let_def bind_or_create_session_def repo_create_session_def record_event_def repo_record_event_def)
qed

theorem terminal_session_final_witness:
  "let r' = run_ops (session_exec None) [OpBind ''s'' ''b'' 20] (run_ops (session_exec None) ex_ops empty_session_repo)
   in bind_or_create_session ''s'' ''b'' 21 r' = (Inl SessionTerminalError, r')"
proof -
  let ?t = "\<lparr>tb_session_id = ''s'', tb_agent_id = ''a'', tb_terminated_at = 9, tb_terminal_reason = EXPLICIT_END\<rparr>"
  have "dget (sr_tombstones (run_ops (session_exec None) ex_ops empty_session_repo)) ''s'' = Some ?t"
    by code_simp
  from terminal_session_final [OF refl this, of "[OpBind ''s'' ''b'' 20]" "''b''" 21] show ?thesis
    unfolding Let_def by blast
qed

text \<open>
  A session has one owner for ever, and evidence is attributed to it: once an agent owns a
  session it is the owner in every later state, active or terminal, and every retained event of
  the session names that agent.
\<close>

theorem session_ownership_stable:
  assumes "r = run_ops (session_exec p) before empty_session_repo" and "session_owner r sid = Some a"
  shows "session_owner (run_ops (session_exec p) xs r) sid = Some a
    \<and> (\<forall>e\<in>set (sr_events (run_ops (session_exec p) xs r)). se_session_id e = sid \<longrightarrow> se_agent_id e = a)"
proof -
  have wf: "sessions_wf r" "events_wf r"
    using session_runs [OF sessions_wf_empty] runs_wf_events [OF sessions_wf_empty events_wf_empty] assms(1) by auto
  have own: "session_owner (run_ops (session_exec p) xs r) sid = Some a"
    using session_runs [OF wf(1)] assms(2) by (simp add: session_le_def)
  moreover have "events_wf (run_ops (session_exec p) xs r)" by (rule runs_wf_events [OF wf])
  ultimately show ?thesis by (auto simp: events_wf_def)
qed

theorem session_ownership_stable_witness:
  "session_owner (run_ops (session_exec None) ex_ops (run_ops (session_exec None) [OpBind ''s'' ''a'' 1] empty_session_repo)) ''s'' = Some ''a''"
proof -
  have "session_owner (run_ops (session_exec None) [OpBind ''s'' ''a'' 1] empty_session_repo) ''s'' = Some ''a''"
    by code_simp
  from session_ownership_stable [OF refl this] show ?thesis by blast
qed

text \<open>
  The per-agent positions handed out are strictly increasing over any history, and retained
  events stand in strictly increasing order of their per-session and per-agent positions, never
  above the allocators: pruning neither renumbers nor resets.
\<close>

theorem event_positions_increase:
  "sorted_wrt (<) [n. (x, Some n) \<leftarrow> results (alloc_agent_position p) xs r, op_agent x = aid]
   \<and> sorted_wrt ev_before (sr_events (run_ops (session_exec p) xs empty_session_repo))
   \<and> (\<forall>e\<in>set (sr_events (run_ops (session_exec p) xs empty_session_repo)).
        se_agent_sequence e \<le> current_agent_sequence (run_ops (session_exec p) xs empty_session_repo) (se_agent_id e))"
proof (rule conjI)
  show "sorted_wrt (<) [n. (x, Some n) \<leftarrow> results (alloc_agent_position p) xs r, op_agent x = aid]"
    by (rule agent_positions.positions_increase)
qed (use runs_wf_events [OF sessions_wf_empty events_wf_empty, of p xs] in \<open>simp add: events_wf_def\<close>)

theorem event_positions_increase_witness:
  "map se_agent_sequence (sr_events (run_ops (session_exec None) ex_ops empty_session_repo)) = [1, 2]
   \<and> sorted_wrt ev_before (sr_events (run_ops (session_exec None) ex_ops empty_session_repo))"
  by (rule conjI [OF _ event_positions_increase [THEN conjunct2, THEN conjunct1]]) code_simp

text \<open>
  (C35) Pruning never starves detection: a horizon query whose window fits the retention window returns
  the same events after an event has been recorded and old ones pruned as it would without
  pruning, even when the recorded event is ahead of the evaluation time by up to the grace.
\<close>

theorem pruning_preserves_horizon:
  assumes "hq_window q \<le> rp_window policy" and "se_timestamp e \<le> hq_evaluation_time q + rp_grace policy"
  shows "list_eligible_events q (snd (record_event (Some policy) e r))
         = list_eligible_events q (snd (record_event None e r))"
proof -
  have "horizon_match q f \<longrightarrow> se_timestamp e - total_retention policy \<le> se_timestamp f" for f
    using assms by (auto simp: horizon_match_def total_retention_def)
  then have "filter (horizon_match q) (filter (\<lambda>f. se_timestamp e - total_retention policy \<le> se_timestamp f) es)
      = filter (horizon_match q) es" for es
    by (induction es) auto
  then have "list_eligible_events q (snd (prune_events (Some policy) (se_timestamp e) x)) = list_eligible_events q x" for x
    by (simp add: list_eligible_events_def prune_events_filter)
  moreover have "se_timestamp x = se_timestamp e" if "repo_record_event e r = (Inr x, y)" for x y
    using that by (auto simp: repo_record_event_def Let_def split: option.splits if_splits)
  moreover have "prune_events None t x = (0, x)" for t x by (simp add: prune_events_def)
  ultimately show ?thesis
    by (cases "repo_record_event e r"; cases "fst (repo_record_event e r)") (simp_all add: record_event_def)
qed

theorem pruning_preserves_horizon_witness:
  "let r = run_ops (session_exec None) [OpBind ''s'' ''a'' 1, OpRecord (ex_event 2), OpRecord (ex_event 50)] empty_session_repo;
       q = \<lparr>hq_agent_id = ''a'', hq_scope = SCOPE_AGENT, hq_session_id = None, hq_window = 20,
            hq_evaluation_time = 60, hq_baseline_agent_sequence = 0\<rparr>;
       policy = \<lparr>rp_window = 20, rp_grace = 5\<rparr>
   in length (list_eligible_events q (snd (record_event (Some policy) (ex_event 60) r))) = 2
      \<and> length (sr_events (snd (record_event (Some policy) (ex_event 60) r))) = 2
      \<and> list_eligible_events q (snd (record_event (Some policy) (ex_event 60) r))
        = list_eligible_events q (snd (record_event None (ex_event 60) r))"
  unfolding Let_def
  by (intro conjI pruning_preserves_horizon) (code_simp, code_simp, simp, simp add: ex_event_def)

text \<open>
  Idle expiry ends exactly the sessions whose last activity is at least the threshold ago, and
  no other.
\<close>

theorem idle_expiry_exact:
  assumes "r = run_ops (session_exec p) before empty_session_repo" and "0 < threshold"
  shows "fst (expire_idle_sessions threshold now r) = Inr (map ss_session_id (filter (idle threshold now) (list_sessions r)))
    \<and> (\<forall>k. dget (sr_sessions (snd (expire_idle_sessions threshold now r))) k =
        (case dget (sr_sessions r) k of
           Some s \<Rightarrow> if idle threshold now s then None else Some s | None \<Rightarrow> None))"
proof -
  have wf: "sessions_wf r" using session_runs [OF sessions_wf_empty] assms(1) by blast
  note ex = expire_each_exact [OF listed_sessions [OF wf], of threshold now "[]"]
  have "k \<in> set (map ss_session_id (filter (idle threshold now) (list_sessions r)))
      \<longleftrightarrow> (\<exists>s. dget (sr_sessions r) k = Some s \<and> idle threshold now s)" for k
    using wf listed_sessions(2) [OF wf] by (force simp: list_sessions_def sessions_wf_def map_of_eq_Some_iff)
  with ex assms(2) show ?thesis
    by (auto simp: expire_idle_sessions_def split: prod.splits option.splits)
qed

theorem idle_expiry_exact_witness:
  "fst (expire_idle_sessions 10 12 (run_ops (session_exec None) [OpBind ''s'' ''a'' 1, OpBind ''u'' ''a'' 5] empty_session_repo))
   = Inr [''s'']"
proof -
  have "map ss_session_id (filter (idle 10 12) (list_sessions (run_ops (session_exec None)
      [OpBind ''s'' ''a'' 1, OpBind ''u'' ''a'' 5] empty_session_repo))) = [''s'']" by code_simp
  with idle_expiry_exact [OF refl, of 10 12 None "[OpBind ''s'' ''a'' 1, OpBind ''u'' ''a'' 5]"] show ?thesis by simp
qed

end
