(* ===== verification/Risk.thy ===== *)
theory Risk
  imports Finding_Model
begin

section \<open>Risk assessment and response\<close>

text \<open>
  \<^verbatim>\<open>app/services/risk_service.py\<close> (scores, levels and the assessments derived from evidence) and
  \<^verbatim>\<open>app/services/response_service.py\<close>. Both are pure functions of the evidence; the clock
  is read only when an assessment has no evidence.
\<close>

fun severity_weights :: "severity \<Rightarrow> nat" where
  "severity_weights SEV_LOW = 10"
| "severity_weights SEV_MEDIUM = 25"
| "severity_weights SEV_HIGH = 50"
| "severity_weights SEV_CRITICAL = 100"

definition score_findings :: "finding list \<Rightarrow> nat" where
  "score_findings fs = sum_list (map (\<lambda>f. severity_weights (f_severity f)) fs)"

definition level_for_score :: "nat \<Rightarrow> risk_level" where
  "level_for_score n =
     (if n \<ge> 100 then RL_CRITICAL else if n \<ge> 50 then RL_HIGH else if n \<ge> 25 then RL_MEDIUM else RL_LOW)"

record risk_assessment =
  ra_session_id :: string
  ra_agent_id :: string
  ra_risk_score :: nat
  ra_risk_level :: risk_level
  ra_finding_count :: nat
  ra_assessed_at :: instant

definition observed_at :: "finding \<Rightarrow> instant" where
  "observed_at f = (case f_recorded_at f of Some t \<Rightarrow> t | None \<Rightarrow> f_created_at f)"

definition derive :: "instant \<Rightarrow> string \<Rightarrow> string \<Rightarrow> finding list \<Rightarrow> risk_assessment" where
  "derive now sid aid fs =
     \<lparr>ra_session_id = sid, ra_agent_id = aid, ra_risk_score = score_findings fs,
      ra_risk_level = level_for_score (score_findings fs), ra_finding_count = length fs,
      ra_assessed_at = (if fs = [] then now else Max (set (map observed_at fs)))\<rparr>"

definition assess_session :: "instant \<Rightarrow> string \<Rightarrow> string \<Rightarrow> finding list \<Rightarrow> risk_assessment res" where
  "assess_session now sid aid fs =
     (if \<exists>f\<in>set fs. f_session_id f \<noteq> sid \<or> f_agent_id f \<noteq> aid then Inl ValueError
      else Inr (derive now sid aid fs))"

definition assess :: "instant \<Rightarrow> finding list \<Rightarrow> risk_assessment res" where
  "assess now fs =
     (case fs of [] \<Rightarrow> Inl ValueError
      | f # _ \<Rightarrow> assess_session now (f_session_id f) (f_agent_id f) fs)"

type_synonym risk_groups = "(string \<times> string, finding list) dict"

definition group_add :: "finding \<Rightarrow> risk_groups \<Rightarrow> risk_groups" where
  "group_add f g =
     (let k = (f_session_id f, f_agent_id f) in dset k (get_or g k [] @ [f]) g)"

definition reconstruct :: "instant \<Rightarrow> finding list \<Rightarrow> risk_assessment list" where
  "reconstruct now fs =
     (let grouped = fold group_add fs []
      in map (\<lambda>(sid, aid). derive now sid aid (get_or grouped (sid, aid) [])) (sort (dkeys grouped)))"

definition reconstruct_for_session ::
  "instant \<Rightarrow> finding list \<Rightarrow> string \<Rightarrow> string option \<Rightarrow> risk_assessment option res" where
  "reconstruct_for_session now fs sid aid =
     (let scoped = filter (\<lambda>f. f_session_id f = sid) fs
      in case aid of
           Some a \<Rightarrow>
             let mine = filter (\<lambda>f. f_agent_id f = a) scoped
             in Inr (if mine = [] then None else Some (derive now sid a mine))
         | None \<Rightarrow>
             (case remdups (map f_agent_id scoped) of
                [] \<Rightarrow> Inr None
              | [a] \<Rightarrow> Inr (Some (derive now sid a scoped))
              | _ \<Rightarrow> Inl AmbiguousAssessmentScopeError))"

datatype response_type = MONITOR | ALERT | REQUIRE_APPROVAL | SUSPEND_AGENT

fun response_types :: "risk_level \<Rightarrow> response_type" where
  "response_types RL_LOW = MONITOR"
| "response_types RL_MEDIUM = ALERT"
| "response_types RL_HIGH = REQUIRE_APPROVAL"
| "response_types RL_CRITICAL = SUSPEND_AGENT"

record response_action =
  rs_session_id :: string
  rs_agent_id :: string
  rs_risk_level :: risk_level
  rs_response_type :: response_type

definition recommend_for_level :: "risk_level \<Rightarrow> string \<Rightarrow> string \<Rightarrow> response_action" where
  "recommend_for_level level sid aid =
     \<lparr>rs_session_id = sid, rs_agent_id = aid, rs_risk_level = level, rs_response_type = response_types level\<rparr>"

definition recommend :: "risk_assessment \<Rightarrow> response_action" where
  "recommend a = recommend_for_level (ra_risk_level a) (ra_session_id a) (ra_agent_id a)"

subsection \<open>Levels\<close>

lemma level_mono: "m \<le> n \<Longrightarrow> level_for_score m \<le> level_for_score n"
  by (auto simp: level_for_score_def less_eq_risk_level_def)

lemma level_critical_iff: "level_for_score n = RL_CRITICAL \<longleftrightarrow> 100 \<le> n"
  by (simp add: level_for_score_def)

lemma score_append [simp]: "score_findings (xs @ ys) = score_findings xs + score_findings ys"
  by (simp add: score_findings_def)

subsection \<open>Grouping\<close>

lemma group_get:
  "get_or (fold group_add fs g) (sid, aid) [] =
     get_or g (sid, aid) [] @ filter (\<lambda>f. f_session_id f = sid \<and> f_agent_id f = aid) fs"
  by (induction fs arbitrary: g) (auto simp: group_add_def Let_def)

lemma group_keys: "set (dkeys (fold group_add fs g)) = set (dkeys g) \<union> {(f_session_id f, f_agent_id f) | f. f \<in> set fs}"
  by (induction fs arbitrary: g) (auto simp: group_add_def Let_def dom_update)

lemma group_distinct: "distinct (dkeys g) \<Longrightarrow> distinct (dkeys (fold group_add fs g))"
  by (induction fs arbitrary: g) (auto simp: group_add_def Let_def)

lemma sum_list_partition:
  fixes w :: "'a \<Rightarrow> nat"
  assumes "distinct ks" and "\<forall>x\<in>set xs. k x \<in> set ks"
  shows "(\<Sum>c\<leftarrow>ks. \<Sum>x\<leftarrow>filter (\<lambda>x. k x = c) xs. w x) = (\<Sum>x\<leftarrow>xs. w x)"
  using assms(2)
proof (induction xs)
  case (Cons x xs)
  have "(\<Sum>c\<leftarrow>ks. \<Sum>y\<leftarrow>filter (\<lambda>y. k y = c) (x # xs). w y)
      = (\<Sum>c\<leftarrow>ks. (if k x = c then w x else 0) + (\<Sum>y\<leftarrow>filter (\<lambda>y. k y = c) xs. w y))"
    by (rule arg_cong [of _ _ sum_list]) (auto intro!: map_cong)
  also have "\<dots> = (\<Sum>c\<leftarrow>ks. if k x = c then w x else 0) + (\<Sum>y\<leftarrow>xs. w y)"
    using Cons by (simp add: sum_list_addf)
  also have "(\<Sum>c\<leftarrow>ks. if k x = c then w x else 0) = w x"
    using assms(1) Cons.prems by (simp add: sum_list_distinct_conv_sum_set sum.delta)
  finally show ?case by simp
qed (simp add: sum_list_0)

subsection \<open>Properties of risk assessment\<close>

text \<open>
  More evidence never means less risk: adding findings to a set never lowers the level derived
  from it, and the response to the level is suspension exactly from a score of 100 on.
\<close>

theorem risk_monotone:
  "level_for_score (score_findings fs) \<le> level_for_score (score_findings (fs @ gs))
   \<and> (rs_response_type (recommend (derive now sid aid fs)) = SUSPEND_AGENT \<longleftrightarrow> 100 \<le> score_findings fs)"
proof -
  have "response_types l = SUSPEND_AGENT \<longleftrightarrow> l = RL_CRITICAL" for l by (cases l) auto
  then show ?thesis
    by (simp add: level_mono recommend_def recommend_for_level_def derive_def level_critical_iff)
qed

text \<open>
  Reconstruction accounts for all the evidence and for nothing else: there is one assessment for
  each session and agent that has findings, in sorted order, built from exactly its findings, and
  the scores add up to the score of the whole.
\<close>

theorem reconstruct_exact:
  "map (\<lambda>a. (ra_session_id a, ra_agent_id a)) (reconstruct now fs)
     = sorted_list_of_set {(f_session_id f, f_agent_id f) | f. f \<in> set fs}
   \<and> reconstruct now fs = map (\<lambda>(sid, aid). derive now sid aid
        (filter (\<lambda>f. f_session_id f = sid \<and> f_agent_id f = aid) fs))
        (sorted_list_of_set {(f_session_id f, f_agent_id f) | f. f \<in> set fs})
   \<and> sum_list (map ra_risk_score (reconstruct now fs)) = score_findings fs"
proof -
  let ?K = "{(f_session_id f, f_agent_id f) | f. f \<in> set fs}"
  let ?ks = "sorted_list_of_set ?K"
  have keys: "set (dkeys (fold group_add fs [])) = ?K"
    using group_keys [of fs "[]"] by simp
  have fin: "finite ?K" by (metis keys List.finite_set)
  have ks: "sort (dkeys (fold group_add fs [])) = ?ks"
    using sorted_list_of_set_sort_remdups [of "dkeys (fold group_add fs [])"] group_distinct [of "[]" fs] keys
    by (simp add: distinct_remdups_id)
  have whole: "reconstruct now fs = map (\<lambda>(sid, aid). derive now sid aid
        (filter (\<lambda>f. f_session_id f = sid \<and> f_agent_id f = aid) fs)) ?ks"
    by (simp add: reconstruct_def Let_def ks group_get)
  have "sum_list (map ra_risk_score (reconstruct now fs))
      = (\<Sum>c\<leftarrow>?ks. \<Sum>f\<leftarrow>filter (\<lambda>f. (f_session_id f, f_agent_id f) = c) fs. severity_weights (f_severity f))"
    by (auto simp: whole derive_def score_findings_def comp_def case_prod_beta intro!: arg_cong [of _ _ sum_list] map_cong filter_cong)
  also have "\<dots> = score_findings fs"
    unfolding score_findings_def by (rule sum_list_partition) (use fin in auto)
  finally show ?thesis
    using whole by (simp add: comp_def case_prod_beta derive_def)
qed

end
