(* ===== verification/Findings.thy ===== *)
theory Findings
  imports Finding_Model
begin

section \<open>The findings store\<close>

text \<open>
  \<^verbatim>\<open>app/services/findings_service.py\<close>: the evidence store, its per-agent evidence positions and the
  moment at which it accepted each finding. The reading of the clock is an argument.
\<close>

record findings_store =
  fs_findings :: "(string, finding) dict"
  fs_recorded_at :: "(string, instant) dict"
  fs_agent_sequences :: "(string, nat) dict"

definition empty_findings :: findings_store where
  "empty_findings = \<lparr>fs_findings = [], fs_recorded_at = [], fs_agent_sequences = []\<rparr>"

subsection \<open>Bootstrap\<close>

definition maximum0 :: "nat list \<Rightarrow> nat" where
  "maximum0 xs = foldr max xs 0"

definition findings_of :: "findings_store \<Rightarrow> string \<Rightarrow> finding list" where
  "findings_of s aid = filter (\<lambda>f. f_agent_id f = aid) (dvals (fs_findings s))"

text \<open>Agents in the order in which they first occur among the stored findings.\<close>

definition agents_in_order :: "findings_store \<Rightarrow> string list" where
  "agents_in_order s = rev (remdups (rev (map f_agent_id (dvals (fs_findings s)))))"

definition assign_one :: "(string, instant) dict \<Rightarrow> finding \<Rightarrow> nat \<times> (string, finding) dict \<Rightarrow> nat \<times> (string, finding) dict" where
  "assign_one rec f st =
     (case st of (m, d) \<Rightarrow>
        (m + 1, dset (f_id f) (f\<lparr>f_sequence := m + 1, f_recorded_at := Some (get_or rec (f_id f) (f_created_at f))\<rparr>) d))"

definition bootstrap_agent :: "string \<Rightarrow> findings_store \<Rightarrow> findings_store" where
  "bootstrap_agent aid s =
     (let fs = findings_of s aid;
          max_seq = maximum0 (map f_sequence (filter (\<lambda>f. f_sequence f > 0) fs));
          unassigned = sort_key (\<lambda>f. (get_or (fs_recorded_at s) (f_id f) (f_created_at f), f_created_at f, f_id f))
                         (filter (\<lambda>f. f_sequence f = 0) fs);
          (m, d) = fold (assign_one (fs_recorded_at s)) unassigned (max_seq, fs_findings s)
      in s\<lparr>fs_findings := d, fs_agent_sequences := dset aid m (fs_agent_sequences s)\<rparr>)"

definition bootstrap_sequences :: "findings_store \<Rightarrow> findings_store" where
  "bootstrap_sequences s = fold bootstrap_agent (agents_in_order s) s"

definition add_initial :: "(string, instant) dict \<Rightarrow> finding \<Rightarrow> findings_store \<Rightarrow> findings_store" where
  "add_initial rec f s =
     s\<lparr>fs_findings := dset (f_id f) f (fs_findings s),
       fs_recorded_at :=
         (case dget rec (f_id f) of
            Some t \<Rightarrow> dset (f_id f) t (fs_recorded_at s)
          | None \<Rightarrow> (case dget (fs_recorded_at s) (f_id f) of
                       Some _ \<Rightarrow> fs_recorded_at s
                     | None \<Rightarrow> dset (f_id f) (f_created_at f) (fs_recorded_at s)))\<rparr>"

definition new_findings_service :: "finding list \<Rightarrow> (string, instant) dict \<Rightarrow> findings_store" where
  "new_findings_service initial rec =
     (if initial = [] then empty_findings
      else bootstrap_sequences (fold (add_initial rec) initial empty_findings))"

subsection \<open>Recording\<close>

definition next_sequence_for_agent :: "string \<Rightarrow> findings_store \<Rightarrow> nat \<times> findings_store" where
  "next_sequence_for_agent aid s =
     (let n = get_or (fs_agent_sequences s) aid 0 + 1
      in (n, s\<lparr>fs_agent_sequences := dset aid n (fs_agent_sequences s)\<rparr>))"

definition record_finding_locked :: "instant \<Rightarrow> finding \<Rightarrow> findings_store \<Rightarrow> finding \<times> findings_store" where
  "record_finding_locked now f s =
     (case dget (fs_findings s) (f_id f) of
        Some existing \<Rightarrow>
          let (n, s1) = (if f_sequence existing > 0 then (f_sequence existing, s)
                         else next_sequence_for_agent (f_agent_id f) s);
              assigned = f\<lparr>f_sequence := n, f_recorded_at := Some (get_or (fs_recorded_at s1) (f_id existing) now)\<rparr>
          in (assigned,
              s1\<lparr>fs_findings := dset (f_id f) assigned (fs_findings s1),
                 fs_recorded_at := (case dget (fs_recorded_at s1) (f_id f) of
                                      Some _ \<Rightarrow> fs_recorded_at s1
                                    | None \<Rightarrow> dset (f_id f) now (fs_recorded_at s1))\<rparr>)
      | None \<Rightarrow>
          let (n, s1) = next_sequence_for_agent (f_agent_id f) s;
              assigned = f\<lparr>f_sequence := n, f_recorded_at := Some now\<rparr>
          in (assigned,
              s1\<lparr>fs_findings := dset (f_id f) assigned (fs_findings s1),
                 fs_recorded_at := dset (f_id f) now (fs_recorded_at s1)\<rparr>))"

definition record_finding :: "instant \<Rightarrow> finding \<Rightarrow> findings_store \<Rightarrow> finding \<times> findings_store" where
  "record_finding now f s = record_finding_locked now f s"

fun record_findings :: "instant \<Rightarrow> finding list \<Rightarrow> findings_store \<Rightarrow> finding list \<times> findings_store" where
  "record_findings now [] s = ([], s)"
| "record_findings now (f # fs) s =
     (let (x, s1) = record_finding_locked now f s; (xs, s2) = record_findings now fs s1 in (x # xs, s2))"

fun record_new_findings :: "instant \<Rightarrow> finding list \<Rightarrow> findings_store \<Rightarrow> finding list \<times> findings_store" where
  "record_new_findings now [] s = ([], s)"
| "record_new_findings now (f # fs) s =
     (if dget (fs_findings s) (f_id f) \<noteq> None then record_new_findings now fs s
      else let (x, s1) = record_finding_locked now f s; (xs, s2) = record_new_findings now fs s1 in (x # xs, s2))"

subsection \<open>Queries\<close>

record finding_filter =
  ff_session_id :: "string option"
  ff_agent_id :: "string option"
  ff_severity :: "severity option"
  ff_category :: "finding_category option"
  ff_status :: "finding_status option"
  ff_rule_id :: "string option"
  ff_recorded_after :: "instant option"

definition selects :: "'a option \<Rightarrow> 'a \<Rightarrow> bool" where
  "selects want x = (case want of None \<Rightarrow> True | Some y \<Rightarrow> x = y)"

definition list_findings :: "finding_filter \<Rightarrow> findings_store \<Rightarrow> finding list" where
  "list_findings q s =
     filter (\<lambda>f.
       (case ff_recorded_after q of
          None \<Rightarrow> True
        | Some t \<Rightarrow> (case dget (fs_recorded_at s) (f_id f) of None \<Rightarrow> False | Some r \<Rightarrow> r > t))
       \<and> selects (ff_session_id q) (f_session_id f) \<and> selects (ff_agent_id q) (f_agent_id f)
       \<and> selects (ff_severity q) (f_severity f) \<and> selects (ff_category q) (f_category f)
       \<and> selects (ff_status q) (f_status f) \<and> selects (ff_rule_id q) (f_rule_id f))
     (dvals (fs_findings s))"

definition get_agent_sequence :: "findings_store \<Rightarrow> string \<Rightarrow> nat" where
  "get_agent_sequence s aid = get_or (fs_agent_sequences s) aid 0"

definition capture_evidence_baseline_sequence :: "findings_store \<Rightarrow> string \<Rightarrow> instant \<Rightarrow> nat" where
  "capture_evidence_baseline_sequence s aid at =
     maximum0 (map f_sequence
       (filter (\<lambda>f. get_or (fs_recorded_at s) (f_id f) at \<le> at) (findings_of s aid)))"

definition clear_findings :: "findings_store \<Rightarrow> findings_store" where
  "clear_findings s = empty_findings"

lemma maximum0_ge: "x \<in> set xs \<Longrightarrow> x \<le> maximum0 xs"
  by (induction xs) (auto simp: maximum0_def)

lemma maximum0_le: "\<forall>x\<in>set xs. x \<le> b \<Longrightarrow> maximum0 xs \<le> b"
  by (induction xs) (auto simp: maximum0_def)

subsection \<open>Evidence positions are gapless\<close>

definition findings_wf :: "findings_store \<Rightarrow> bool" where
  "findings_wf s \<longleftrightarrow>
     distinct (dkeys (fs_findings s))
     \<and> (\<forall>k f. dget (fs_findings s) k = Some f \<longrightarrow> f_id f = k)
     \<and> (\<forall>aid. map f_sequence (findings_of s aid) = [1..<Suc (get_agent_sequence s aid)])"

lemma dset_new: "dget d k = None \<Longrightarrow> dset k v d = d @ [(k, v)]"
  by (induction d) auto

lemma record_new_one:
  assumes wf: "findings_wf s" and fresh: "dget (fs_findings s) (f_id f) = None"
    and run: "record_finding_locked now f s = (x, s')"
  shows "findings_wf s' \<and> x = f\<lparr>f_sequence := Suc (get_agent_sequence s (f_agent_id f)), f_recorded_at := Some now\<rparr>
    \<and> fs_findings s' = fs_findings s @ [(f_id f, x)]
    \<and> (\<forall>aid. get_agent_sequence s' aid = get_agent_sequence s aid + (if aid = f_agent_id f then 1 else 0))
    \<and> dget (fs_recorded_at s') = (dget (fs_recorded_at s))(f_id f \<mapsto> now)"
proof -
  have x: "x = f\<lparr>f_sequence := Suc (get_agent_sequence s (f_agent_id f)), f_recorded_at := Some now\<rparr>"
    and d: "fs_findings s' = fs_findings s @ [(f_id f, x)]"
    and q: "\<forall>aid. get_agent_sequence s' aid = get_agent_sequence s aid + (if aid = f_agent_id f then 1 else 0)"
    and r: "dget (fs_recorded_at s') = (dget (fs_recorded_at s))(f_id f \<mapsto> now)"
    using run fresh
    by (auto simp: record_finding_locked_def next_sequence_for_agent_def get_agent_sequence_def Let_def dset_new)
  have "findings_of s' aid = findings_of s aid @ (if aid = f_agent_id f then [x] else [])" for aid
    by (simp add: findings_of_def d x)
  then have "map f_sequence (findings_of s' aid) = [1..<Suc (get_agent_sequence s' aid)]" for aid
    using wf q by (simp add: findings_wf_def x)
  moreover have "distinct (dkeys (fs_findings s'))"
    using wf fresh by (simp add: findings_wf_def d map_of_eq_None_iff)
  moreover have "\<forall>k g. dget (fs_findings s') k = Some g \<longrightarrow> f_id g = k"
    using wf by (auto simp: findings_wf_def d x map_add_def split: option.splits if_splits)
  ultimately have "findings_wf s'" unfolding findings_wf_def by blast
  then show ?thesis using x d q r by blast
qed

lemma record_new_findings_wf:
  "findings_wf s \<Longrightarrow> record_new_findings now fs s = (xs, s') \<Longrightarrow>
     findings_wf s' \<and> (\<exists>tail. fs_findings s' = fs_findings s @ tail \<and> dvals tail = xs)
     \<and> (\<forall>f\<in>set fs. dget (fs_findings s') (f_id f) \<noteq> None)"
proof (induction fs arbitrary: s xs s')
  case (Cons f fs)
  show ?case
  proof (cases "dget (fs_findings s) (f_id f)")
    case None
    obtain x s1 where one: "record_finding_locked now f s = (x, s1)" by fastforce
    obtain ys s2 where rest: "record_new_findings now fs s1 = (ys, s2)" by fastforce
    note w = record_new_one [OF Cons.prems(1) None one]
    from Cons.IH [OF _ rest] w obtain tail where
      t: "fs_findings s2 = fs_findings s1 @ tail" "dvals tail = ys" "findings_wf s2"
      "\<forall>f\<in>set fs. dget (fs_findings s2) (f_id f) \<noteq> None" by blast
    have e: "s' = s2" "xs = x # ys" using Cons.prems(2) None one rest by auto
    have "dget (fs_findings s2) (f_id f) \<noteq> None"
      using t(1) w by (auto simp: map_add_def split: option.splits)
    moreover have "fs_findings s2 = fs_findings s @ (f_id f, x) # tail"
      using t(1) w by simp
    ultimately show ?thesis
      using t by (auto simp: e intro!: exI [of _ "(f_id f, x) # tail"])
  next
    case (Some g)
    with Cons.prems have rest: "record_new_findings now fs s = (xs, s')" by simp
    from Cons.IH [OF Cons.prems(1) rest] Some show ?thesis
      by (auto simp: map_add_def split: option.splits)
  qed
qed simp

lemma findings_wf_empty: "findings_wf empty_findings"
  by (simp add: findings_wf_def empty_findings_def findings_of_def get_agent_sequence_def)

text \<open>Batches of detections, as the runtime records them, each at its own time.\<close>

fun record_batches :: "(instant \<times> finding list) list \<Rightarrow> findings_store \<Rightarrow> findings_store" where
  "record_batches [] s = s"
| "record_batches ((now, fs) # bs) s = record_batches bs (snd (record_new_findings now fs s))"

lemma record_batches_wf: "findings_wf s \<Longrightarrow> findings_wf (record_batches bs s)"
proof (induction bs arbitrary: s)
  case (Cons b bs)
  obtain now fs where b: "b = (now, fs)" by (cases b)
  obtain xs s' where run: "record_new_findings now fs s = (xs, s')" by fastforce
  with record_new_findings_wf [OF Cons.prems run] Cons.IH [of s'] show ?case by (simp add: b)
qed simp

lemma record_new_known:
  "\<forall>f\<in>set fs. dget (fs_findings s) (f_id f) \<noteq> None \<Longrightarrow> record_new_findings now fs s = ([], s)"
  by (induction fs) auto

subsection \<open>Properties of the findings store\<close>

definition ex_finding :: "string \<Rightarrow> finding" where
  "ex_finding k = \<lparr>f_id = k, f_session_id = ''s'', f_agent_id = ''a'', f_rule_id = ''PROMPT_INJECTION'',
     f_rule_name = ''PROMPT_INJECTION'', f_severity = SEV_HIGH, f_category = PROMPT_INJECTION, f_status = FS_OPEN,
     f_description = [], f_created_at = 3, f_recorded_at = None, f_event_sequences = [1],
     f_recovery_generation = 0, f_sequence = 0\<rparr>"

text \<open>
  However detections are batched, the evidence of an agent is numbered without gaps and in the
  order of its acceptance: the positions of its stored findings are 1, 2, ..., n, where n is
  the position the allocator reports.
\<close>

theorem evidence_positions_gapless:
  "map f_sequence (findings_of (record_batches bs empty_findings) aid)
     = [1..<Suc (get_agent_sequence (record_batches bs empty_findings) aid)]"
  using record_batches_wf [OF findings_wf_empty] by (simp add: findings_wf_def)

text \<open>
  Re-derived detections are not counted twice: recording the same findings again adds nothing,
  whatever the time, and the evidence already stored is kept as it was.
\<close>

theorem recording_is_idempotent:
  assumes "s = record_batches bs empty_findings" and "record_new_findings now fs s = (xs, s')"
  shows "record_new_findings later fs s' = ([], s') \<and> (\<exists>tail. fs_findings s' = fs_findings s @ tail)"
proof -
  have "findings_wf s" using record_batches_wf [OF findings_wf_empty] assms(1) by simp
  note w = record_new_findings_wf [OF this assms(2)]
  then show ?thesis using record_new_known [of fs s' later] by blast
qed

theorem recording_is_idempotent_witness:
  "record_new_findings 9 [ex_finding ''x'', ex_finding ''y''] (snd (record_new_findings 5 [ex_finding ''x'', ex_finding ''y''] empty_findings))
     = ([], snd (record_new_findings 5 [ex_finding ''x'', ex_finding ''y''] empty_findings))
   \<and> map f_sequence (fst (record_new_findings 5 [ex_finding ''x'', ex_finding ''y''] empty_findings)) = [1, 2]"
proof
  show "record_new_findings 9 [ex_finding ''x'', ex_finding ''y''] (snd (record_new_findings 5 [ex_finding ''x'', ex_finding ''y''] empty_findings))
     = ([], snd (record_new_findings 5 [ex_finding ''x'', ex_finding ''y''] empty_findings))"
    by (rule recording_is_idempotent [of empty_findings "[]" 5 _ "fst (record_new_findings 5 [ex_finding ''x'', ex_finding ''y''] empty_findings)",
          THEN conjunct1]) simp_all
  show "map f_sequence (fst (record_new_findings 5 [ex_finding ''x'', ex_finding ''y''] empty_findings)) = [1, 2]"
    by code_simp
qed

end
