(* ===== verification/Risk_Aggregate.thy ===== *)
theory Risk_Aggregate
  imports Risk Findings
begin

section \<open>The materialized risk posture\<close>

text \<open>
  \<^verbatim>\<open>app/services/agent_risk_aggregate.py\<close> (the projection of one agent), with the posture of
  \<^verbatim>\<open>app/models/agent_risk_posture.py\<close>, and \<^verbatim>\<open>app/services/risk_aggregator.py\<close> (the collection of
  projections). The clock reading is an argument of the operations that stamp
  \<^verbatim>\<open>assessed_at\<close>.
\<close>

subsection \<open>State\<close>

datatype posture_state = UNINITIALIZED | HEALTHY | STALE

record aggregate =
  rg_agent_id :: string
  rg_baseline_at :: "instant option"
  rg_baseline_sequence :: nat
  rg_last_applied :: nat
  rg_vocabulary :: "string list"
  rg_by_severity :: "severity \<Rightarrow> nat"
  rg_by_rule :: "(string, nat) dict"
  rg_count :: nat
  rg_score :: nat
  rg_level :: risk_level
  rg_state :: posture_state
  rg_version :: nat
  rg_assessed_at :: instant

definition default_rule_vocabulary :: "string list" where
  "default_rule_vocabulary =
     [''PROMPT_INJECTION'', ''SENSITIVE_FILE_ACCESS'', ''DATA_EXFILTRATION'', ''EXCESSIVE_DENIALS'']"

definition active_status :: "finding_status \<Rightarrow> bool" where
  "active_status s \<longleftrightarrow> s \<in> {FS_OPEN, FS_ACKNOWLEDGED}"

definition assert_cursor_invariant :: "aggregate \<Rightarrow> unit res" where
  "assert_cursor_invariant a =
     (if rg_last_applied a < rg_baseline_sequence a then Inl ProjectionInvariantError else Inr ())"

definition baseline_or :: "instant \<Rightarrow> watermark \<Rightarrow> instant" where
  "baseline_or now w = (case wm_baseline_at w of Some t \<Rightarrow> t | None \<Rightarrow> now)"

definition new_aggregate :: "instant \<Rightarrow> watermark \<Rightarrow> string list option \<Rightarrow> aggregate res" where
  "new_aggregate now w vocabulary =
     (let a = \<lparr>rg_agent_id = wm_agent_id w, rg_baseline_at = wm_baseline_at w,
               rg_baseline_sequence = wm_evidence_sequence w, rg_last_applied = wm_evidence_sequence w,
               rg_vocabulary = (case vocabulary of Some v \<Rightarrow> v | None \<Rightarrow> default_rule_vocabulary),
               rg_by_severity = (\<lambda>_. 0), rg_by_rule = [], rg_count = 0, rg_score = 0, rg_level = RL_LOW,
               rg_state = HEALTHY, rg_version = 1, rg_assessed_at = baseline_or now w\<rparr>
      in res_bind (assert_cursor_invariant a) (\<lambda>_. Inr a))"

subsection \<open>Operations\<close>

definition severities :: "severity list" where
  "severities = [SEV_LOW, SEV_MEDIUM, SEV_HIGH, SEV_CRITICAL]"

definition recalculate_score_and_level :: "aggregate \<Rightarrow> aggregate" where
  "recalculate_score_and_level a =
     (let score = sum_list (map (\<lambda>s. rg_by_severity a s * severity_weights s) severities)
      in a\<lparr>rg_score := score, rg_level := level_for_score score\<rparr>)"

definition contribute :: "finding \<Rightarrow> aggregate \<Rightarrow> aggregate" where
  "contribute f a =
     a\<lparr>rg_by_severity := (rg_by_severity a)(f_severity f := rg_by_severity a (f_severity f) + 1),
       rg_by_rule := (if f_rule_id f \<noteq> [] \<and> f_rule_id f \<in> set (rg_vocabulary a)
                      then dset (f_rule_id f) (get_or (rg_by_rule a) (f_rule_id f) 0 + 1) (rg_by_rule a)
                      else rg_by_rule a),
       rg_count := rg_count a + 1\<rparr>"

definition at_or_before_baseline :: "instant option \<Rightarrow> finding \<Rightarrow> bool" where
  "at_or_before_baseline b f = (case b of None \<Rightarrow> False | Some t \<Rightarrow> observed_at f \<le> t)"

definition apply_finding :: "instant \<Rightarrow> finding \<Rightarrow> (aggregate, bool) eff" where
  "apply_finding now f a =
     (if f_agent_id f \<noteq> rg_agent_id a then (Inl ValueError, a)
      else if f_sequence f \<le> 0 then (Inl ValueError, a)
      else if f_sequence f \<le> rg_baseline_sequence a then (Inr False, a)
      else if f_sequence f \<le> rg_last_applied a then (Inr False, a)
      else if at_or_before_baseline (rg_baseline_at a) f
        then (Inr False, a\<lparr>rg_state := STALE, rg_assessed_at := now\<rparr>)
      else if f_sequence f > rg_last_applied a + 1
        then (Inr False, a\<lparr>rg_state := STALE, rg_assessed_at := now\<rparr>)
      else let a1 = a\<lparr>rg_last_applied := f_sequence f\<rparr>
           in case assert_cursor_invariant a1 of
                Inl e \<Rightarrow> (Inl e, a1)
              | Inr _ \<Rightarrow>
                  let a2 = (if active_status (f_status f) then recalculate_score_and_level (contribute f a1) else a1)
                  in (Inr True, a2\<lparr>rg_version := rg_version a2 + 1, rg_assessed_at := now\<rparr>))"

definition post_baseline :: "string \<Rightarrow> watermark \<Rightarrow> finding list \<Rightarrow> finding list" where
  "post_baseline aid w fs =
     filter (\<lambda>f. \<not> f_agent_id f \<noteq> aid \<and> \<not> f_sequence f \<le> wm_evidence_sequence w
                 \<and> \<not> at_or_before_baseline (wm_baseline_at w) f) fs"

definition rebuild_from_findings :: "instant \<Rightarrow> finding list \<Rightarrow> watermark \<Rightarrow> (aggregate, unit) eff" where
  "rebuild_from_findings now fs w a =
     (let a1 = a\<lparr>rg_baseline_at := wm_baseline_at w, rg_baseline_sequence := wm_evidence_sequence w,
                 rg_by_severity := (\<lambda>_. 0), rg_by_rule := [], rg_count := 0\<rparr>;
          ps = post_baseline (rg_agent_id a1) w fs;
          a2 = a1\<lparr>rg_last_applied := (if ps \<noteq> [] then Max (set (map f_sequence ps)) else wm_evidence_sequence w)\<rparr>;
          a3 = fold (\<lambda>f x. if active_status (f_status f) then contribute f x else x) ps a2;
          a4 = recalculate_score_and_level a3;
          a5 = a4\<lparr>rg_state := HEALTHY, rg_version := rg_version a4 + 1, rg_assessed_at := now\<rparr>
      in (assert_cursor_invariant a5, a5))"

definition reset_to_baseline :: "instant \<Rightarrow> watermark \<Rightarrow> (aggregate, unit) eff" where
  "reset_to_baseline now w a =
     (let a1 = a\<lparr>rg_baseline_at := wm_baseline_at w, rg_baseline_sequence := wm_evidence_sequence w,
                 rg_last_applied := wm_evidence_sequence w,
                 rg_by_severity := (\<lambda>_. 0), rg_by_rule := [], rg_count := 0, rg_score := 0, rg_level := RL_LOW,
                 rg_state := HEALTHY, rg_version := rg_version a + 1, rg_assessed_at := baseline_or now w\<rparr>
      in (assert_cursor_invariant a1, a1))"

definition mark_stale :: "instant \<Rightarrow> aggregate \<Rightarrow> aggregate" where
  "mark_stale now a = a\<lparr>rg_state := STALE, rg_assessed_at := now, rg_version := rg_version a + 1\<rparr>"

record posture =
  po_agent_id :: string
  po_state :: posture_state
  po_risk_score :: nat
  po_risk_level :: risk_level
  po_finding_count :: nat
  po_baseline_at :: "instant option"
  po_baseline_sequence :: nat
  po_last_applied :: nat
  po_by_severity :: "severity \<Rightarrow> nat"
  po_by_rule :: "(string, nat) dict"
  po_version :: nat
  po_assessed_at :: instant

definition snapshot :: "aggregate \<Rightarrow> posture res" where
  "snapshot a =
     res_bind (assert_cursor_invariant a) (\<lambda>_.
       Inr \<lparr>po_agent_id = rg_agent_id a, po_state = rg_state a, po_risk_score = rg_score a,
            po_risk_level = rg_level a, po_finding_count = rg_count a, po_baseline_at = rg_baseline_at a,
            po_baseline_sequence = rg_baseline_sequence a, po_last_applied = rg_last_applied a,
            po_by_severity = rg_by_severity a, po_by_rule = rg_by_rule a, po_version = rg_version a,
            po_assessed_at = rg_assessed_at a\<rparr>)"

subsection \<open>The aggregator\<close>

record aggregator =
  ra_projections :: "(string, aggregate) dict"
  ra_vocabulary :: "string list"

definition uninitialized_posture :: "instant \<Rightarrow> string \<Rightarrow> posture" where
  "uninitialized_posture now aid =
     \<lparr>po_agent_id = aid, po_state = UNINITIALIZED, po_risk_score = 0, po_risk_level = RL_LOW,
      po_finding_count = 0, po_baseline_at = None, po_baseline_sequence = 0, po_last_applied = 0,
      po_by_severity = (\<lambda>_. 0), po_by_rule = [], po_version = 1, po_assessed_at = now\<rparr>"

definition get_posture :: "instant \<Rightarrow> aggregator \<Rightarrow> string \<Rightarrow> posture res" where
  "get_posture now r aid =
     (case dget (ra_projections r) aid of None \<Rightarrow> Inr (uninitialized_posture now aid) | Some a \<Rightarrow> snapshot a)"

definition ingest_finding :: "instant \<Rightarrow> finding \<Rightarrow> (aggregator, bool) eff" where
  "ingest_finding now f r =
     (case dget (ra_projections r) (f_agent_id f) of
        None \<Rightarrow> (Inr False, r)
      | Some a \<Rightarrow>
          (case apply_finding now f a of
             (Inr b, a') \<Rightarrow> (Inr b, r\<lparr>ra_projections := dset (f_agent_id f) a' (ra_projections r)\<rparr>)
           | (Inl e, a') \<Rightarrow>
               (Inl e, r\<lparr>ra_projections := dset (f_agent_id f) (mark_stale now a') (ra_projections r)\<rparr>)))"

definition aggregator_mark_stale :: "instant \<Rightarrow> string \<Rightarrow> aggregator \<Rightarrow> aggregator" where
  "aggregator_mark_stale now aid r =
     (case dget (ra_projections r) aid of
        None \<Rightarrow> r
      | Some a \<Rightarrow> r\<lparr>ra_projections := dset aid (mark_stale now a) (ra_projections r)\<rparr>)"

definition ensure_projection :: "instant \<Rightarrow> string \<Rightarrow> watermark \<Rightarrow> (aggregator, aggregate) eff" where
  "ensure_projection now aid w r =
     (case dget (ra_projections r) aid of
        Some a \<Rightarrow> (Inr a, r)
      | None \<Rightarrow>
          (case new_aggregate now w (Some (ra_vocabulary r)) of
             Inl e \<Rightarrow> (Inl e, r)
           | Inr a \<Rightarrow> (Inr a, r\<lparr>ra_projections := dset aid a (ra_projections r)\<rparr>)))"

definition reconcile_agent :: "instant \<Rightarrow> string \<Rightarrow> finding list \<Rightarrow> watermark \<Rightarrow> (aggregator, posture) eff" where
  "reconcile_agent now aid fs w =
     and_then (ensure_projection now aid w) (\<lambda>a r.
       let (x, a') = rebuild_from_findings now fs w a;
           r' = r\<lparr>ra_projections := dset aid a' (ra_projections r)\<rparr>
       in case x of Inl e \<Rightarrow> (Inl e, r') | Inr _ \<Rightarrow> (snapshot a', r'))"

definition aggregator_reset_to_baseline :: "instant \<Rightarrow> watermark \<Rightarrow> (aggregator, posture) eff" where
  "aggregator_reset_to_baseline now w =
     and_then (ensure_projection now (wm_agent_id w) w) (\<lambda>a r.
       let (x, a') = reset_to_baseline now w a;
           r' = r\<lparr>ra_projections := dset (wm_agent_id w) a' (ra_projections r)\<rparr>
       in case x of Inl e \<Rightarrow> (Inl e, r') | Inr _ \<Rightarrow> (snapshot a', r'))"

definition has_projection :: "aggregator \<Rightarrow> string \<Rightarrow> bool" where
  "has_projection r aid \<longleftrightarrow> dget (ra_projections r) aid \<noteq> None"

subsection \<open>The projection invariant\<close>

definition counted_score :: "aggregate \<Rightarrow> nat" where
  "counted_score a = sum_list (map (\<lambda>s. rg_by_severity a s * severity_weights s) severities)"

text \<open>
  The cursor never precedes the baseline, score and level are those of the counts, the finding
  count is the sum of the counts, and rule counts are kept for rules of the vocabulary only.
\<close>

definition aggregate_inv :: "aggregate \<Rightarrow> bool" where
  "aggregate_inv a \<longleftrightarrow>
     rg_baseline_sequence a \<le> rg_last_applied a
     \<and> rg_score a = counted_score a \<and> rg_level a = level_for_score (rg_score a)
     \<and> rg_count a = sum_list (map (rg_by_severity a) severities)
     \<and> set (dkeys (rg_by_rule a)) \<subseteq> set (rg_vocabulary a) \<and> distinct (dkeys (rg_by_rule a))"

lemma level_zero [simp]: "level_for_score 0 = RL_LOW"
  by (simp add: level_for_score_def)

lemma aggregate_inv_new: "new_aggregate now w v = Inr a \<Longrightarrow> aggregate_inv a"
  by (auto simp: new_aggregate_def assert_cursor_invariant_def aggregate_inv_def counted_score_def severities_def Let_def)

lemma aggregate_inv_reset: "reset_to_baseline now w a = (r, a') \<Longrightarrow> r = Inr () \<and> aggregate_inv a'"
  by (auto simp: reset_to_baseline_def assert_cursor_invariant_def aggregate_inv_def counted_score_def severities_def Let_def)

lemma aggregate_inv_stale: "aggregate_inv a \<Longrightarrow> aggregate_inv (mark_stale now a)"
  by (simp add: mark_stale_def aggregate_inv_def counted_score_def)

lemma contribute_counts:
  "sum_list (map (rg_by_severity (contribute f a)) severities) = Suc (sum_list (map (rg_by_severity a) severities))"
  "counted_score (contribute f a) = counted_score a + severity_weights (f_severity f)"
  by (cases "f_severity f"; simp add: contribute_def severities_def counted_score_def)+

text \<open>The part of the invariant that survives a contribution before the score is recomputed.\<close>

definition counts_ok :: "aggregate \<Rightarrow> bool" where
  "counts_ok a \<longleftrightarrow> rg_count a = sum_list (map (rg_by_severity a) severities)
     \<and> set (dkeys (rg_by_rule a)) \<subseteq> set (rg_vocabulary a) \<and> distinct (dkeys (rg_by_rule a))"

lemma contribute_frame [simp]:
  "rg_agent_id (contribute f a) = rg_agent_id a" "rg_baseline_at (contribute f a) = rg_baseline_at a"
  "rg_baseline_sequence (contribute f a) = rg_baseline_sequence a"
  "rg_last_applied (contribute f a) = rg_last_applied a" "rg_vocabulary (contribute f a) = rg_vocabulary a"
  "rg_state (contribute f a) = rg_state a" "rg_version (contribute f a) = rg_version a"
  "rg_assessed_at (contribute f a) = rg_assessed_at a"
  "rg_count (contribute f a) = Suc (rg_count a)"
  by (simp_all add: contribute_def)

lemma counts_ok_contribute:
  assumes "counts_ok a" shows "counts_ok (contribute f a)"
proof -
  have "set (dkeys (rg_by_rule (contribute f a))) \<subseteq> set (rg_vocabulary a) \<and> distinct (dkeys (rg_by_rule (contribute f a)))"
    using assms by (auto simp: contribute_def counts_ok_def dom_update)
  with assms show ?thesis by (simp add: counts_ok_def contribute_counts)
qed

lemma recalculate_inv:
  "counts_ok a \<Longrightarrow> rg_baseline_sequence a \<le> rg_last_applied a \<Longrightarrow> aggregate_inv (recalculate_score_and_level a)"
  by (simp add: recalculate_score_and_level_def aggregate_inv_def counts_ok_def counted_score_def Let_def)

subsection \<open>Applying evidence one finding at a time\<close>

definition fits :: "aggregate \<Rightarrow> finding \<Rightarrow> bool" where
  "fits a f \<longleftrightarrow> f_agent_id f = rg_agent_id a \<and> f_sequence f = Suc (rg_last_applied a)
     \<and> \<not> at_or_before_baseline (rg_baseline_at a) f"

definition absorb :: "finding \<Rightarrow> aggregate \<Rightarrow> aggregate" where
  "absorb f a = (let a1 = a\<lparr>rg_last_applied := f_sequence f\<rparr>
     in if active_status (f_status f) then recalculate_score_and_level (contribute f a1) else a1)"

lemma apply_fits:
  assumes "aggregate_inv a" and "fits a f"
  shows "apply_finding now f a =
    (Inr True, (absorb f a)\<lparr>rg_version := rg_version (absorb f a) + 1, rg_assessed_at := now\<rparr>)"
  using assms by (auto simp: apply_finding_def fits_def absorb_def aggregate_inv_def assert_cursor_invariant_def Let_def)

lemma apply_cases:
  assumes inv: "aggregate_inv a" and run: "apply_finding now f a = (r, a')"
  shows "(r = Inr True \<and> fits a f
            \<and> a' = (absorb f a)\<lparr>rg_version := rg_version (absorb f a) + 1, rg_assessed_at := now\<rparr>)
       \<or> (r = Inr False \<and> a' = a \<and> f_sequence f \<le> rg_last_applied a)
       \<or> (r = Inr False \<and> a' = a\<lparr>rg_state := STALE, rg_assessed_at := now\<rparr> \<and> rg_last_applied a < f_sequence f)
       \<or> (r = Inl ValueError \<and> a' = a \<and> (f_agent_id f \<noteq> rg_agent_id a \<or> f_sequence f = 0))"
proof (cases "fits a f")
  case True
  with apply_fits [OF inv True, of now] run show ?thesis by auto
next
  case False
  then consider "f_agent_id f \<noteq> rg_agent_id a \<or> f_sequence f = 0"
    | "f_agent_id f = rg_agent_id a" "0 < f_sequence f" "f_sequence f \<le> rg_last_applied a"
    | "f_agent_id f = rg_agent_id a" "rg_last_applied a < f_sequence f"
      "at_or_before_baseline (rg_baseline_at a) f \<or> Suc (rg_last_applied a) < f_sequence f"
    unfolding fits_def by linarith
  then show ?thesis
  proof cases
    case 1
    then have "apply_finding now f a = (Inl ValueError, a)" by (simp add: apply_finding_def)
    with run 1 show ?thesis by simp
  next
    case 2
    then have "apply_finding now f a = (Inr False, a)" by (simp add: apply_finding_def)
    with run 2 show ?thesis by simp
  next
    case 3
    moreover have "rg_baseline_sequence a < f_sequence f" using inv 3 by (simp add: aggregate_inv_def)
    ultimately have "apply_finding now f a = (Inr False, a\<lparr>rg_state := STALE, rg_assessed_at := now\<rparr>)"
      by (auto simp: apply_finding_def)
    with run 3 show ?thesis by simp
  qed
qed

lemma aggregate_inv_absorb:
  assumes "aggregate_inv a" and "fits a f"
  shows "aggregate_inv (absorb f a)"
proof -
  have "counts_ok (a\<lparr>rg_last_applied := f_sequence f\<rparr>)" and "rg_baseline_sequence a \<le> f_sequence f"
    using assms by (auto simp: aggregate_inv_def counts_ok_def fits_def)
  then show ?thesis
  proof (cases "active_status (f_status f)")
    case True
    have "aggregate_inv (recalculate_score_and_level (contribute f (a\<lparr>rg_last_applied := f_sequence f\<rparr>)))"
      by (intro recalculate_inv counts_ok_contribute) (use \<open>counts_ok _\<close> \<open>_ \<le> f_sequence f\<close> in simp_all)
    with True show ?thesis by (simp add: absorb_def)
  next
    case False
    with assms(1) \<open>_ \<le> f_sequence f\<close> show ?thesis
      by (simp add: absorb_def aggregate_inv_def counted_score_def)
  qed
qed

lemma aggregate_inv_stamp [simp]:
  "aggregate_inv (a\<lparr>rg_version := v\<rparr>) = aggregate_inv a"
  "aggregate_inv (a\<lparr>rg_state := st\<rparr>) = aggregate_inv a"
  "aggregate_inv (a\<lparr>rg_assessed_at := t\<rparr>) = aggregate_inv a"
  by (simp_all add: aggregate_inv_def counted_score_def)

lemma aggregate_inv_apply: "aggregate_inv a \<Longrightarrow> apply_finding now f a = (r, a') \<Longrightarrow> aggregate_inv a'"
  using apply_cases [of a now f r a'] by (auto simp: aggregate_inv_absorb)

definition fold_contrib :: "finding list \<Rightarrow> aggregate \<Rightarrow> aggregate" where
  "fold_contrib ps = fold (\<lambda>f x. if active_status (f_status f) then contribute f x else x) ps"

lemma fold_contrib_frame [simp]:
  "rg_agent_id (fold_contrib ps a) = rg_agent_id a" "rg_baseline_at (fold_contrib ps a) = rg_baseline_at a"
  "rg_baseline_sequence (fold_contrib ps a) = rg_baseline_sequence a"
  "rg_last_applied (fold_contrib ps a) = rg_last_applied a" "rg_vocabulary (fold_contrib ps a) = rg_vocabulary a"
  "rg_version (fold_contrib ps a) = rg_version a"
  by (induction ps arbitrary: a) (auto simp: fold_contrib_def)

lemma fold_contrib_ok: "counts_ok a \<Longrightarrow> counts_ok (fold_contrib ps a)"
  by (induction ps arbitrary: a) (auto simp: fold_contrib_def counts_ok_contribute)

lemma fold_contrib_score:
  "counted_score (fold_contrib ps a) = counted_score a + score_findings (filter (\<lambda>f. active_status (f_status f)) ps)"
  by (induction ps arbitrary: a) (auto simp: fold_contrib_def contribute_counts score_findings_def)

lemma fold_contrib_count:
  "rg_count (fold_contrib ps a) = rg_count a + length (filter (\<lambda>f. active_status (f_status f)) ps)"
  by (induction ps arbitrary: a) (auto simp: fold_contrib_def)

lemma rebuild_result:
  assumes "rebuild_from_findings now fs w a = (r, a')"
  defines "ps \<equiv> post_baseline (rg_agent_id a) w fs"
  shows "r = Inr () \<and> aggregate_inv a' \<and> rg_state a' = HEALTHY \<and> rg_agent_id a' = rg_agent_id a
    \<and> rg_baseline_at a' = wm_baseline_at w \<and> rg_baseline_sequence a' = wm_evidence_sequence w
    \<and> rg_last_applied a' = (if ps \<noteq> [] then Max (set (map f_sequence ps)) else wm_evidence_sequence w)
    \<and> rg_score a' = score_findings (filter (\<lambda>f. active_status (f_status f)) ps)
    \<and> rg_count a' = length (filter (\<lambda>f. active_status (f_status f)) ps)"
proof -
  define a1 where "a1 = a\<lparr>rg_baseline_at := wm_baseline_at w, rg_baseline_sequence := wm_evidence_sequence w,
      rg_by_severity := (\<lambda>_. 0), rg_by_rule := [], rg_count := 0,
      rg_last_applied := (if ps \<noteq> [] then Max (set (map f_sequence ps)) else wm_evidence_sequence w)\<rparr>"
  define a4 where "a4 = recalculate_score_and_level (fold_contrib ps a1)"
  have le: "wm_evidence_sequence w \<le> rg_last_applied a1"
  proof (cases "ps = []")
    case False
    then have hd: "hd ps \<in> set ps" by simp
    have "\<forall>f\<in>set ps. wm_evidence_sequence w < f_sequence f"
      by (auto simp: ps_def post_baseline_def)
    with hd have "wm_evidence_sequence w < f_sequence (hd ps)" by blast
    also have "f_sequence (hd ps) \<le> Max (set (map f_sequence ps))"
      by (rule Max_ge) (use hd in auto)
    finally show ?thesis using False by (simp add: a1_def)
  qed (simp add: a1_def)
  have ok: "counts_ok (fold_contrib ps a1)"
    by (rule fold_contrib_ok) (simp add: counts_ok_def a1_def severities_def)
  then have inv: "aggregate_inv a4"
    unfolding a4_def by (rule recalculate_inv) (use le in \<open>simp add: a1_def\<close>)
  have out: "r = assert_cursor_invariant a' \<and> a' = a4\<lparr>rg_state := HEALTHY, rg_version := rg_version a4 + 1, rg_assessed_at := now\<rparr>"
    using assms(1) by (auto simp: rebuild_from_findings_def Let_def a4_def a1_def ps_def fold_contrib_def)
  have "counted_score (fold_contrib ps a1) = score_findings (filter (\<lambda>f. active_status (f_status f)) ps)"
    by (simp add: fold_contrib_score) (simp add: counted_score_def a1_def severities_def)
  then have score: "rg_score a4 = score_findings (filter (\<lambda>f. active_status (f_status f)) ps)"
    by (simp add: a4_def recalculate_score_and_level_def counted_score_def Let_def)
  have rest: "rg_agent_id a4 = rg_agent_id a" "rg_baseline_at a4 = wm_baseline_at w"
    "rg_baseline_sequence a4 = wm_evidence_sequence w" "rg_last_applied a4 = rg_last_applied a1"
    "rg_count a4 = length (filter (\<lambda>f. active_status (f_status f)) ps)"
    by (simp_all add: a4_def recalculate_score_and_level_def Let_def fold_contrib_count) (simp_all add: a1_def)
  have "r = Inr ()" using out le rest by (simp add: assert_cursor_invariant_def)
  then show ?thesis
    using out inv score rest by (auto simp: a1_def)
qed

subsection \<open>Incremental and full reconstruction agree\<close>

text \<open>A projection up to the version counter and the time stamp, which count and date updates.\<close>

definition projection :: "aggregate \<Rightarrow> aggregate" where
  "projection a = a\<lparr>rg_version := 0, rg_assessed_at := 0\<rparr>"

definition apply_all :: "instant \<Rightarrow> finding list \<Rightarrow> aggregate \<Rightarrow> aggregate" where
  "apply_all now fs a = fold (\<lambda>f x. snd (apply_finding now f x)) fs a"

lemma contribute_commutes [simp]:
  "contribute f (a\<lparr>rg_score := n\<rparr>) = (contribute f a)\<lparr>rg_score := n\<rparr>"
  "contribute f (a\<lparr>rg_level := l\<rparr>) = (contribute f a)\<lparr>rg_level := l\<rparr>"
  "contribute f (a\<lparr>rg_state := st\<rparr>) = (contribute f a)\<lparr>rg_state := st\<rparr>"
  "contribute f (a\<lparr>rg_version := v\<rparr>) = (contribute f a)\<lparr>rg_version := v\<rparr>"
  "contribute f (a\<lparr>rg_assessed_at := t\<rparr>) = (contribute f a)\<lparr>rg_assessed_at := t\<rparr>"
  "contribute f (a\<lparr>rg_last_applied := n\<rparr>) = (contribute f a)\<lparr>rg_last_applied := n\<rparr>"
  by (simp_all add: contribute_def)

lemma fold_contrib_commutes [simp]:
  "fold_contrib ps (a\<lparr>rg_score := n\<rparr>) = (fold_contrib ps a)\<lparr>rg_score := n\<rparr>"
  "fold_contrib ps (a\<lparr>rg_level := l\<rparr>) = (fold_contrib ps a)\<lparr>rg_level := l\<rparr>"
  "fold_contrib ps (a\<lparr>rg_state := st\<rparr>) = (fold_contrib ps a)\<lparr>rg_state := st\<rparr>"
  "fold_contrib ps (a\<lparr>rg_version := v\<rparr>) = (fold_contrib ps a)\<lparr>rg_version := v\<rparr>"
  "fold_contrib ps (a\<lparr>rg_assessed_at := t\<rparr>) = (fold_contrib ps a)\<lparr>rg_assessed_at := t\<rparr>"
  "fold_contrib ps (a\<lparr>rg_last_applied := n\<rparr>) = (fold_contrib ps a)\<lparr>rg_last_applied := n\<rparr>"
  by (induction ps arbitrary: a) (simp_all add: fold_contrib_def)

lemma recalculate_commutes [simp]:
  "recalculate_score_and_level (a\<lparr>rg_score := n\<rparr>) = recalculate_score_and_level a"
  "recalculate_score_and_level (a\<lparr>rg_level := l\<rparr>) = recalculate_score_and_level a"
  "recalculate_score_and_level (a\<lparr>rg_state := st\<rparr>) = (recalculate_score_and_level a)\<lparr>rg_state := st\<rparr>"
  "recalculate_score_and_level (a\<lparr>rg_version := v\<rparr>) = (recalculate_score_and_level a)\<lparr>rg_version := v\<rparr>"
  "recalculate_score_and_level (a\<lparr>rg_assessed_at := t\<rparr>) = (recalculate_score_and_level a)\<lparr>rg_assessed_at := t\<rparr>"
  "recalculate_score_and_level (a\<lparr>rg_last_applied := n\<rparr>) = (recalculate_score_and_level a)\<lparr>rg_last_applied := n\<rparr>"
  "recalculate_score_and_level (contribute f (recalculate_score_and_level a)) = recalculate_score_and_level (contribute f a)"
  by (simp_all add: recalculate_score_and_level_def Let_def)

text \<open>The state in which the findings \<open>fs\<close> have been summarised since the baseline.\<close>

definition summary :: "finding list \<Rightarrow> aggregate \<Rightarrow> aggregate" where
  "summary fs a = (recalculate_score_and_level (fold_contrib fs a))\<lparr>rg_last_applied := rg_last_applied a + length fs\<rparr>"

lemma absorb_projection: "projection (absorb f (projection a)) = projection (absorb f a)"
  by (simp add: absorb_def projection_def Let_def)

lemma absorb_summary:
  assumes "f_sequence f = Suc (rg_last_applied a + length fs)"
  shows "absorb f (summary fs a) = summary (fs @ [f]) a"
  using assms by (simp add: absorb_def summary_def Let_def) (simp add: fold_contrib_def)

lemma fits_projection:
  "fits a f \<longleftrightarrow> fits (projection a) f"
  by (simp add: fits_def projection_def)

lemma summary_frame [simp]:
  "rg_agent_id (summary fs a) = rg_agent_id a" "rg_baseline_at (summary fs a) = rg_baseline_at a"
  "rg_last_applied (summary fs a) = rg_last_applied a + length fs"
  by (simp_all add: summary_def recalculate_score_and_level_def Let_def)

lemma apply_all_summary:
  assumes "aggregate_inv a" and "summary [] a = a" and "\<forall>f\<in>set fs. f_agent_id f = rg_agent_id a"
    and "map f_sequence fs = [Suc (rg_last_applied a)..<Suc (rg_last_applied a) + length fs]"
    and "\<forall>f\<in>set fs. \<not> at_or_before_baseline (rg_baseline_at a) f"
  shows "aggregate_inv (apply_all now fs a) \<and> projection (apply_all now fs a) = projection (summary fs a)"
  using assms(3-5)
proof (induction fs rule: rev_induct)
  case Nil
  then show ?case using assms(1,2) by (simp add: apply_all_def)
next
  case (snoc f fs)
  let ?x = "apply_all now fs a"
  have seqs: "map f_sequence fs = [Suc (rg_last_applied a)..<Suc (rg_last_applied a) + length fs]"
    and f: "f_sequence f = Suc (rg_last_applied a + length fs)"
    using snoc.prems(2) by simp_all
  then have ih: "aggregate_inv ?x" "projection ?x = projection (summary fs a)"
    using snoc by simp_all
  have "fits (summary fs a) f" using snoc.prems f by (simp add: fits_def)
  then have fit: "fits ?x f" using ih(2) fits_projection by metis
  have out: "apply_all now (fs @ [f]) a
      = (absorb f ?x)\<lparr>rg_version := rg_version (absorb f ?x) + 1, rg_assessed_at := now\<rparr>"
    using apply_fits [OF ih(1) fit, of now] by (simp add: apply_all_def)
  have "projection (absorb f ?x) = projection (summary (fs @ [f]) a)"
    using absorb_projection [of f ?x] absorb_projection [of f "summary fs a"] ih(2) absorb_summary [OF f] by simp
  then show ?case
    unfolding out using aggregate_inv_absorb [OF ih(1) fit] by (simp add: projection_def)
qed

lemma reset_summary:
  "summary [] (snd (reset_to_baseline now w a)) = snd (reset_to_baseline now w a)"
  by (simp add: summary_def reset_to_baseline_def fold_contrib_def recalculate_score_and_level_def severities_def Let_def)

lemma rebuild_summary:
  assumes "post_baseline (rg_agent_id a) w fs = ps" and "map f_sequence ps = [Suc (wm_evidence_sequence w)..<Suc (wm_evidence_sequence w) + length ps]"
  shows "projection (snd (rebuild_from_findings now fs w a)) = projection (summary ps (snd (reset_to_baseline now2 w a)))"
proof -
  define m where "m = (if ps \<noteq> [] then Max (set (map f_sequence ps)) else wm_evidence_sequence w)"
  define base where "base = a\<lparr>rg_baseline_at := wm_baseline_at w, rg_baseline_sequence := wm_evidence_sequence w,
      rg_by_severity := (\<lambda>_. 0), rg_by_rule := [], rg_count := 0\<rparr>"
  have m: "m = wm_evidence_sequence w + length ps"
  proof (cases "ps = []")
    case False
    then have "Max {Suc (wm_evidence_sequence w)..<Suc (wm_evidence_sequence w) + length ps} = wm_evidence_sequence w + length ps"
      by (intro Max_eqI) (auto simp: Suc_le_eq)
    with False show ?thesis unfolding m_def by (simp only: assms(2) set_upt) simp
  qed (simp add: m_def)
  have rebuilt: "projection (snd (rebuild_from_findings now fs w a)) =
      projection ((recalculate_score_and_level (fold_contrib ps (base\<lparr>rg_last_applied := m\<rparr>)))\<lparr>rg_state := HEALTHY\<rparr>)"
    by (simp add: rebuild_from_findings_def Let_def assms(1) m_def base_def projection_def fold_contrib_def [symmetric]
        del: fold_contrib_commutes recalculate_commutes set_map)
  have reset: "snd (reset_to_baseline now2 w a) = base\<lparr>rg_last_applied := wm_evidence_sequence w, rg_score := 0,
      rg_level := RL_LOW, rg_state := HEALTHY, rg_version := rg_version a + 1, rg_assessed_at := baseline_or now2 w\<rparr>"
    by (simp add: reset_to_baseline_def Let_def base_def)
  show ?thesis
    unfolding rebuilt reset m summary_def by (simp add: projection_def)
qed

lemma filter_positions:
  "map k xs = [m..<m + length xs] \<Longrightarrow> filter (\<lambda>x. b < k x) xs = drop (Suc b - m) xs"
proof (induction xs arbitrary: m)
  case (Cons x xs)
  from Cons.prems have x: "k x = m" and rest: "map k xs = [Suc m..<Suc m + length xs]"
    by (simp_all add: upt_conv_Cons del: upt_Suc)
  show ?case
  proof (cases "b < m")
    case True
    then have "filter (\<lambda>x. b < k x) xs = xs" using Cons.IH [OF rest] by simp
    with x True show ?thesis by simp
  next
    case False
    then have "Suc b - m = Suc (Suc b - Suc m)" by simp
    with x False Cons.IH [OF rest] show ?thesis by simp
  qed
qed simp

lemma store_post_baseline:
  assumes wf: "findings_wf s"
    and after: "\<forall>f\<in>set (drop (wm_evidence_sequence w) (findings_of s aid)). \<not> at_or_before_baseline (wm_baseline_at w) f"
  shows "post_baseline aid w (dvals (fs_findings s)) = drop (wm_evidence_sequence w) (findings_of s aid)"
proof -
  let ?b = "wm_evidence_sequence w"
  have seqs: "map f_sequence (findings_of s aid) = [1..<1 + length (findings_of s aid)]"
    using wf by (metis diff_Suc_1 findings_wf_def length_map length_upt plus_1_eq_Suc)
  have "filter (\<lambda>f. ?b < f_sequence f) (findings_of s aid) = drop (Suc ?b - 1) (findings_of s aid)"
    by (rule filter_positions [OF seqs])
  then have seq: "filter (\<lambda>f. ?b < f_sequence f) (findings_of s aid) = drop ?b (findings_of s aid)" by simp
  have "post_baseline aid w (dvals (fs_findings s)) =
      filter (\<lambda>f. \<not> at_or_before_baseline (wm_baseline_at w) f) (filter (\<lambda>f. ?b < f_sequence f) (findings_of s aid))"
    by (simp add: post_baseline_def findings_of_def conj_commute not_le conj_ac)
  with seq after show ?thesis by (simp add: filter_id_conv)
qed

subsection \<open>Fail-closed staleness\<close>

lemma apply_all_Cons: "apply_all now (f # fs) a = apply_all now fs (snd (apply_finding now f a))"
  by (simp add: apply_all_def)

lemma absorb_frame [simp]:
  "rg_last_applied (absorb f a) = f_sequence f" "rg_state (absorb f a) = rg_state a"
  by (simp_all add: absorb_def Let_def recalculate_score_and_level_def)

lemma apply_stays_stale:
  assumes "aggregate_inv a" and "rg_state a = STALE"
  shows "rg_state (snd (apply_finding now f a)) = STALE"
  using apply_cases [OF assms(1), of now f "fst (apply_finding now f a)" "snd (apply_finding now f a)"] assms(2)
  by auto

lemma apply_all_healthy:
  assumes "aggregate_inv a"
  shows "aggregate_inv (apply_all now fs a) \<and> rg_last_applied a \<le> rg_last_applied (apply_all now fs a)
    \<and> (rg_state a = STALE \<longrightarrow> rg_state (apply_all now fs a) = STALE)
    \<and> (rg_state (apply_all now fs a) = HEALTHY \<longrightarrow> (\<forall>f\<in>set fs. f_agent_id f = rg_agent_id a \<longrightarrow> f_sequence f \<le> rg_last_applied (apply_all now fs a)))"
  using assms
proof (induction fs arbitrary: a)
  case (Cons f fs)
  let ?a = "snd (apply_finding now f a)"
  have inv: "aggregate_inv ?a"
    using aggregate_inv_apply [OF Cons.prems, of now f "fst (apply_finding now f a)" ?a] by simp
  have c: "fits a f \<and> rg_last_applied ?a = f_sequence f \<and> rg_state ?a = rg_state a
      \<or> ?a = a \<and> (f_agent_id f = rg_agent_id a \<longrightarrow> f_sequence f \<le> rg_last_applied a)
      \<or> rg_state ?a = STALE \<and> rg_last_applied ?a = rg_last_applied a"
    using apply_cases [OF Cons.prems, of now f "fst (apply_finding now f a)" ?a] by auto
  have agent: "rg_agent_id ?a = rg_agent_id a"
    using apply_cases [OF Cons.prems, of now f "fst (apply_finding now f a)" ?a]
    by (auto simp: absorb_def Let_def recalculate_score_and_level_def)
  have step: "rg_last_applied a \<le> rg_last_applied ?a" "rg_state a = STALE \<Longrightarrow> rg_state ?a = STALE"
    using c apply_stays_stale [OF Cons.prems] by (auto simp: fits_def)
  show ?case
    using Cons.IH [OF inv] c step agent
    by (auto simp: apply_all_Cons intro: order_trans)
qed (simp add: apply_all_def)

subsection \<open>Sequences of aggregator operations\<close>

datatype aggregator_op =
    OpIngest instant finding
  | OpMarkStale instant string
  | OpReconcile instant string "finding list" watermark
  | OpReset instant watermark

fun aggregator_exec :: "aggregator_op \<Rightarrow> aggregator \<Rightarrow> exn option \<times> aggregator" where
  "aggregator_exec (OpIngest now f) r = (let (x, r') = ingest_finding now f r in (case x of Inl e \<Rightarrow> Some e | _ \<Rightarrow> None, r'))"
| "aggregator_exec (OpMarkStale now aid) r = (None, aggregator_mark_stale now aid r)"
| "aggregator_exec (OpReconcile now aid fs w) r = (let (x, r') = reconcile_agent now aid fs w r in (case x of Inl e \<Rightarrow> Some e | _ \<Rightarrow> None, r'))"
| "aggregator_exec (OpReset now w) r = (let (x, r') = aggregator_reset_to_baseline now w r in (case x of Inl e \<Rightarrow> Some e | _ \<Rightarrow> None, r'))"

definition aggregator_inv :: "aggregator \<Rightarrow> bool" where
  "aggregator_inv r \<longleftrightarrow> (\<forall>aid a. dget (ra_projections r) aid = Some a \<longrightarrow> aggregate_inv a)"

definition new_aggregator :: "string list option \<Rightarrow> aggregator" where
  "new_aggregator v = \<lparr>ra_projections = [], ra_vocabulary = (case v of Some x \<Rightarrow> x | None \<Rightarrow> default_rule_vocabulary)\<rparr>"

lemma aggregator_inv_set:
  "aggregator_inv r \<Longrightarrow> aggregate_inv a \<Longrightarrow> aggregator_inv (r\<lparr>ra_projections := dset aid a (ra_projections r)\<rparr>)"
  by (auto simp: aggregator_inv_def)

lemma ensure_projection_inv:
  "aggregator_inv r \<Longrightarrow> aggregator_inv (snd (ensure_projection now aid w r))"
  by (cases "dget (ra_projections r) aid"; cases "new_aggregate now w (Some (ra_vocabulary r))")
     (auto simp: ensure_projection_def intro: aggregator_inv_set aggregate_inv_new)

lemma aggregator_inv_exec:
  assumes "aggregator_inv r"
  shows "aggregator_inv (snd (aggregator_exec x r))"
proof (cases x)
  case (OpIngest now f)
  show ?thesis
  proof (cases "dget (ra_projections r) (f_agent_id f)")
    case None
    with assms show ?thesis by (simp add: OpIngest ingest_finding_def)
  next
    case (Some a)
    obtain y a' where run: "apply_finding now f a = (y, a')" by fastforce
    have "aggregate_inv a'"
      using aggregate_inv_apply [OF _ run] assms Some by (auto simp: aggregator_inv_def)
    with assms Some run show ?thesis
      by (cases y) (auto simp: OpIngest ingest_finding_def intro: aggregator_inv_set aggregate_inv_stale)
  qed
next
  case (OpMarkStale now aid)
  with assms show ?thesis
    by (auto simp: aggregator_mark_stale_def aggregator_inv_def aggregate_inv_stale split: option.splits if_splits)
next
  case (OpReconcile now aid fs w)
  obtain y r1 where e: "ensure_projection now aid w r = (y, r1)" by fastforce
  have inv: "aggregator_inv r1" using ensure_projection_inv [OF assms, of now aid w] e by simp
  show ?thesis
  proof (cases y)
    case (Inl x)
    with inv e show ?thesis by (simp add: OpReconcile reconcile_agent_def and_then_def)
  next
    case (Inr a)
    obtain z a' where b: "rebuild_from_findings now fs w a = (z, a')" by fastforce
    have "aggregate_inv a'" using rebuild_result [OF b] by simp
    from aggregator_inv_set [OF inv this, of aid] Inr e b show ?thesis
      by (cases z) (simp_all add: OpReconcile reconcile_agent_def and_then_def)
  qed
next
  case (OpReset now w)
  let ?aid = "wm_agent_id w"
  obtain y r1 where e: "ensure_projection now ?aid w r = (y, r1)" by fastforce
  have inv: "aggregator_inv r1" using ensure_projection_inv [OF assms, of now ?aid w] e by simp
  show ?thesis
  proof (cases y)
    case (Inl x)
    with inv e show ?thesis by (simp add: OpReset aggregator_reset_to_baseline_def and_then_def)
  next
    case (Inr a)
    obtain z a' where b: "reset_to_baseline now w a = (z, a')" by fastforce
    have "aggregate_inv a'" using aggregate_inv_reset [OF b] by simp
    from aggregator_inv_set [OF inv this, of ?aid] Inr e b show ?thesis
      by (cases z) (simp_all add: OpReset aggregator_reset_to_baseline_def and_then_def)
  qed
qed

lemma aggregator_runs_inv: "aggregator_inv (run_ops aggregator_exec xs (new_aggregator v))"
proof (rule run_ops_invariant)
  show "aggregator_inv (new_aggregator v)" by (simp add: aggregator_inv_def new_aggregator_def)
qed (rule aggregator_inv_exec)

subsection \<open>Properties of the risk posture\<close>

definition ex_watermark :: watermark where
  "ex_watermark = \<lparr>wm_agent_id = ''a'', wm_baseline_at = Some 4, wm_evidence_sequence = 1, wm_agent_sequence = 0\<rparr>"

definition ex_store :: findings_store where
  "ex_store = record_batches [(3, [ex_finding ''x'']), (5, [ex_finding ''y'', ex_finding ''z''])] empty_findings"

definition ex_aggregate :: aggregate where
  "ex_aggregate = (case new_aggregate 0 ex_watermark None of Inr a \<Rightarrow> a)"

text \<open>
  (C25) Incremental posture equals full reconstruction: for any history of recorded detections, applying
  an agent's findings after the baseline one by one gives the same posture (state, cursor,
  counts, score and level) as rebuilding from the whole evidence store, it is HEALTHY, and its
  score is that of the active findings after the baseline.
\<close>

theorem projection_equivalence:
  assumes "s = record_batches bs empty_findings" and "rg_agent_id a = aid"
    and "wm_evidence_sequence w \<le> get_agent_sequence s aid"
    and "\<forall>f\<in>set (drop (wm_evidence_sequence w) (findings_of s aid)). \<not> at_or_before_baseline (wm_baseline_at w) f"
  defines "later \<equiv> drop (wm_evidence_sequence w) (findings_of s aid)"
  shows "projection (apply_all now later (snd (reset_to_baseline now w a)))
       = projection (snd (rebuild_from_findings now2 (dvals (fs_findings s)) w a))
    \<and> rg_state (apply_all now later (snd (reset_to_baseline now w a))) = HEALTHY
    \<and> rg_score (apply_all now later (snd (reset_to_baseline now w a)))
        = score_findings (filter (\<lambda>f. active_status (f_status f)) later)"
proof -
  have wf: "findings_wf s" using record_batches_wf [OF findings_wf_empty] assms(1) by simp
  let ?b = "wm_evidence_sequence w"
  let ?r = "snd (reset_to_baseline now w a)"
  have n: "map f_sequence (findings_of s aid) = [1..<Suc (get_agent_sequence s aid)]"
    using wf by (simp add: findings_wf_def)
  then have len: "length (findings_of s aid) = get_agent_sequence s aid"
    by (metis diff_Suc_1 length_map length_upt)
  have seqs: "map f_sequence later = [Suc ?b..<Suc ?b + length later]"
    unfolding later_def drop_map [symmetric] n length_drop len using assms(3) by (simp add: drop_upt del: upt_Suc)
  have r: "aggregate_inv ?r" "rg_agent_id ?r = aid" "rg_last_applied ?r = ?b" "rg_baseline_at ?r = wm_baseline_at w"
    using aggregate_inv_reset [of now w a "fst (reset_to_baseline now w a)" ?r] assms(2)
    by (simp_all add: reset_to_baseline_def Let_def)
  have "\<forall>f\<in>set later. f_agent_id f = aid"
    by (auto simp: later_def findings_of_def dest: in_set_dropD)
  with apply_all_summary [OF r(1) reset_summary, of later now] r(2-4) seqs assms(4)
  have inc: "projection (apply_all now later ?r) = projection (summary later ?r)" by (simp add: later_def)
  have post: "post_baseline (rg_agent_id a) w (dvals (fs_findings s)) = later"
    unfolding later_def assms(2) by (rule store_post_baseline [OF wf]) (use assms(4) in simp)
  have eq: "projection (apply_all now later ?r) = projection (snd (rebuild_from_findings now2 (dvals (fs_findings s)) w a))"
    unfolding inc by (rule rebuild_summary [OF post seqs, symmetric])
  have fields: "rg_state (projection x) = rg_state x" "rg_score (projection x) = rg_score x" for x
    by (simp_all add: projection_def)
  have "rg_state (snd (rebuild_from_findings now2 (dvals (fs_findings s)) w a)) = HEALTHY
      \<and> rg_score (snd (rebuild_from_findings now2 (dvals (fs_findings s)) w a)) = score_findings (filter (\<lambda>f. active_status (f_status f)) later)"
    using rebuild_result [of now2 "dvals (fs_findings s)" w a "fst (rebuild_from_findings now2 (dvals (fs_findings s)) w a)"
        "snd (rebuild_from_findings now2 (dvals (fs_findings s)) w a)"] post by simp
  with eq fields show ?thesis by metis
qed

theorem projection_equivalence_witness:
  "rg_score (apply_all 6 (drop 1 (findings_of ex_store ''a'')) (snd (reset_to_baseline 6 ex_watermark ex_aggregate))) = 100"
proof -
  have c: "rg_agent_id ex_aggregate = ''a''" "wm_evidence_sequence ex_watermark \<le> get_agent_sequence ex_store ''a''"
    "\<forall>f\<in>set (drop (wm_evidence_sequence ex_watermark) (findings_of ex_store ''a'')).
       \<not> at_or_before_baseline (wm_baseline_at ex_watermark) f"
    "score_findings (filter (\<lambda>f. active_status (f_status f)) (drop 1 (findings_of ex_store ''a''))) = 100"
    by code_simp+
  from projection_equivalence [OF ex_store_def c(1-3), of 6] c(4) show ?thesis
    by (simp add: ex_watermark_def)
qed

text \<open>
  (C24) A healthy posture has missed nothing: whatever findings are offered, in whatever order, if the
  projection is still HEALTHY its cursor has reached every finding offered for the agent; after
  a gap or a boundary anomaly it is STALE, and no later finding makes it HEALTHY again.
\<close>

theorem healthy_posture_missed_nothing:
  assumes "aggregate_inv a"
  shows "(rg_state (apply_all now fs a) = HEALTHY \<longrightarrow>
           (\<forall>f\<in>set fs. f_agent_id f = rg_agent_id a \<longrightarrow> f_sequence f \<le> rg_last_applied (apply_all now fs a)))
    \<and> (\<forall>f. f_agent_id f = rg_agent_id a \<and> Suc (rg_last_applied a) < f_sequence f \<longrightarrow>
           rg_state (apply_all now (f # fs) a) = STALE)"
proof -
  have "rg_state (apply_all now (f # fs) a) = STALE"
    if f: "f_agent_id f = rg_agent_id a" "Suc (rg_last_applied a) < f_sequence f" for f
  proof -
    let ?a = "snd (apply_finding now f a)"
    have "rg_state ?a = STALE"
      using apply_cases [OF assms, of now f "fst (apply_finding now f a)" ?a] f by (auto simp: fits_def)
    moreover have "aggregate_inv ?a"
      using aggregate_inv_apply [OF assms, of now f "fst (apply_finding now f a)" ?a] by simp
    ultimately show ?thesis
      using apply_all_healthy [of ?a now fs] by (simp add: apply_all_Cons)
  qed
  then show ?thesis using apply_all_healthy [OF assms] by blast
qed

theorem healthy_posture_missed_nothing_witness:
  "rg_state (apply_all 6 [(ex_finding ''q'')\<lparr>f_sequence := 9\<rparr>, (ex_finding ''r'')\<lparr>f_sequence := 2, f_created_at := 8\<rparr>] ex_aggregate) = STALE"
proof -
  have e: "new_aggregate 0 ex_watermark None = Inr ex_aggregate"
    by (simp add: ex_aggregate_def new_aggregate_def assert_cursor_invariant_def Let_def)
  have "f_agent_id ((ex_finding ''q'')\<lparr>f_sequence := 9\<rparr>) = rg_agent_id ex_aggregate"
    "Suc (rg_last_applied ex_aggregate) < f_sequence ((ex_finding ''q'')\<lparr>f_sequence := 9\<rparr>)" by code_simp+
  with healthy_posture_missed_nothing [OF aggregate_inv_new [OF e], of 6 "[(ex_finding ''r'')\<lparr>f_sequence := 2, f_created_at := 8\<rparr>]"]
  show ?thesis by blast
qed

text \<open>
  The posture of an agent can always be read, and is coherent: after any sequence of ingest, stale,
  reconcile and reset operations the cursor is not before the baseline, so the snapshot never
  fails, and its level is that of its score.
\<close>

theorem posture_always_coherent:
  "\<exists>p. get_posture now (run_ops aggregator_exec xs (new_aggregator v)) aid = Inr p
      \<and> po_baseline_sequence p \<le> po_last_applied p \<and> po_risk_level p = level_for_score (po_risk_score p)"
proof (cases "dget (ra_projections (run_ops aggregator_exec xs (new_aggregator v))) aid")
  case None
  then show ?thesis by (simp add: get_posture_def uninitialized_posture_def)
next
  case (Some a)
  with aggregator_runs_inv [of xs v] have "aggregate_inv a" by (auto simp: aggregator_inv_def)
  with Some show ?thesis
    by (simp add: get_posture_def snapshot_def assert_cursor_invariant_def aggregate_inv_def)
qed

end
