(* ===== verification/Tools.thy ===== *)
theory Tools
  imports Interfaces
begin

section \<open>Declared tools and the tool registry\<close>

text \<open>
  The tool metadata of \<^verbatim>\<open>app/models/tool*.py\<close>, the declarative tool service
  (\<^verbatim>\<open>app/services/tool_service.py\<close> over
  \<^verbatim>\<open>app/repositories/in_memory/tool_repository.py\<close>) and the registry of executable tools
  (\<^verbatim>\<open>app/registry/tool_registry.py\<close>). A registered Python object is represented by the name
  of its class and its metadata (\<open>None\<close> when the attribute is missing or null); a
  factory by the result of calling it on its keyword arguments.
\<close>

subsection \<open>Metadata\<close>

datatype tool_risk_level = TR_LOW | TR_MEDIUM | TR_HIGH | TR_CRITICAL

fun tool_severity :: "tool_risk_level \<Rightarrow> nat" where
  "tool_severity TR_LOW = 0"
| "tool_severity TR_MEDIUM = 1"
| "tool_severity TR_HIGH = 2"
| "tool_severity TR_CRITICAL = 3"

record tool_identity =
  ti_tool_id :: string
  ti_name :: string
  ti_version :: string
  ti_description :: string

record tool_governance =
  tg_risk_level :: tool_risk_level
  tg_required_permissions :: "string list"
  tg_owner :: "string option"
  tg_approval_required :: bool

record tool_capability =
  tc_category :: string
  tc_reads_files :: bool
  tc_writes_files :: bool
  tc_network_access :: bool
  tc_internet_access :: bool
  tc_database_access :: bool
  tc_shell_access :: bool

record tool_operational =
  top_enabled :: bool
  top_timeout_seconds :: nat
  top_supports_streaming :: bool

record tool_metadata =
  md_identity :: tool_identity
  md_governance :: tool_governance
  md_capability :: tool_capability
  md_operational :: tool_operational

record tool =
  tl_metadata :: tool_metadata

definition tool_key :: "tool \<Rightarrow> string \<times> string" where
  "tool_key t = (ti_tool_id (md_identity (tl_metadata t)), ti_version (md_identity (tl_metadata t)))"

definition tool_risk :: "tool \<Rightarrow> tool_risk_level" where
  "tool_risk t = tg_risk_level (md_governance (tl_metadata t))"

definition tool_enabled :: "tool \<Rightarrow> bool" where
  "tool_enabled t = top_enabled (md_operational (tl_metadata t))"

definition required_permission :: "tool \<Rightarrow> string" where
  "required_permission t =
     (case tg_required_permissions (md_governance (tl_metadata t)) of [] \<Rightarrow> [] | p # _ \<Rightarrow> p)"

record tool_family_governance =
  fg_tool_id :: string
  fg_risk_level :: tool_risk_level

subsection \<open>The declarative tool service\<close>

type_synonym tool_repo = "(string \<times> string, tool) dict"

definition tool_repo_save :: "tool \<Rightarrow> tool_repo \<Rightarrow> tool_repo" where
  "tool_repo_save t r = dset (tool_key t) t r"

definition tool_repo_list_versions :: "tool_repo \<Rightarrow> string \<Rightarrow> tool list" where
  "tool_repo_list_versions r tid = map snd (filter (\<lambda>((family, _), t). family = tid) r)"

definition register_tool :: "tool \<Rightarrow> (tool_repo, tool) eff" where
  "register_tool t r =
     (if dget r (tool_key t) \<noteq> None then (Inl ToolAlreadyExistsError, r)
      else (Inr t, tool_repo_save t r))"

definition get_tool :: "tool_repo \<Rightarrow> string \<Rightarrow> string \<Rightarrow> tool res" where
  "get_tool r tid ver = (case dget r (tid, ver) of None \<Rightarrow> Inl ToolNotFoundError | Some t \<Rightarrow> Inr t)"

definition list_versions :: "tool_repo \<Rightarrow> string \<Rightarrow> tool list" where
  "list_versions r tid = tool_repo_list_versions r tid"

definition family_exists :: "tool_repo \<Rightarrow> string \<Rightarrow> bool" where
  "family_exists r tid \<longleftrightarrow> tool_repo_list_versions r tid \<noteq> []"

text \<open>Python's \<^verbatim>\<open>max(levels, key=severity)\<close>: the first element of greatest key.\<close>

fun max_severity :: "tool_risk_level \<Rightarrow> tool_risk_level list \<Rightarrow> tool_risk_level" where
  "max_severity m [] = m"
| "max_severity m (x # xs) = max_severity (if tool_severity m < tool_severity x then x else m) xs"

definition get_family_governance :: "tool_repo \<Rightarrow> string \<Rightarrow> tool_family_governance res" where
  "get_family_governance r tid =
     (case map tool_risk (tool_repo_list_versions r tid) of
        [] \<Rightarrow> Inl ToolNotFoundError
      | x # xs \<Rightarrow> Inr \<lparr>fg_tool_id = tid, fg_risk_level = max_severity x xs\<rparr>)"

definition list_tools :: "tool_repo \<Rightarrow> tool list" where
  "list_tools r = dvals r"

definition with_enabled :: "bool \<Rightarrow> tool \<Rightarrow> tool" where
  "with_enabled b t =
     t\<lparr>tl_metadata := (tl_metadata t)\<lparr>md_operational := (md_operational (tl_metadata t))\<lparr>top_enabled := b\<rparr>\<rparr>\<rparr>"

definition disable_tool :: "string \<Rightarrow> string \<Rightarrow> (tool_repo, tool) eff" where
  "disable_tool tid ver r =
     (case get_tool r tid ver of
        Inl e \<Rightarrow> (Inl e, r)
      | Inr t \<Rightarrow> (Inr (with_enabled False t), tool_repo_save (with_enabled False t) r))"

definition enable_tool :: "string \<Rightarrow> string \<Rightarrow> (tool_repo, tool) eff" where
  "enable_tool tid ver r =
     (case get_tool r tid ver of
        Inl e \<Rightarrow> (Inl e, r)
      | Inr t \<Rightarrow> (Inr (with_enabled True t), tool_repo_save (with_enabled True t) r))"

subsection \<open>The registry of executable tools\<close>

record base_tool =
  bt_class :: string
  bt_metadata :: "tool_metadata option"

type_synonym tool_factory = "(string \<times> string) list \<Rightarrow> base_tool res"

datatype registration_state = TOOL_REGISTERED | TOOL_UNREGISTERED | TOOL_DEPRECATED

record descriptor =
  td_metadata :: tool_metadata
  td_instance :: "base_tool option"
  td_factory :: "tool_factory option"
  td_tool_class :: "string option"
  td_implementation_id :: "string option"
  td_enabled :: bool
  td_registration_state :: registration_state

definition td_tool_id :: "descriptor \<Rightarrow> string" where
  "td_tool_id d = ti_tool_id (md_identity (td_metadata d))"

definition td_version :: "descriptor \<Rightarrow> string" where
  "td_version d = ti_version (md_identity (td_metadata d))"

type_synonym tool_registry = "(string, (string, descriptor) dict) dict"

definition validate_tool_metadata :: "base_tool \<Rightarrow> tool_metadata res" where
  "validate_tool_metadata t =
     (case bt_metadata t of
        None \<Rightarrow> Inl ToolMetadataValidationError
      | Some md \<Rightarrow>
          if is_blank (ti_tool_id (md_identity md)) then Inl ToolMetadataValidationError
          else if is_blank (ti_name (md_identity md)) then Inl ToolMetadataValidationError
          else Inr md)"

definition add_descriptor :: "string \<Rightarrow> descriptor \<Rightarrow> tool_registry \<Rightarrow> tool_registry" where
  "add_descriptor tid d reg = dset tid (dset (td_version d) d (get_or reg tid [])) reg"

definition instance_descriptor :: "base_tool \<Rightarrow> tool_metadata \<Rightarrow> string option \<Rightarrow> descriptor" where
  "instance_descriptor t md impl =
     \<lparr>td_metadata = md, td_instance = Some t, td_factory = None, td_tool_class = Some (bt_class t),
      td_implementation_id = impl, td_enabled = True, td_registration_state = TOOL_REGISTERED\<rparr>"

definition register :: "base_tool \<Rightarrow> string option \<Rightarrow> (tool_registry, base_tool) eff" where
  "register t impl reg =
     (case validate_tool_metadata t of
        Inl e \<Rightarrow> (Inl e, reg)
      | Inr md \<Rightarrow>
          let d = instance_descriptor t md impl
          in if dget (get_or reg (td_tool_id d) []) (td_version d) \<noteq> None
             then (Inl DuplicateToolRegistrationError, reg)
             else (Inr t, add_descriptor (td_tool_id d) d reg))"

definition factory_metadata :: "tool_factory \<Rightarrow> tool_metadata option \<Rightarrow> tool_metadata res" where
  "factory_metadata factory md =
     (case md of Some m \<Rightarrow> Inr m | None \<Rightarrow> res_bind (factory []) validate_tool_metadata)"

definition register_factory ::
  "string \<Rightarrow> tool_factory \<Rightarrow> tool_metadata option \<Rightarrow> (tool_registry, unit) eff" where
  "register_factory tid factory md reg =
     (if is_blank tid then (Inl ValueError, reg)
      else case factory_metadata factory md of
             Inl e \<Rightarrow> (Inl e, reg)
           | Inr m \<Rightarrow>
               let d = \<lparr>td_metadata = m, td_instance = None, td_factory = Some factory,
                        td_tool_class = None, td_implementation_id = None, td_enabled = True,
                        td_registration_state = TOOL_REGISTERED\<rparr>
               in if dget (get_or reg tid []) (td_version d) \<noteq> None
                  then (Inl DuplicateToolRegistrationError, reg)
                  else (Inr (), add_descriptor tid d reg))"

definition match_version :: "string \<Rightarrow> string \<Rightarrow> bool" where
  "match_version actual requested \<longleftrightarrow> strip actual = strip requested"

definition resolve :: "tool_registry \<Rightarrow> string \<Rightarrow> string option \<Rightarrow> descriptor res" where
  "resolve reg tid version =
     (case get_or reg tid [] of
        [] \<Rightarrow> Inl ToolNotRegisteredError
      | vs \<Rightarrow>
          (case version of
             Some v \<Rightarrow>
               (case find (\<lambda>(rv, d). match_version rv v) vs of
                  Some (_, d) \<Rightarrow> Inr d
                | None \<Rightarrow> Inl ToolVersionMismatchError)
           | None \<Rightarrow>
               if length vs > 1 then Inl AmbiguousToolVersionError else Inr (snd (hd vs))))"

definition instantiate :: "descriptor \<Rightarrow> (string \<times> string) list \<Rightarrow> base_tool res" where
  "instantiate d kwargs =
     (if \<not> td_enabled d then Inl ToolDisabledError
      else case td_instance d of
             Some t \<Rightarrow> Inr t
           | None \<Rightarrow>
               (case td_factory d of
                  Some f \<Rightarrow> f kwargs
                | None \<Rightarrow> Inl (ToolExecutionError False)))"

definition registry_get :: "tool_registry \<Rightarrow> string \<Rightarrow> string option \<Rightarrow> base_tool res" where
  "registry_get reg tid version = res_bind (resolve reg tid version) (\<lambda>d. instantiate d [])"

definition create_tool :: "tool_registry \<Rightarrow> string \<Rightarrow> (string \<times> string) list \<Rightarrow> base_tool res" where
  "create_tool reg tid kwargs = res_bind (resolve reg tid None) (\<lambda>d. instantiate d kwargs)"

definition registry_exists :: "tool_registry \<Rightarrow> string \<Rightarrow> bool" where
  "registry_exists reg tid \<longleftrightarrow> get_or reg tid [] \<noteq> []"

definition unregister :: "string \<Rightarrow> string option \<Rightarrow> (tool_registry, unit) eff" where
  "unregister tid version reg =
     (if get_or reg tid [] = [] then (Inl ToolNotRegisteredError, reg)
      else case version of
             None \<Rightarrow> (Inr (), ddel tid reg)
           | Some v \<Rightarrow>
               if dget (get_or reg tid []) v = None then (Inl ToolNotRegisteredError, reg)
               else let rest = ddel v (get_or reg tid [])
                    in (Inr (), if rest = [] then ddel tid reg else dset tid rest reg))"

definition clear_registry :: "tool_registry \<Rightarrow> tool_registry" where
  "clear_registry reg = []"

definition list_descriptors :: "tool_registry \<Rightarrow> descriptor list" where
  "list_descriptors reg = concat (map dvals (dvals reg))"

definition list_tool_ids :: "tool_registry \<Rightarrow> string set" where
  "list_tool_ids reg = set (dkeys reg)"

definition registry_list_tools :: "tool_registry \<Rightarrow> base_tool list" where
  "registry_list_tools reg =
     List.map_filter (\<lambda>d. if td_enabled d then td_instance d else None) (list_descriptors reg)"

definition discover_tools :: "tool_registry \<Rightarrow> tool_metadata list" where
  "discover_tools reg = map td_metadata (filter td_enabled (list_descriptors reg))"

subsection \<open>Family governance\<close>

lemma tool_severity_inj: "tool_severity x = tool_severity y \<Longrightarrow> x = y"
  by (cases x; cases y) simp_all

lemma max_severity_ge: "tool_severity m \<le> tool_severity (max_severity m xs)"
  by (induction xs arbitrary: m) (auto, (meson less_imp_le_nat order_trans)+)

lemma max_severity_upper: "x \<in> set (m # xs) \<Longrightarrow> tool_severity x \<le> tool_severity (max_severity m xs)"
proof (induction xs arbitrary: m)
  case (Cons y ys)
  let ?n = "if tool_severity m < tool_severity y then y else m"
  have "tool_severity m \<le> tool_severity ?n" "tool_severity y \<le> tool_severity ?n" by auto
  with Cons.prems Cons.IH [of ?n] max_severity_ge [of ?n ys] show ?case
    by (auto simp del: if_split intro: order_trans)
qed simp

lemma max_severity_mem: "max_severity m xs \<in> set (m # xs)"
proof (induction xs arbitrary: m)
  case (Cons y ys)
  then show ?case using Cons.IH [of y] Cons.IH [of m] by auto
qed simp

lemma family_risk_spec:
  assumes "get_family_governance r tid = Inr g"
  shows "fg_tool_id g = tid
     \<and> (\<exists>t\<in>set (list_versions r tid). tool_risk t = fg_risk_level g)
     \<and> (\<forall>t\<in>set (list_versions r tid). tool_severity (tool_risk t) \<le> tool_severity (fg_risk_level g))"
proof -
  obtain x xs where v: "map tool_risk (tool_repo_list_versions r tid) = x # xs"
    and g: "g = \<lparr>fg_tool_id = tid, fg_risk_level = max_severity x xs\<rparr>"
    using assms by (auto simp: get_family_governance_def split: list.splits)
  have "set (x # xs) = tool_risk ` set (list_versions r tid)"
    by (simp add: list_versions_def flip: v)
  then have "\<And>t. t \<in> set (list_versions r tid) \<Longrightarrow> tool_risk t \<in> set (x # xs)"
    and "\<exists>t\<in>set (list_versions r tid). max_severity x xs = tool_risk t"
    using max_severity_mem [of x xs] by (auto simp del: list.set)
  with max_severity_upper [of _ x xs] show ?thesis
    by (simp add: g del: list.set) metis
qed

lemma family_governance_returns: "family_exists r tid \<longleftrightarrow> (\<exists>g. get_family_governance r tid = Inr g)"
  by (auto simp: family_exists_def get_family_governance_def split: list.splits)

lemma with_enabled_simps [simp]:
  "tool_key (with_enabled b t) = tool_key t" "tool_risk (with_enabled b t) = tool_risk t"
  "tool_enabled (with_enabled b t) = b"
  by (simp_all add: with_enabled_def tool_key_def tool_risk_def tool_enabled_def)

definition tool_repo_wf :: "tool_repo \<Rightarrow> bool" where
  "tool_repo_wf r \<longleftrightarrow> distinct (dkeys r) \<and> (\<forall>(k, t)\<in>set r. tool_key t = k)"

lemma set_dset: "set (dset k v d) \<subseteq> insert (k, v) (set d)"
  by (induction d) auto

lemma tool_repo_wf_save [intro]: "tool_repo_wf r \<Longrightarrow> tool_repo_wf (tool_repo_save t r)"
  using set_dset [of "tool_key t" t r] by (auto simp: tool_repo_wf_def tool_repo_save_def)

lemma tool_repo_wf_ops:
  assumes "tool_repo_wf r"
  shows "tool_repo_wf (snd (register_tool t r))" "tool_repo_wf (snd (disable_tool tid ver r))"
    "tool_repo_wf (snd (enable_tool tid ver r))"
  using assms by (auto simp: register_tool_def disable_tool_def enable_tool_def split: sum.splits)

lemma versions_after_toggle:
  assumes "dget r k = Some t" and "tool_risk t' = tool_risk t"
  shows "map tool_risk (tool_repo_list_versions (dset k t' r) tid)
         = map tool_risk (tool_repo_list_versions r tid)"
  using assms by (induction r) (auto simp: tool_repo_list_versions_def split: if_splits)

lemma governance_cong:
  assumes "map tool_risk (tool_repo_list_versions r' tid) = map tool_risk (tool_repo_list_versions r tid)"
  shows "family_exists r' tid = family_exists r tid \<and> get_family_governance r' tid = get_family_governance r tid"
proof -
  have "tool_repo_list_versions r' tid = [] \<longleftrightarrow> tool_repo_list_versions r tid = []"
    using arg_cong [OF assms, of length] by (simp flip: length_0_conv)
  with assms show ?thesis by (simp add: family_exists_def get_family_governance_def)
qed

lemma toggle_result:
  assumes "tool_repo_wf r" and "get_tool r tid ver = Inr t"
  shows "dget r (tid, ver) = Some t" "tool_key t = (tid, ver)"
  using assms by (auto simp: get_tool_def tool_repo_wf_def dest!: map_of_SomeD split: option.splits)

text \<open>
  Disabling a concrete version of a tool is an operational action and never an
  authorization one. When it returns, that version reads as disabled, every other version of
  every family is exactly as it was, and what authorization consults (whether a family
  exists, and the governance it projects) is unchanged for every family. The projected risk of
  a family is the most restrictive one among its registered versions, disabled ones included.
\<close>

theorem disablement_is_not_revocation:
  assumes wf: "tool_repo_wf r" and run: "disable_tool tid ver r = (Inr t', r')"
  shows "(\<exists>t. get_tool r' tid ver = Inr t \<and> \<not> tool_enabled t)
     \<and> (\<forall>k. k \<noteq> (tid, ver) \<longrightarrow> get_tool r' (fst k) (snd k) = get_tool r (fst k) (snd k))
     \<and> (\<forall>fam. family_exists r' fam = family_exists r fam
            \<and> get_family_governance r' fam = get_family_governance r fam)
     \<and> (\<forall>fam g. get_family_governance r' fam = Inr g \<longrightarrow>
            (\<exists>t\<in>set (list_versions r' fam). tool_risk t = fg_risk_level g)
            \<and> (\<forall>t\<in>set (list_versions r' fam). tool_severity (tool_risk t) \<le> tool_severity (fg_risk_level g)))"
proof -
  obtain t where g: "get_tool r tid ver = Inr t" and r': "r' = tool_repo_save (with_enabled False t) r"
    using run by (auto simp: disable_tool_def split: sum.splits)
  note k = toggle_result [OF wf g]
  have rd: "r' = dset (tid, ver) (with_enabled False t) r"
    by (simp add: r' tool_repo_save_def k(2))
  have gov: "\<forall>fam. family_exists r' fam = family_exists r fam
            \<and> get_family_governance r' fam = get_family_governance r fam"
    unfolding rd by (intro allI governance_cong versions_after_toggle [OF k(1)] with_enabled_simps)
  have upd: "get_tool r' tid ver = Inr (with_enabled False t)"
    by (simp add: rd get_tool_def)
  have frame: "\<forall>k. k \<noteq> (tid, ver) \<longrightarrow> get_tool r' (fst k) (snd k) = get_tool r (fst k) (snd k)"
    by (auto simp: rd get_tool_def)
  have spec: "(\<exists>t\<in>set (list_versions r' fam). tool_risk t = fg_risk_level g)
      \<and> (\<forall>t\<in>set (list_versions r' fam). tool_severity (tool_risk t) \<le> tool_severity (fg_risk_level g))"
    if "get_family_governance r' fam = Inr g" for fam g
    by (rule family_risk_spec [OF that, THEN conjunct2])
  show ?thesis
  proof (intro conjI)
    show "\<exists>t. get_tool r' tid ver = Inr t \<and> \<not> tool_enabled t"
      by (simp add: upd)
  qed (use frame gov spec in blast)+
qed

definition ex_metadata :: "string \<Rightarrow> string \<Rightarrow> tool_risk_level \<Rightarrow> tool_metadata" where
  "ex_metadata tid ver lvl =
     \<lparr>md_identity = \<lparr>ti_tool_id = tid, ti_name = ''tool'', ti_version = ver, ti_description = []\<rparr>,
      md_governance = \<lparr>tg_risk_level = lvl, tg_required_permissions = [], tg_owner = None, tg_approval_required = False\<rparr>,
      md_capability = \<lparr>tc_category = ''files'', tc_reads_files = True, tc_writes_files = False,
        tc_network_access = False, tc_internet_access = False, tc_database_access = False, tc_shell_access = False\<rparr>,
      md_operational = \<lparr>top_enabled = True, top_timeout_seconds = 30, top_supports_streaming = False\<rparr>\<rparr>"

definition ex_repo :: tool_repo where
  "ex_repo = snd (register_tool \<lparr>tl_metadata = ex_metadata ''f'' ''2'' TR_CRITICAL\<rparr>
               (snd (register_tool \<lparr>tl_metadata = ex_metadata ''f'' ''1'' TR_LOW\<rparr> [])))"

theorem disablement_is_not_revocation_witness:
  "get_family_governance (snd (disable_tool ''f'' ''2'' ex_repo)) ''f''
     = Inr \<lparr>fg_tool_id = ''f'', fg_risk_level = TR_CRITICAL\<rparr>"
proof -
  have "tool_repo_wf ex_repo"
    unfolding ex_repo_def by (intro tool_repo_wf_ops) (simp add: tool_repo_wf_def)
  moreover obtain t' r' where run: "disable_tool ''f'' ''2'' ex_repo = (Inr t', r')"
    by (simp add: ex_repo_def ex_metadata_def register_tool_def tool_repo_save_def tool_key_def
        disable_tool_def get_tool_def)
  ultimately have "get_family_governance r' ''f'' = get_family_governance ex_repo ''f''"
    using disablement_is_not_revocation by blast
  moreover have "get_family_governance ex_repo ''f'' = Inr \<lparr>fg_tool_id = ''f'', fg_risk_level = TR_CRITICAL\<rparr>"
    by (simp add: ex_repo_def ex_metadata_def register_tool_def tool_repo_save_def tool_key_def
        get_family_governance_def tool_repo_list_versions_def tool_risk_def)
  ultimately show ?thesis by (simp add: run)
qed

subsection \<open>Resolution\<close>

definition registry_wf :: "tool_registry \<Rightarrow> bool" where
  "registry_wf reg \<longleftrightarrow>
     distinct (dkeys reg)
     \<and> (\<forall>tid vs. dget reg tid = Some vs \<longrightarrow> vs \<noteq> [] \<and> distinct (dkeys vs)
            \<and> (\<forall>v d. dget vs v = Some d \<longrightarrow> td_version d = v))"

definition registered :: "tool_registry \<Rightarrow> string \<Rightarrow> string \<Rightarrow> descriptor option" where
  "registered reg tid v = dget (get_or reg tid []) v"

lemma registry_wf_inner: "registry_wf reg \<Longrightarrow> distinct (dkeys (get_or reg tid []))"
  by (auto simp: registry_wf_def get_or_def split: option.splits)

lemma dset_nonempty [simp]: "dset k v d \<noteq> []"
  by (cases d) (auto split: prod.splits)

lemma add_descriptor_wf:
  assumes wf: "registry_wf reg"
  shows "registry_wf (add_descriptor tid d reg)"
proof -
  have "td_version d' = v" if "dget (get_or reg tid []) v = Some d'" for v d'
    using wf that by (auto simp: registry_wf_def get_or_def split: option.splits)
  with wf registry_wf_inner [OF wf, of tid] show ?thesis
    by (auto simp: registry_wf_def add_descriptor_def)
qed

lemma add_descriptor_registered:
  "registered (add_descriptor tid d reg) t v =
     (if t = tid \<and> v = td_version d then Some d else registered reg t v)"
  by (auto simp: registered_def add_descriptor_def)

lemma delete_version_wf:
  assumes "registry_wf reg" and "dget reg tid = Some vs" and "ddel v vs \<noteq> []"
  shows "registry_wf (dset tid (ddel v vs) reg)"
  using assms by (auto simp: registry_wf_def split: if_splits)

lemma registry_wf_ops:
  assumes "registry_wf reg"
  shows "registry_wf (snd (register t impl reg))" "registry_wf (snd (register_factory tid fac md reg))"
    "registry_wf (snd (unregister tid ver reg))"
proof -
  show "registry_wf (snd (register t impl reg))" "registry_wf (snd (register_factory tid fac md reg))"
    using assms by (auto simp: register_def register_factory_def Let_def add_descriptor_wf split: sum.splits)
  have "registry_wf (ddel tid reg)"
    using assms by (auto simp: registry_wf_def split: if_splits)
  with assms show "registry_wf (snd (unregister tid ver reg))"
    by (auto simp: unregister_def Let_def get_or_def delete_version_wf split: option.splits)
qed

lemma same_entries:
  assumes "distinct (dkeys xs)" "distinct (dkeys ys)" "\<And>k. dget xs k = dget ys k"
  shows "set xs = set ys" "length xs = length ys"
proof -
  have "(k, v) \<in> set xs \<longleftrightarrow> (k, v) \<in> set ys" for k v
    using map_of_eq_Some_iff [OF assms(1), of k v] map_of_eq_Some_iff [OF assms(2), of k v] assms(3) [of k]
    by metis
  then show s: "set xs = set ys" by auto
  have "distinct xs" "distinct ys" using assms(1,2) by (auto simp: distinct_map)
  with s show "length xs = length ys" by (metis distinct_card)
qed

lemma find_unique:
  assumes "set xs = set ys" and "\<And>a b. a \<in> set xs \<Longrightarrow> b \<in> set xs \<Longrightarrow> P a \<Longrightarrow> P b \<Longrightarrow> a = b"
  shows "find P xs = find P ys"
proof (cases "find P xs")
  case None
  with assms show ?thesis by (metis find_None_iff)
next
  case (Some a)
  then have "a \<in> set xs" "P a" by (auto simp: find_Some_iff)
  with assms obtain b where b: "find P ys = Some b" by (metis find_None_iff option.exhaust)
  then have "b \<in> set xs" "P b" using assms(1) by (auto simp: find_Some_iff)
  with \<open>a \<in> set xs\<close> \<open>P a\<close> assms(2) Some b show ?thesis by auto
qed

text \<open>
  What resolution depends on: the registered versions of the family, when no two of them are the
  same up to surrounding white space.
\<close>

definition versions_separated :: "tool_registry \<Rightarrow> string \<Rightarrow> bool" where
  "versions_separated reg tid \<longleftrightarrow>
     (\<forall>v w. registered reg tid v \<noteq> None \<longrightarrow> registered reg tid w \<noteq> None \<longrightarrow> strip v = strip w \<longrightarrow> v = w)"

lemma resolve_if:
  "resolve reg tid w =
     (let vs = get_or reg tid []
      in if vs = [] then Inl ToolNotRegisteredError
         else case w of
                Some v \<Rightarrow> (case find (\<lambda>(rv, d). match_version rv v) vs of
                             Some p \<Rightarrow> Inr (snd p) | None \<Rightarrow> Inl ToolVersionMismatchError)
              | None \<Rightarrow> if length vs > 1 then Inl AmbiguousToolVersionError else Inr (snd (hd vs)))"
  unfolding resolve_def Let_def by (cases "get_or reg tid []") (auto split: option.splits)

lemma resolve_cong:
  assumes wf: "registry_wf reg" "registry_wf reg'"
    and same: "\<And>v. registered reg tid v = registered reg' tid v"
    and sep: "versions_separated reg tid"
  shows "resolve reg tid w = resolve reg' tid w"
proof -
  let ?xs = "get_or reg tid []" and ?ys = "get_or reg' tid []"
  note d = registry_wf_inner [OF wf(1), of tid] registry_wf_inner [OF wf(2), of tid]
  have same': "\<And>k. dget ?xs k = dget ?ys k" using same by (simp add: registered_def)
  note e = same_entries [OF d same']
  have find: "find (\<lambda>(rv, d). match_version rv v) ?xs = find (\<lambda>(rv, d). match_version rv v) ?ys" for v
  proof (rule find_unique [OF e(1)])
    fix a b assume "a \<in> set ?xs" "b \<in> set ?xs"
      and m: "case a of (rv, d) \<Rightarrow> match_version rv v" "case b of (rv, d) \<Rightarrow> match_version rv v"
    then have ab: "dget ?xs (fst a) = Some (snd a)" "dget ?xs (fst b) = Some (snd b)"
      using d(1) by (auto simp: map_of_eq_Some_iff)
    from m have "strip (fst a) = strip (fst b)"
      by (auto simp: match_version_def split: prod.splits)
    with ab have "fst a = fst b"
      using sep by (simp add: versions_separated_def registered_def)
    with ab show "a = b"
      by (simp add: prod_eq_iff)
  qed
  have one: "hd ?xs = hd ?ys" if "\<not> 1 < length ?xs"
    using that e by (cases ?xs; cases ?ys) auto
  have "?xs = [] \<longleftrightarrow> ?ys = []" using e(1) by auto
  with e(2) one show ?thesis
    by (simp add: resolve_if Let_def find split: option.splits)
qed

text \<open>Registering a batch, in order; a refused registration is skipped.\<close>

definition register_all :: "(base_tool \<times> string option) list \<Rightarrow> tool_registry" where
  "register_all xs = fold (\<lambda>(t, impl) reg. snd (register t impl reg)) xs []"

definition registration_key :: "base_tool \<times> string option \<Rightarrow> string \<times> string" where
  "registration_key x =
     (case bt_metadata (fst x) of
        None \<Rightarrow> ([], [])
      | Some md \<Rightarrow> (ti_tool_id (md_identity md), ti_version (md_identity md)))"

definition registration_descriptor :: "base_tool \<times> string option \<Rightarrow> descriptor" where
  "registration_descriptor x = instance_descriptor (fst x) (the (bt_metadata (fst x))) (snd x)"

definition valid_registration :: "base_tool \<times> string option \<Rightarrow> bool" where
  "valid_registration x \<longleftrightarrow> (\<exists>md. validate_tool_metadata (fst x) = Inr md)"

lemma register_valid:
  assumes "valid_registration x" and "registered reg (fst (registration_key x)) (snd (registration_key x)) = None"
  shows "snd (register (fst x) (snd x) reg)
     = add_descriptor (fst (registration_key x)) (registration_descriptor x) reg"
    "td_version (registration_descriptor x) = snd (registration_key x)"
  using assms
  by (auto simp: register_def valid_registration_def validate_tool_metadata_def registration_key_def
      registration_descriptor_def registered_def Let_def instance_descriptor_def td_tool_id_def td_version_def
      split: option.splits if_splits)

lemma register_all_registered:
  assumes "\<forall>x\<in>set xs. valid_registration x" and "distinct (map registration_key xs)"
    and "\<forall>x\<in>set xs. registered reg (fst (registration_key x)) (snd (registration_key x)) = None"
  shows "registered (fold (\<lambda>(t, impl) reg. snd (register t impl reg)) xs reg) tid v =
    (case map_of (map (\<lambda>x. (registration_key x, registration_descriptor x)) xs) (tid, v) of
       Some d \<Rightarrow> Some d | None \<Rightarrow> registered reg tid v)"
  using assms
proof (induction xs arbitrary: reg)
  case Nil
  then show ?case by simp
next
  case (Cons x xs)
  have x: "snd (register (fst x) (snd x) reg)
      = add_descriptor (fst (registration_key x)) (registration_descriptor x) reg"
    "td_version (registration_descriptor x) = snd (registration_key x)"
    using register_valid [of x reg] Cons.prems by auto
  have fresh: "\<forall>y\<in>set xs. registered (add_descriptor (fst (registration_key x)) (registration_descriptor x) reg)
        (fst (registration_key y)) (snd (registration_key y)) = None"
    using Cons.prems by (auto simp: add_descriptor_registered x(2) prod_eq_iff image_iff)
  have notin: "map_of (map (\<lambda>x. (registration_key x, registration_descriptor x)) xs) (registration_key x) = None"
    using Cons.prems(2) by (auto simp: map_of_eq_None_iff image_iff)
  show ?case
    using Cons.IH [OF _ _ fresh] Cons.prems(1,2) notin x
    by (cases "(tid, v) = registration_key x")
       (auto simp: case_prod_beta add_descriptor_registered prod_eq_iff split: option.splits)
qed

lemma register_all_wf: "registry_wf (register_all xs)"
proof -
  have "registry_wf (fold (\<lambda>(t, impl) reg. snd (register t impl reg)) xs reg)" if "registry_wf reg" for reg
    using that by (induction xs arbitrary: reg) (auto simp: registry_wf_ops)
  moreover have "registry_wf []" by (simp add: registry_wf_def)
  ultimately show ?thesis unfolding register_all_def by blast
qed

lemma strip_key_inj:
  assumes "distinct (map (\<lambda>x. (fst (registration_key x), strip (snd (registration_key x)))) xs)"
  shows "distinct (map registration_key xs)"
  using assms by (induction xs) force+

text \<open>
  Which implementation a version resolves to does not depend on the order of registration: two
  registries filled with the same valid tools in different orders resolve every request alike, with
  or without a version, errors included, as long as no family has two versions that differ only in
  surrounding white space. With two such versions it does depend on the order, because the
  comparison strips both sides and the first registered one wins.
\<close>

theorem resolution_ignores_registration_order:
  assumes perm: "mset xs = mset ys"
    and valid: "\<forall>x\<in>set xs. valid_registration x"
    and dist: "distinct (map (\<lambda>x. (fst (registration_key x), strip (snd (registration_key x)))) xs)"
  shows "resolve (register_all xs) tid version = resolve (register_all ys) tid version"
proof (rule resolve_cong [OF register_all_wf register_all_wf])
  let ?m = "\<lambda>xs. map (\<lambda>x. (registration_key x, registration_descriptor x)) xs"
  have keys: "distinct (map registration_key xs)" "distinct (map registration_key ys)"
    using strip_key_inj [OF dist] mset_eq_imp_distinct_iff [of "map registration_key xs" "map registration_key ys"] perm
    by simp_all
  have reg: "registered (register_all zs) tid v = map_of (?m zs) (tid, v)"
    if "set zs = set xs" "distinct (map registration_key zs)" for zs v
    using register_all_registered [of zs "[]" tid v] that valid
    by (auto simp: register_all_def registered_def split: option.splits)
  have sets: "set xs = set ys" using perm by (rule mset_eq_setD)
  have "map_of (?m xs) = map_of (?m ys)"
    using keys perm by (intro map_of_inject_set [THEN iffD2]) (auto simp: o_def sets)
  then show "registered (register_all xs) tid v = registered (register_all ys) tid v" for v
    by (simp add: reg keys sets)
  have "\<exists>x\<in>set xs. registration_key x = (tid, v)" if "registered (register_all xs) tid v \<noteq> None" for v
    using that by (force simp: reg keys dest!: map_of_SomeD)
  moreover have "v = w"
    if "x \<in> set xs" "y \<in> set xs" "registration_key x = (tid, v)" "registration_key y = (tid, w)" "strip v = strip w"
    for x y v w
    using that dist by (auto simp: distinct_map inj_on_def)
  ultimately show "versions_separated (register_all xs) tid"
    unfolding versions_separated_def by meson
qed

definition ex_tool :: "string \<Rightarrow> base_tool \<times> string option" where
  "ex_tool ver = (\<lparr>bt_class = ''FileReadTool'', bt_metadata = Some (ex_metadata ''file_read'' ver TR_LOW)\<rparr>, Some ver)"

lemmas ex_registration = ex_tool_def ex_metadata_def valid_registration_def validate_tool_metadata_def
  registration_key_def is_blank_def strip_def is_space_def

theorem resolution_ignores_registration_order_witness:
  "resolve (register_all [ex_tool ''1'', ex_tool ''2'']) ''file_read'' (Some ''2'')
     = resolve (register_all [ex_tool ''2'', ex_tool ''1'']) ''file_read'' (Some ''2'')"
  by (rule resolution_ignores_registration_order) (simp_all add: ex_registration)

lemma white_space_versions_depend_on_order:
  "resolve (register_all [ex_tool ''1'', ex_tool ''1 '']) ''file_read'' (Some ''1'')
     \<noteq> resolve (register_all [ex_tool ''1 '', ex_tool ''1'']) ''file_read'' (Some ''1'')"
  by (simp add: ex_registration register_all_def register_def Let_def instance_descriptor_def
      add_descriptor_def td_tool_id_def td_version_def resolve_def match_version_def get_or_def)

end
