(* ===== verification/Detection.thy ===== *)
theory Detection
  imports Sessions Findings
begin

section \<open>Detection\<close>

text \<open>
  The content rules, registry and engine of \<^verbatim>\<open>app/detection/\<close> and the behavioural detector of
  \<^verbatim>\<open>app/services/detection_service.py\<close>. Finding identifiers are name based UUIDs: the hash
  \<^verbatim>\<open>uuid5(namespace, name)\<close> is the parameter \<open>uuid5\<close>, on the text of the namespace and the name.
\<close>

type_synonym uuid5 = "string \<Rightarrow> string \<Rightarrow> string"

definition namespace_url :: string where
  "namespace_url = ''6ba7b811-9dad-11d1-80b4-00c04fd430c8''"

text \<open>\<^verbatim>\<open>str(n)\<close> of a non-negative integer, and \<^verbatim>\<open>sep.join(parts)\<close>.\<close>

definition digit :: "nat \<Rightarrow> char" where
  "digit n = char_of (48 + n)"

fun decimal :: "nat \<Rightarrow> string" where
  "decimal n = (if n < 10 then [digit n] else decimal (n div 10) @ [digit (n mod 10)])"

declare decimal.simps [simp del]

fun join :: "string \<Rightarrow> string list \<Rightarrow> string" where
  "join sep [] = []"
| "join sep [x] = x"
| "join sep (x # y # ys) = x @ sep @ join sep (y # ys)"

subsection \<open>Content rules\<close>

datatype detection_category =
    PROMPT_SECURITY | DATA_SECURITY | TOOL_SECURITY | IDENTITY_SECURITY | BEHAVIORAL_SECURITY | POLICY_SECURITY

record detection_context =
  dc_session_id :: string
  dc_agent_id :: string
  dc_user_prompt :: string
  dc_model_output :: string
  dc_tool_output :: string
  dc_triggering_event_sequence :: nat
  dc_metadata :: "(string, string) dict"

definition text_inputs :: "detection_context \<Rightarrow> string list" where
  "text_inputs c = [dc_user_prompt c, dc_model_output c, dc_tool_output c]"

record detection_rule =
  dr_name :: string
  dr_category :: detection_category
  dr_evaluate :: "detection_context \<Rightarrow> finding list"

definition content_finding ::
  "string \<Rightarrow> string \<Rightarrow> detection_context \<Rightarrow> finding_category \<Rightarrow> string \<Rightarrow> finding" where
  "content_finding fid rule c cat description =
     \<lparr>f_id = fid, f_session_id = dc_session_id c, f_agent_id = dc_agent_id c, f_rule_id = rule,
      f_rule_name = rule, f_severity = SEV_HIGH, f_category = cat, f_status = FS_OPEN,
      f_description = description, f_created_at = 0, f_recorded_at = None,
      f_event_sequences = [dc_triggering_event_sequence c], f_recovery_generation = 0, f_sequence = 0\<rparr>"

definition indicator_in :: "string list \<Rightarrow> string \<Rightarrow> string option" where
  "indicator_in indicators hay = find (\<lambda>i. contains i hay) indicators"

definition content_finding_id :: "uuid5 \<Rightarrow> string \<Rightarrow> detection_context \<Rightarrow> string list \<Rightarrow> string" where
  "content_finding_id u rule c parts =
     u namespace_url (join ''|'' ([rule, dc_session_id c, dc_agent_id c] @ parts
                                   @ [decimal (dc_triggering_event_sequence c)]))"

definition prompt_injection_indicators :: "string list" where
  "prompt_injection_indicators =
     [''ignore previous instructions'', ''system prompt'', ''you are now'', ''act as system'',
      ''developer message'', ''forget your instructions'', ''override your instructions'', ''new role'']"

definition first_indicator :: "detection_context \<Rightarrow> string option" where
  "first_indicator c = indicator_in prompt_injection_indicators (join '' '' (map casefold (text_inputs c)))"

definition prompt_injection_evaluate :: "uuid5 \<Rightarrow> detection_context \<Rightarrow> finding list" where
  "prompt_injection_evaluate u c =
     (case first_indicator c of
        None \<Rightarrow> []
      | Some i \<Rightarrow>
          [content_finding (content_finding_id u ''PROMPT_INJECTION'' c [i]) ''PROMPT_INJECTION'' c PROMPT_INJECTION
             (''Prompt injection indicator detected: '' @ i)])"

definition sensitive_indicators :: "string list" where
  "sensitive_indicators =
     [''.env'', ''.git/config'', ''.ssh/id_rsa'', ''.aws/credentials'', ''/etc/passwd'', ''/etc/shadow'',
      ''kubernetes secrets'', ''kubernetes secret'', ''k8s secrets'', ''k8s secret'',
      ''service account keys'', ''service account key'', ''service_account_keys'', ''service_account_key'']"

definition context_resource :: "detection_context \<Rightarrow> string" where
  "context_resource c = casefold (strip (get_or (dc_metadata c) ''resource'' []))"

definition sensitive_file_access_evaluate :: "uuid5 \<Rightarrow> detection_context \<Rightarrow> finding list" where
  "sensitive_file_access_evaluate u c =
     (let resource = context_resource c; user_prompt = casefold (dc_user_prompt c);
          m1 = (if resource \<noteq> [] then indicator_in sensitive_indicators resource else None);
          m2 = (if m1 = None \<and> user_prompt \<noteq> [] then indicator_in sensitive_indicators user_prompt else m1)
      in case m2 of
           None \<Rightarrow> []
         | Some i \<Rightarrow>
             [content_finding (content_finding_id u ''SENSITIVE_FILE_ACCESS'' c [i]) ''SENSITIVE_FILE_ACCESS'' c
                SENSITIVE_FILE_ACCESS (''Sensitive file access attempt detected: '' @ i)])"

definition exfiltration_actions :: "string list" where
  "exfiltration_actions =
     [''upload'', ''send'', ''email'', ''post'', ''push'', ''copy'', ''export'', ''transfer'', ''sync'',
      ''publish'', ''share'']"

definition sensitive_data_indicators :: "string list" where
  "sensitive_data_indicators =
     [''password'', ''credentials'', ''token'', ''api key'', ''secret'', ''ssh key'', ''.env'', ''private key'',
      ''kubeconfig'', ''service account key'']"

definition data_exfiltration_evaluate :: "uuid5 \<Rightarrow> detection_context \<Rightarrow> finding list" where
  "data_exfiltration_evaluate u c =
     (let search_content = strip (casefold (dc_user_prompt c) @ '' '' @ context_resource c)
      in case (indicator_in exfiltration_actions search_content,
               indicator_in sensitive_data_indicators search_content) of
           (Some action, Some indicator) \<Rightarrow>
             [content_finding (content_finding_id u ''DATA_EXFILTRATION'' c [action, indicator]) ''DATA_EXFILTRATION'' c
                DATA_EXFILTRATION
                (''Data exfiltration attempt detected: action '' @ [char_of (39::nat)] @ action @ [char_of (39::nat)]
                 @ '' combined with sensitive indicator '' @ [char_of (39::nat)] @ indicator @ [char_of (39::nat)])]
         | _ \<Rightarrow> [])"

definition prompt_injection_rule :: "uuid5 \<Rightarrow> detection_rule" where
  "prompt_injection_rule u = \<lparr>dr_name = ''PROMPT_INJECTION'', dr_category = PROMPT_SECURITY,
     dr_evaluate = prompt_injection_evaluate u\<rparr>"

definition sensitive_file_access_rule :: "uuid5 \<Rightarrow> detection_rule" where
  "sensitive_file_access_rule u = \<lparr>dr_name = ''SENSITIVE_FILE_ACCESS'', dr_category = DATA_SECURITY,
     dr_evaluate = sensitive_file_access_evaluate u\<rparr>"

definition data_exfiltration_rule :: "uuid5 \<Rightarrow> detection_rule" where
  "data_exfiltration_rule u = \<lparr>dr_name = ''DATA_EXFILTRATION'', dr_category = DATA_SECURITY,
     dr_evaluate = data_exfiltration_evaluate u\<rparr>"

subsection \<open>Registry and engine\<close>

type_synonym detection_registry = "(string, detection_rule) dict"

definition register_rule :: "detection_rule \<Rightarrow> (detection_registry, detection_rule) eff" where
  "register_rule r reg =
     (if dget reg (dr_name r) \<noteq> None then (Inl ValueError, reg) else (Inr r, dset (dr_name r) r reg))"

definition get_rule :: "detection_registry \<Rightarrow> string \<Rightarrow> detection_rule res" where
  "get_rule reg name = (case dget reg name of None \<Rightarrow> Inl KeyError | Some r \<Rightarrow> Inr r)"

definition registry_rules :: "detection_registry \<Rightarrow> detection_rule list" where
  "registry_rules reg = dvals reg"

definition registry_categories :: "detection_registry \<Rightarrow> detection_category set" where
  "registry_categories reg = dr_category ` set (dvals reg)"

definition registry_rule_names :: "detection_registry \<Rightarrow> string set" where
  "registry_rule_names reg = dr_name ` set (dvals reg)"

definition engine_evaluate :: "detection_rule list \<Rightarrow> detection_context \<Rightarrow> finding list" where
  "engine_evaluate rules c = fold (\<lambda>r findings. findings @ dr_evaluate r c) rules []"

subsection \<open>The behavioural detector\<close>

definition excessive_denial_threshold :: nat where
  "excessive_denial_threshold = 3"

definition default_excessive_denials_window :: duration where
  "default_excessive_denials_window = 1800000000"

definition excessive_denials :: string where
  "excessive_denials = ''EXCESSIVE_DENIALS''"

definition new_detection_service :: "duration \<Rightarrow> duration res" where
  "new_detection_service window = (if window \<le> 0 then Inl ValueError else Inr window)"

record rule_descriptor =
  rd_name :: string
  rd_scope :: aggregation_scope
  rd_horizon :: duration

definition get_rule_descriptor :: "duration \<Rightarrow> string \<Rightarrow> rule_descriptor res" where
  "get_rule_descriptor window name =
     (if name = excessive_denials
      then Inr \<lparr>rd_name = excessive_denials, rd_scope = SCOPE_AGENT, rd_horizon = window\<rparr>
      else Inl KeyError)"

definition get_rule_horizon :: "duration \<Rightarrow> string \<Rightarrow> duration res" where
  "get_rule_horizon window name = res_bind (get_rule_descriptor window name) (\<lambda>d. Inr (rd_horizon d))"

definition session_finding_namespace :: "uuid5 \<Rightarrow> string" where
  "session_finding_namespace u =
     u namespace_url ''https://enterprise-agent-security-platform/findings/session''"

definition session_finding_id ::
  "uuid5 \<Rightarrow> string \<Rightarrow> string \<Rightarrow> string \<Rightarrow> nat \<Rightarrow> nat list \<Rightarrow> nat \<Rightarrow> string" where
  "session_finding_id u rule sid aid threshold evidence generation =
     u (session_finding_namespace u)
       (join ''|'' [rule, sid, aid, decimal threshold, join '','' (map decimal evidence), decimal generation])"

definition relevant_prior :: "string \<Rightarrow> nat \<Rightarrow> nat set \<Rightarrow> finding \<Rightarrow> bool" where
  "relevant_prior aid generation in_window p \<longleftrightarrow>
     \<not> (f_rule_name p \<noteq> excessive_denials \<or> f_agent_id p \<noteq> aid
        \<or> f_recovery_generation p \<noteq> generation \<or> f_event_sequences p = [])
     \<and> (\<exists>n\<in>set (f_event_sequences p). n \<in> in_window)"

definition uses_agent_sequence :: "session_event list \<Rightarrow> bool" where
  "uses_agent_sequence denials \<longleftrightarrow> (\<exists>e\<in>set denials. se_agent_sequence e > 0)"

definition denial_positions :: "session_event list \<Rightarrow> nat set" where
  "denial_positions denials =
     (if uses_agent_sequence denials
      then set (map se_agent_sequence (filter (\<lambda>e. se_agent_sequence e > 0) denials))
      else set (map se_sequence_number denials))"

definition crossing_evidence :: "session_event list \<Rightarrow> finding list \<Rightarrow> string \<Rightarrow> nat \<Rightarrow> nat list" where
  "crossing_evidence denials prior aid generation =
     (case find (relevant_prior aid generation (denial_positions denials)) prior of
        Some p \<Rightarrow> f_event_sequences p
      | None \<Rightarrow>
          if uses_agent_sequence denials
          then map se_agent_sequence (take excessive_denial_threshold (sort_key se_agent_sequence denials))
          else map se_sequence_number
                 (take excessive_denial_threshold
                   (sort_key (\<lambda>e. (se_timestamp e, se_sequence_number e)) denials)))"

definition group_denial :: "session_event \<Rightarrow> (string, session_event list) dict \<Rightarrow> (string, session_event list) dict" where
  "group_denial e d = dset (se_agent_id e) (get_or d (se_agent_id e) [] @ [e]) d"

definition denial_in_window :: "duration \<Rightarrow> instant \<Rightarrow> session_event \<Rightarrow> bool" where
  "denial_in_window window t e \<longleftrightarrow>
     se_decision e = DENY \<and> t - window \<le> se_timestamp e \<and> se_timestamp e \<le> t"

definition denied_events :: "duration \<Rightarrow> instant \<Rightarrow> session_event list \<Rightarrow> (string, session_event list) dict" where
  "denied_events window t events = fold group_denial (filter (denial_in_window window t) events) []"

definition denial_finding ::
  "uuid5 \<Rightarrow> instant \<Rightarrow> finding list \<Rightarrow> nat \<Rightarrow> string \<Rightarrow> session_event list \<Rightarrow> finding" where
  "denial_finding u now prior generation aid denials =
     (let sid = se_session_id (last denials);
          evidence = crossing_evidence denials prior aid generation;
          same = (\<forall>e\<in>set denials. se_session_id e = se_session_id (hd denials))
      in \<lparr>f_id = session_finding_id u excessive_denials sid aid excessive_denial_threshold evidence generation,
          f_session_id = sid, f_agent_id = aid,
          f_rule_id = default_rule_id [] excessive_denials, f_rule_name = excessive_denials,
          f_severity = SEV_MEDIUM, f_category = UNKNOWN_CATEGORY, f_status = FS_OPEN,
          f_description =
            (if same then ''Session contains '' @ decimal (length denials) @ '' denied actions''
             else ''Agent contains '' @ decimal (length denials) @ '' denied actions across sessions''),
          f_created_at = now, f_recorded_at = None, f_event_sequences = evidence,
          f_recovery_generation = generation, f_sequence = 0\<rparr>)"

definition detect_excessive_denials ::
  "uuid5 \<Rightarrow> instant \<Rightarrow> duration \<Rightarrow> session_event list \<Rightarrow> instant \<Rightarrow> finding list \<Rightarrow> nat \<Rightarrow> finding list" where
  "detect_excessive_denials u now window events evaluation_time prior generation =
     map (\<lambda>(aid, denials). denial_finding u now prior generation aid denials)
       (filter (\<lambda>(aid, denials). \<not> length denials < excessive_denial_threshold)
         (denied_events window evaluation_time events))"

subsection \<open>Text of numbers\<close>

definition undecimal :: "string \<Rightarrow> nat" where
  "undecimal cs = foldl (\<lambda>n c. 10 * n + (of_char c - 48)) 0 cs"

lemma of_char_digit: "n < 10 \<Longrightarrow> of_char (digit n) = 48 + n"
  by (simp add: digit_def)

lemma undecimal_decimal [simp]: "undecimal (decimal n) = n"
proof (induction n rule: decimal.induct)
  case (1 n)
  show ?case
  proof (cases "n < 10")
    case True
    then show ?thesis by (simp add: decimal.simps [of n] undecimal_def of_char_digit)
  next
    case False
    then have "undecimal (decimal n) = 10 * undecimal (decimal (n div 10)) + (of_char (digit (n mod 10)) - 48)"
      by (subst decimal.simps) (simp add: undecimal_def)
    with 1 [OF False] show ?thesis by (simp add: of_char_digit)
  qed
qed

lemma decimal_inject [simp]: "decimal m = decimal n \<longleftrightarrow> m = n"
  by (metis undecimal_decimal)

lemma join_snoc: "xs \<noteq> [] \<Longrightarrow> join sep (xs @ [x]) = join sep xs @ sep @ x"
  by (induction sep xs rule: join.induct) auto

subsection \<open>Threshold crossings\<close>

lemma group_denial_get:
  "dget (fold group_denial es d) a =
     (let g = get_or d a [] @ filter (\<lambda>e. se_agent_id e = a) es
      in if dget d a = None \<and> filter (\<lambda>e. se_agent_id e = a) es = [] then None else Some g)"
  by (induction es arbitrary: d) (auto simp: group_denial_def Let_def get_or_def split: option.splits)

lemma group_denial_distinct: "distinct (dkeys d) \<Longrightarrow> distinct (dkeys (fold group_denial es d))"
  by (induction es arbitrary: d) (auto simp: group_denial_def)

definition denials_of :: "duration \<Rightarrow> instant \<Rightarrow> session_event list \<Rightarrow> string \<Rightarrow> session_event list" where
  "denials_of window t events aid = filter (\<lambda>e. denial_in_window window t e \<and> se_agent_id e = aid) events"

lemma denied_events_mem:
  "(aid, ds) \<in> set (denied_events window t events) \<longleftrightarrow> ds = denials_of window t events aid \<and> ds \<noteq> []"
proof -
  have "distinct (dkeys (denied_events window t events))"
    by (simp add: denied_events_def group_denial_distinct)
  then have "(aid, ds) \<in> set (denied_events window t events) \<longleftrightarrow> dget (denied_events window t events) aid = Some ds"
    by (simp add: map_of_eq_Some_iff)
  then show ?thesis
    by (auto simp: denied_events_def group_denial_get denials_of_def Let_def get_or_def conj_commute
        simp flip: filter_filter)
qed

lemma detected_iff:
  "f \<in> set (detect_excessive_denials u now window events t prior generation) \<longleftrightarrow>
     (\<exists>aid. f = denial_finding u now prior generation aid (denials_of window t events aid)
          \<and> 3 \<le> length (denials_of window t events aid))"
  by (force simp: detect_excessive_denials_def denied_events_mem excessive_denial_threshold_def)

lemma denial_finding_simps [simp]:
  "f_agent_id (denial_finding u now prior g aid ds) = aid"
  "f_session_id (denial_finding u now prior g aid ds) = se_session_id (last ds)"
  "f_severity (denial_finding u now prior g aid ds) = SEV_MEDIUM"
  "f_rule_name (denial_finding u now prior g aid ds) = excessive_denials"
  "f_recovery_generation (denial_finding u now prior g aid ds) = g"
  "f_event_sequences (denial_finding u now prior g aid ds) = crossing_evidence ds prior aid g"
  "f_id (denial_finding u now prior g aid ds) =
     session_finding_id u excessive_denials (se_session_id (last ds)) aid 3 (crossing_evidence ds prior aid g) g"
  by (simp_all add: denial_finding_def Let_def excessive_denial_threshold_def)

lemma sort_key_nil: "sort_key k xs = [] \<longleftrightarrow> xs = []"
  by (metis length_0_conv length_sort)

text \<open>
  The behavioural detector reports exactly the agents with at least three denials inside the closed
  window that ends at the evaluation time, one finding per agent, over all of the agent's sessions;
  intervening decisions of another kind do not reset the count. Every finding is of medium severity,
  carries the recovery generation it was derived in and names at least one event as evidence.
\<close>

theorem excessive_denials_exact:
  fixes u now window events t prior generation
  defines "fs \<equiv> detect_excessive_denials u now window events t prior generation"
  shows "set (map f_agent_id fs) =
           {aid. 3 \<le> length (filter (\<lambda>e. se_decision e = DENY \<and> se_agent_id e = aid
                                     \<and> t - window \<le> se_timestamp e \<and> se_timestamp e \<le> t) events)}
         \<and> distinct (map f_agent_id fs)
         \<and> list_all (\<lambda>f. f_severity f = SEV_MEDIUM \<and> f_recovery_generation f = generation
                        \<and> f_event_sequences f \<noteq> []) fs"
proof (intro conjI)
  have count: "length (denials_of window t events aid) = length (filter (\<lambda>e. se_decision e = DENY \<and> se_agent_id e = aid
      \<and> t - window \<le> se_timestamp e \<and> se_timestamp e \<le> t) events)" for aid
    unfolding denials_of_def denial_in_window_def
    by (rule arg_cong [of _ _ "\<lambda>P. length (filter P events)"]) auto
  show "set (map f_agent_id fs) = {aid. 3 \<le> length (filter (\<lambda>e. se_decision e = DENY \<and> se_agent_id e = aid
      \<and> t - window \<le> se_timestamp e \<and> se_timestamp e \<le> t) events)}"
    (is "?L = ?R")
  proof (rule set_eqI)
    fix aid
    have "aid \<in> ?L \<longleftrightarrow> (\<exists>f\<in>set fs. f_agent_id f = aid)" by auto
    also have "\<dots> \<longleftrightarrow> aid \<in> ?R"
      unfolding fs_def Bex_def detected_iff count [symmetric] by fastforce
    finally show "aid \<in> ?L \<longleftrightarrow> aid \<in> ?R" .
  qed
  have "map f_agent_id fs = dkeys (filter (\<lambda>(aid, ds). \<not> length ds < excessive_denial_threshold)
      (denied_events window t events))"
    by (simp add: fs_def detect_excessive_denials_def case_prod_beta o_def)
  moreover have "distinct (dkeys (denied_events window t events))"
    by (simp add: denied_events_def group_denial_distinct)
  ultimately show "distinct (map f_agent_id fs)"
    by (simp only: distinct_dfilter)
  have "crossing_evidence ds prior aid generation \<noteq> []" if "3 \<le> length ds" for ds aid
  proof (cases "find (relevant_prior aid generation (denial_positions ds)) prior")
    case None
    from that have "ds \<noteq> []" by auto
    with None show ?thesis by (simp add: crossing_evidence_def excessive_denial_threshold_def sort_key_nil)
  next
    case (Some p)
    then have "relevant_prior aid generation (denial_positions ds) p" by (auto simp: find_Some_iff)
    with Some show ?thesis by (simp add: crossing_evidence_def relevant_prior_def)
  qed
  then show "list_all (\<lambda>f. f_severity f = SEV_MEDIUM \<and> f_recovery_generation f = generation
      \<and> f_event_sequences f \<noteq> []) fs"
    by (auto simp: list_all_iff fs_def detected_iff)
qed

lemma find_append: "find P (xs @ ys) = (case find P xs of Some x \<Rightarrow> Some x | None \<Rightarrow> find P ys)"
  by (induction xs) auto

text \<open>The pinned evidence of a crossing survives as long as part of it stays in the window.\<close>

lemma find_shrink:
  assumes "find P xs = Some x" and "Q x" and "\<And>y. y \<in> set xs \<Longrightarrow> Q y \<Longrightarrow> P y"
  shows "find Q xs = Some x"
  using assms by (induction xs) (auto split: if_splits)

lemma crossing_pinned:
  assumes f: "f_rule_name f = excessive_denials" "f_agent_id f = aid" "f_recovery_generation f = g"
      "f_event_sequences f = crossing_evidence ds prior aid g"
    and kept: "\<And>p n. p \<in> set prior \<Longrightarrow> n \<in> set (f_event_sequences p) \<Longrightarrow> n \<in> denial_positions ds' \<Longrightarrow> n \<in> denial_positions ds"
    and still: "\<exists>n\<in>set (f_event_sequences f). n \<in> denial_positions ds'"
  shows "crossing_evidence ds' (prior @ [f]) aid g = f_event_sequences f"
proof -
  let ?P = "relevant_prior aid g (denial_positions ds)" and ?Q = "relevant_prior aid g (denial_positions ds')"
  have sub: "?P y" if "y \<in> set prior" "?Q y" for y
    using that kept unfolding relevant_prior_def by blast
  show ?thesis
  proof (cases "find ?P prior")
    case None
    with sub have "find ?Q prior = None" by (metis find_None_iff)
    moreover have "?Q f" using f still unfolding relevant_prior_def by auto
    ultimately show ?thesis by (simp add: crossing_evidence_def find_append)
  next
    case (Some p)
    then have e: "f_event_sequences f = f_event_sequences p"
      unfolding f(4) crossing_evidence_def by simp
    have "?P p" using Some by (auto simp: find_Some_iff)
    with still e have "?Q p" unfolding relevant_prior_def by auto
    then have "find ?Q prior = Some p" by (rule find_shrink [OF Some]) (rule sub)
    with e show ?thesis by (simp add: crossing_evidence_def find_append)
  qed
qed

lemma positions_of_denials:
  assumes "\<forall>e\<in>set ds. 0 < se_agent_sequence e" and "ds \<noteq> []"
  shows "denial_positions ds = se_agent_sequence ` set ds"
  using assms by (cases ds) (auto simp: denial_positions_def uses_agent_sequence_def)

text \<open>
  A threshold crossing is reported once. Let a crossing \<open>f\<close> be reported at time \<open>t\<close> and recorded
  after the earlier findings, and let the detector run again at a later time on a history that has
  only grown by events with fresh positions. As long as one of the denials \<open>f\<close> names is still in
  the window and the latest denial is in the same session, the detector derives the identifier and
  the evidence of \<open>f\<close> again, so the evidence store takes it for the recorded finding and records
  nothing, however many further denials there are.
\<close>

theorem crossing_reported_once:
  assumes f: "f \<in> set (detect_excessive_denials u now window events t prior g)"
    and f': "f' \<in> set (detect_excessive_denials u now' window (events @ later) t' (prior @ [f]) g)"
    and agent: "f_agent_id f' = f_agent_id f" and session: "f_session_id f' = f_session_id f"
    and time: "t \<le> t'" "\<forall>e\<in>set events. se_timestamp e \<le> t"
    and positions: "\<forall>e\<in>set (events @ later). 0 < se_agent_sequence e"
    and fresh: "\<forall>e\<in>set later. \<forall>p\<in>set (prior @ [f]). \<forall>n\<in>set (f_event_sequences p). n < se_agent_sequence e"
    and still: "\<exists>e\<in>set events. denial_in_window window t' e \<and> se_agent_id e = f_agent_id f
                  \<and> se_agent_sequence e \<in> set (f_event_sequences f)"
    and stored: "dget (fs_findings store) (f_id f) \<noteq> None"
  shows "f_id f' = f_id f \<and> f_event_sequences f' = f_event_sequences f
         \<and> record_new_findings now'' [f'] store = ([], store)"
proof -
  let ?aid = "f_agent_id f"
  let ?ds = "denials_of window t events ?aid" and ?ds' = "denials_of window t' (events @ later) ?aid"
  have fd: "f = denial_finding u now prior g ?aid ?ds" and n: "3 \<le> length ?ds"
    using f by (auto simp: detected_iff)
  have fd': "f' = denial_finding u now' (prior @ [f]) g ?aid ?ds'" and n': "3 \<le> length ?ds'"
    using f' agent by (auto simp: detected_iff)
  have pos: "denial_positions ?ds = se_agent_sequence ` set ?ds"
    "denial_positions ?ds' = se_agent_sequence ` set ?ds'"
    by (rule positions_of_denials; use n n' positions in \<open>force simp: denials_of_def\<close>)+
  have "crossing_evidence ?ds' (prior @ [f]) ?aid g = f_event_sequences f"
  proof (rule crossing_pinned [where ds = ?ds])
    show "f_rule_name f = excessive_denials" "f_agent_id f = ?aid" "f_recovery_generation f = g"
      "f_event_sequences f = crossing_evidence ?ds prior ?aid g"
      by (subst fd, simp)+
    fix p n assume p: "p \<in> set prior" "n \<in> set (f_event_sequences p)" "n \<in> denial_positions ?ds'"
    then obtain e where e: "e \<in> set ?ds'" "n = se_agent_sequence e" by (auto simp: pos)
    have "e \<notin> set later" using fresh p e(2) by fastforce
    with e have "e \<in> set ?ds" using time by (auto simp: denials_of_def denial_in_window_def)
    then show "n \<in> denial_positions ?ds" by (simp add: pos e(2))
  next
    obtain e where "e \<in> set ?ds'" "se_agent_sequence e \<in> set (f_event_sequences f)"
      using still by (auto simp: denials_of_def)
    then show "\<exists>n\<in>set (f_event_sequences f). n \<in> denial_positions ?ds'"
      unfolding pos by blast
  qed
  then have ev: "f_event_sequences f' = f_event_sequences f" by (subst fd') simp
  moreover have "f_id f' = f_id f"
  proof -
    have "f_id f' = session_finding_id u excessive_denials (f_session_id f') ?aid 3 (f_event_sequences f') g"
      by (subst (1 2 3) fd') simp
    also have "\<dots> = session_finding_id u excessive_denials (f_session_id f) ?aid 3 (f_event_sequences f) g"
      by (simp only: session ev)
    also have "\<dots> = f_id f" by (subst (1 3 4) fd) simp
    finally show ?thesis .
  qed
  ultimately show ?thesis using stored by simp
qed

definition ex_denial :: "string \<Rightarrow> nat \<Rightarrow> session_event" where
  "ex_denial sid n = \<lparr>se_session_id = sid, se_agent_id = ''a'', se_tool_id = ''t'', se_tool_version = None,
     se_decision = DENY, se_sequence_number = n, se_agent_sequence = n, se_final_decision = None,
     se_timestamp = int n\<rparr>"

definition ex_uuid :: uuid5 where
  "ex_uuid ns name = name"

definition ex_crossing :: finding where
  "ex_crossing = denial_finding ex_uuid 9 [] 0 ''a'' (map (ex_denial ''s'') [1, 2, 3])"

lemma ex_denials_of:
  "denials_of 100 3 (map (ex_denial ''s'') [1, 2, 3]) ''a'' = map (ex_denial ''s'') [1, 2, 3]"
  "denials_of 100 4 (map (ex_denial ''s'') [1, 2, 3] @ [ex_denial sid 4]) ''a''
     = map (ex_denial ''s'') [1, 2, 3] @ [ex_denial sid 4]"
  by (simp_all add: denials_of_def ex_denial_def denial_in_window_def)

lemma ex_evidence: "f_event_sequences ex_crossing = [1, 2, 3]"
  by (simp add: ex_crossing_def crossing_evidence_def uses_agent_sequence_def ex_denial_def excessive_denial_threshold_def)

lemma ex_fields: "f_agent_id ex_crossing = ''a''" "f_session_id ex_crossing = ''s''"
  by (simp_all add: ex_crossing_def ex_denial_def)

lemma ex_detected: "ex_crossing \<in> set (detect_excessive_denials ex_uuid 9 100 (map (ex_denial ''s'') [1, 2, 3]) 3 [] 0)"
  unfolding detected_iff ex_crossing_def
  by (rule exI [of _ "''a''"]) (simp only: ex_denials_of, simp)

definition ex_again :: "string \<Rightarrow> finding" where
  "ex_again sid = denial_finding ex_uuid 10 ([] @ [ex_crossing]) 0 ''a'' (map (ex_denial ''s'') [1, 2, 3] @ [ex_denial sid 4])"

lemma ex_again_detected: "ex_again sid \<in> set (detect_excessive_denials ex_uuid 10 100
    (map (ex_denial ''s'') [1, 2, 3] @ [ex_denial sid 4]) 4 ([] @ [ex_crossing]) 0)"
  unfolding detected_iff ex_again_def
  by (rule exI [of _ "''a''"]) (simp only: ex_denials_of, simp)

theorem crossing_reported_once_witness:
  "f_id (ex_again ''s'') = f_id ex_crossing \<and> f_event_sequences (ex_again ''s'') = f_event_sequences ex_crossing
   \<and> record_new_findings 11 [ex_again ''s''] (snd (record_new_findings 9 [ex_crossing] empty_findings))
       = ([], snd (record_new_findings 9 [ex_crossing] empty_findings))"
proof (rule crossing_reported_once [OF ex_detected ex_again_detected])
  show "\<exists>e\<in>set (map (ex_denial ''s'') [1, 2, 3]). denial_in_window 100 4 e
      \<and> se_agent_id e = f_agent_id ex_crossing \<and> se_agent_sequence e \<in> set (f_event_sequences ex_crossing)"
    by (simp add: ex_evidence ex_fields ex_denial_def denial_in_window_def)
qed (auto simp: ex_evidence ex_fields ex_again_def ex_denial_def record_finding_locked_def empty_findings_def
      next_sequence_for_agent_def Let_def)

text \<open>
  The identifier contains the session of the latest denial although the rule aggregates over all
  sessions of the agent: a further denial in another session renames the crossing that is still
  pinned to the same evidence, and it is recorded again.
\<close>

lemma crossing_renamed_by_session:
  "f_event_sequences (ex_again ''r'') = f_event_sequences ex_crossing \<and> f_id (ex_again ''r'') \<noteq> f_id ex_crossing"
proof -
  have "crossing_evidence (map (ex_denial ''s'') [1, 2, 3] @ [ex_denial ''r'' 4]) [ex_crossing] ''a'' 0 = [1, 2, 3]"
    by (rule trans [OF _ ex_evidence])
       (simp add: crossing_evidence_def relevant_prior_def ex_evidence ex_fields denial_positions_def
         uses_agent_sequence_def ex_denial_def, simp add: ex_crossing_def)
  then have e: "f_event_sequences (ex_again ''r'') = [1, 2, 3]" by (simp add: ex_again_def)
  have "f_id (ex_again ''r'') \<noteq> f_id ex_crossing"
    by (simp add: ex_again_def ex_crossing_def ex_denial_def session_finding_id_def ex_uuid_def excessive_denials_def)
  with e show ?thesis by (simp add: ex_evidence)
qed

subsection \<open>Content rules\<close>

lemma indicator_in_None: "indicator_in is hay = None \<longleftrightarrow> (\<forall>i\<in>set is. \<not> sublist i hay)"
  by (auto simp: indicator_in_def find_None_iff contains_sublist)

lemma indicator_in_Some: "indicator_in is hay = Some i \<Longrightarrow> i \<in> set is \<and> sublist i hay"
  by (auto simp: indicator_in_def find_Some_iff contains_sublist)

lemma engine_concat: "engine_evaluate rules c = concat (map (\<lambda>r. dr_evaluate r c) rules)"
proof -
  have "fold (\<lambda>r fs. fs @ dr_evaluate r c) rules fs0 = fs0 @ concat (map (\<lambda>r. dr_evaluate r c) rules)" for fs0
    by (induction rules arbitrary: fs0) auto
  then show ?thesis by (simp add: engine_evaluate_def)
qed

definition content_rules :: "uuid5 \<Rightarrow> detection_rule list" where
  "content_rules u = [prompt_injection_rule u, sensitive_file_access_rule u, data_exfiltration_rule u]"

definition prompt_text :: "detection_context \<Rightarrow> string" where
  "prompt_text c = join '' '' (map casefold (text_inputs c))"

lemma prompt_injection_iff:
  "prompt_injection_evaluate u c \<noteq> [] \<longleftrightarrow> (\<exists>i\<in>set prompt_injection_indicators. sublist i (prompt_text c))"
proof -
  have "prompt_injection_evaluate u c = [] \<longleftrightarrow> first_indicator c = None"
    by (simp add: prompt_injection_evaluate_def split: option.splits)
  then show ?thesis by (simp add: first_indicator_def indicator_in_None prompt_text_def)
qed

lemma indicator_in_empty: "[] \<notin> set is \<Longrightarrow> indicator_in is [] = None"
  by (auto simp: indicator_in_None)

lemma sensitive_nonempty: "[] \<notin> set sensitive_indicators"
  by (simp add: sensitive_indicators_def)

lemma sensitive_access_iff:
  "sensitive_file_access_evaluate u c \<noteq> [] \<longleftrightarrow>
     (\<exists>i\<in>set sensitive_indicators. sublist i (context_resource c) \<or> sublist i (casefold (dc_user_prompt c)))"
proof -
  have guard: "(if hay \<noteq> [] then indicator_in sensitive_indicators hay else None)
      = indicator_in sensitive_indicators hay" for hay
    by (simp add: indicator_in_empty sensitive_nonempty)
  have "sensitive_file_access_evaluate u c = [] \<longleftrightarrow>
      indicator_in sensitive_indicators (context_resource c) = None
      \<and> indicator_in sensitive_indicators (casefold (dc_user_prompt c)) = None"
    by (auto simp: sensitive_file_access_evaluate_def Let_def guard indicator_in_empty sensitive_nonempty
        split: option.splits if_splits)
  then show ?thesis by (auto simp: indicator_in_None)
qed

definition exfiltration_text :: "detection_context \<Rightarrow> string" where
  "exfiltration_text c = strip (casefold (dc_user_prompt c) @ '' '' @ context_resource c)"

lemma data_exfiltration_iff:
  "data_exfiltration_evaluate u c \<noteq> [] \<longleftrightarrow>
     (\<exists>a\<in>set exfiltration_actions. sublist a (exfiltration_text c))
     \<and> (\<exists>i\<in>set sensitive_data_indicators. sublist i (exfiltration_text c))"
proof -
  have "data_exfiltration_evaluate u c = [] \<longleftrightarrow>
      indicator_in exfiltration_actions (exfiltration_text c) = None
      \<or> indicator_in sensitive_data_indicators (exfiltration_text c) = None"
    by (auto simp: data_exfiltration_evaluate_def exfiltration_text_def Let_def split: option.splits)
  then show ?thesis by (auto simp: indicator_in_None)
qed

text \<open>What a rule may emit for a context: at most one HIGH finding about the session that triggered it.\<close>

definition content_shape :: "detection_context \<Rightarrow> finding list \<Rightarrow> bool" where
  "content_shape c fs \<longleftrightarrow>
     length fs \<le> 1
     \<and> list_all (\<lambda>f. f_session_id f = dc_session_id c \<and> f_agent_id f = dc_agent_id c \<and> f_severity f = SEV_HIGH
                    \<and> f_event_sequences f = [dc_triggering_event_sequence c]) fs"

lemma content_shapes:
  "content_shape c (prompt_injection_evaluate u c)"
  "content_shape c (sensitive_file_access_evaluate u c)"
  "content_shape c (data_exfiltration_evaluate u c)"
  by (auto simp: content_shape_def prompt_injection_evaluate_def sensitive_file_access_evaluate_def
      data_exfiltration_evaluate_def content_finding_def Let_def split: option.splits)

text \<open>
  Content detection is exact. Each of the three content rules emits a finding exactly when its
  indicators occur: an injection phrase in the case folded prompt, model output or tool output; a
  sensitive path in the resource or the prompt; an exfiltration action together with a sensitive
  data indicator in prompt and resource. Each emits at most one, of HIGH severity, attributed to
  the session, agent and event that triggered the evaluation, and the engine adds and drops nothing.
\<close>

theorem content_detection_exact:
  "engine_evaluate (content_rules u) c
     = prompt_injection_evaluate u c @ sensitive_file_access_evaluate u c @ data_exfiltration_evaluate u c
   \<and> (prompt_injection_evaluate u c \<noteq> [] \<longleftrightarrow> (\<exists>i\<in>set prompt_injection_indicators. sublist i (prompt_text c)))
   \<and> (sensitive_file_access_evaluate u c \<noteq> [] \<longleftrightarrow>
        (\<exists>i\<in>set sensitive_indicators. sublist i (context_resource c) \<or> sublist i (casefold (dc_user_prompt c))))
   \<and> (data_exfiltration_evaluate u c \<noteq> [] \<longleftrightarrow>
        (\<exists>a\<in>set exfiltration_actions. sublist a (exfiltration_text c))
        \<and> (\<exists>i\<in>set sensitive_data_indicators. sublist i (exfiltration_text c)))
   \<and> content_shape c (prompt_injection_evaluate u c) \<and> content_shape c (sensitive_file_access_evaluate u c)
   \<and> content_shape c (data_exfiltration_evaluate u c)"
proof (intro conjI content_shapes prompt_injection_iff sensitive_access_iff data_exfiltration_iff)
  show "engine_evaluate (content_rules u) c
     = prompt_injection_evaluate u c @ sensitive_file_access_evaluate u c @ data_exfiltration_evaluate u c"
    by (simp add: engine_concat content_rules_def prompt_injection_rule_def sensitive_file_access_rule_def
        data_exfiltration_rule_def)
qed

text \<open>
  Two occurrences of the same condition are told apart by the position of the event. The parts of an
  identifier are joined by a bar without escaping, so two agents can collide: the second finding
  then counts as recorded already.
\<close>

lemma occurrences_have_own_identity:
  assumes "inj (u namespace_url)" and "dc_session_id c' = dc_session_id c" and "dc_agent_id c' = dc_agent_id c"
    and "content_finding_id u rule c' parts = content_finding_id u rule c parts"
  shows "dc_triggering_event_sequence c' = dc_triggering_event_sequence c"
proof -
  have "join ''|'' (([rule, dc_session_id c, dc_agent_id c] @ parts) @ [decimal (dc_triggering_event_sequence c')])
      = join ''|'' (([rule, dc_session_id c, dc_agent_id c] @ parts) @ [decimal (dc_triggering_event_sequence c)])"
    using assms by (simp add: content_finding_id_def inj_eq)
  then show ?thesis by (subst (asm) (1 2) join_snoc) simp_all
qed

lemma identifiers_collide_across_agents:
  assumes "dc_session_id c = ''s|a''" "dc_agent_id c = ''b''" "dc_session_id c' = ''s''" "dc_agent_id c' = ''a|b''"
    and "dc_triggering_event_sequence c' = dc_triggering_event_sequence c"
  shows "content_finding_id u rule c' [i] = content_finding_id u rule c [i]"
  using assms by (simp add: content_finding_id_def)

end
