(* ===== verification/Capability.thy ===== *)
theory Capability
  imports Execution_Authority Detection
begin

section \<open>Execution capabilities\<close>

text \<open>
  \<^verbatim>\<open>app/models/execution_capability.py\<close> with every validator, and the profile registry with the
  binding check of \<^verbatim>\<open>app/runtime/capability_registry.py\<close>. A validator that raises makes the
  construction fail with \<open>ValueError\<close>, of which pydantic's validation error is a subclass; an
  omitted field keeps its default without being validated. Seconds are microsecond counts. Resolving
  a path against the file system is the parameter \<open>resolve_path\<close>, SHA-256 over the canonical
  serialisation the parameter \<open>sha\<close>.
\<close>

subsection \<open>Text helpers\<close>

definition upper_char :: "char \<Rightarrow> char" where
  "upper_char c = (if 97 \<le> (of_char c :: nat) \<and> (of_char c :: nat) \<le> 122
                   then char_of ((of_char c :: nat) - 32) else c)"

definition upper :: "string \<Rightarrow> string" where
  "upper s = map upper_char s"

text \<open>\<^verbatim>\<open>s.split(sep)\<close> for a one character separator, \<^verbatim>\<open>s.strip(chars)\<close> and \<^verbatim>\<open>int(s)\<close>.\<close>

fun split_on :: "char \<Rightarrow> string \<Rightarrow> string list" where
  "split_on sep [] = [[]]"
| "split_on sep (c # cs) =
     (if c = sep then [] # split_on sep cs
      else case split_on sep cs of [] \<Rightarrow> [[c]] | p # ps \<Rightarrow> (c # p) # ps)"

definition strip_chars :: "char set \<Rightarrow> string \<Rightarrow> string" where
  "strip_chars cs s = rev (dropWhile (\<lambda>c. c \<in> cs) (rev (dropWhile (\<lambda>c. c \<in> cs) s)))"

definition is_digit :: "char \<Rightarrow> bool" where
  "is_digit c \<longleftrightarrow> 48 \<le> (of_char c :: nat) \<and> (of_char c :: nat) \<le> 57"

fun read_digits :: "nat \<Rightarrow> bool \<Rightarrow> string \<Rightarrow> nat option" where
  "read_digits acc after_digit [] = (if after_digit then Some acc else None)"
| "read_digits acc after_digit (c # cs) =
     (if is_digit c then read_digits (10 * acc + (of_char c - 48)) True cs
      else if c = CHR ''_'' \<and> after_digit then read_digits acc False cs
      else None)"

definition py_int :: "string \<Rightarrow> int option" where
  "py_int s =
     (case strip s of
        [] \<Rightarrow> None
      | c # cs \<Rightarrow>
          if c = CHR ''-'' then map_option (\<lambda>n. - int n) (read_digits 0 False cs)
          else if c = CHR ''+'' then map_option int (read_digits 0 False cs)
          else map_option int (read_digits 0 False (c # cs)))"

definition null_byte :: char where
  "null_byte = CHR 0x00"

subsection \<open>File system capability\<close>

record filesystem_capability =
  fc_workspace_root :: string
  fc_read_only :: bool
  fc_allowed_subpaths :: "string list"
  fc_allow_temp_writes :: bool

definition path_parts :: "string \<Rightarrow> string list" where
  "path_parts s = filter (\<lambda>p. p \<noteq> [] \<and> p \<noteq> ''.'') (split_on CHR ''/'' s)"

definition is_absolute :: "string \<Rightarrow> bool" where
  "is_absolute s \<longleftrightarrow> prefix ''/'' s"

definition validate_workspace_root :: "(string \<Rightarrow> string) \<Rightarrow> string \<Rightarrow> string res" where
  "validate_workspace_root resolve_path v =
     (if v = [] then Inl ValueError
      else if null_byte \<in> set v then Inl ValueError
      else if \<not> is_absolute v then Inl ValueError
      else Inr (resolve_path v))"

fun normalize_allowed_subpaths :: "py_value list \<Rightarrow> string list res" where
  "normalize_allowed_subpaths [] = Inr []"
| "normalize_allowed_subpaths (v # vs) =
     (case v of
        PyOther \<Rightarrow> Inl ValueError
      | PyStr item \<Rightarrow>
          if null_byte \<in> set item then Inl ValueError
          else if prefix ''/'' item then Inl ValueError
          else if ''..'' \<in> set (path_parts item) then Inl ValueError
          else res_bind (normalize_allowed_subpaths vs) (\<lambda>ps. Inr (strip_chars {CHR ''/''} item # ps)))"

definition make_filesystem ::
  "(string \<Rightarrow> string) \<Rightarrow> string \<Rightarrow> bool \<Rightarrow> py_value list \<Rightarrow> bool \<Rightarrow> filesystem_capability res" where
  "make_filesystem resolve_path root read_only subpaths temp =
     res_bind (validate_workspace_root resolve_path root) (\<lambda>r.
     res_bind (normalize_allowed_subpaths subpaths) (\<lambda>ps.
     Inr \<lparr>fc_workspace_root = r, fc_read_only = read_only, fc_allowed_subpaths = ps, fc_allow_temp_writes = temp\<rparr>))"

subsection \<open>Network capability\<close>

datatype egress_mode = EGRESS_DISABLED | EGRESS_ALLOWLIST

record destination =
  nd_host :: string
  nd_port :: int

definition validate_host :: "string \<Rightarrow> string res" where
  "validate_host v =
     (let cleaned = casefold (strip v)
      in if cleaned = [] then Inl ValueError
         else if null_byte \<in> set cleaned \<or> CHR '' '' \<in> set cleaned then Inl ValueError
         else Inr cleaned)"

definition make_destination :: "string \<Rightarrow> int \<Rightarrow> destination res" where
  "make_destination host port =
     (if host = [] \<or> port < 1 \<or> 65535 < port then Inl ValueError
      else res_bind (validate_host host) (\<lambda>h. Inr \<lparr>nd_host = h, nd_port = port\<rparr>))"

definition destination_string :: "destination \<Rightarrow> string" where
  "destination_string d = nd_host d @ '':'' @ decimal (nat (nd_port d))"

text \<open>What a caller may put into either list: a destination object, a dictionary, a string, anything else.\<close>

datatype destination_input = DestObject destination | DestDict string int | DestText string | DestOther

definition normalize_destination_obj :: "destination_input \<Rightarrow> destination res" where
  "normalize_destination_obj item =
     (case item of
        DestObject d \<Rightarrow> Inr d
      | DestDict host port \<Rightarrow> make_destination host port
      | DestText s \<Rightarrow>
          (case split_on CHR '':'' (strip s) of
             [host, port] \<Rightarrow>
               (case py_int port of None \<Rightarrow> Inl ValueError | Some p \<Rightarrow> make_destination host p)
           | _ \<Rightarrow> Inl ValueError)
      | DestOther \<Rightarrow> Inl ValueError)"

definition normalize_destination_str :: "destination_input \<Rightarrow> string res" where
  "normalize_destination_str item =
     (case item of
        DestObject d \<Rightarrow> Inr (destination_string d)
      | DestText s \<Rightarrow>
          let cleaned = casefold (strip s)
          in if cleaned = [] then Inl ValueError
             else if null_byte \<in> set cleaned \<or> CHR '' '' \<in> set cleaned then Inl ValueError
             else (case split_on CHR '':'' cleaned of
                     [host, port] \<Rightarrow>
                       if host = [] then Inl ValueError
                       else (case py_int port of
                               None \<Rightarrow> Inl ValueError
                             | Some p \<Rightarrow> if \<not> (1 \<le> p \<and> p \<le> 65535) then Inl ValueError
                                         else Inr (host @ '':'' @ decimal (nat p)))
                   | _ \<Rightarrow> Inl ValueError)
      | _ \<Rightarrow> Inl ValueError)"

fun res_map :: "('a \<Rightarrow> 'b res) \<Rightarrow> 'a list \<Rightarrow> 'b list res" where
  "res_map f [] = Inr []"
| "res_map f (x # xs) = res_bind (f x) (\<lambda>y. res_bind (res_map f xs) (\<lambda>ys. Inr (y # ys)))"

record network_capability =
  nc_mode :: egress_mode
  nc_destinations :: "destination list"
  nc_allowed_destinations :: "string list"
  nc_allow_unix_sockets :: bool
  nc_allow_bind :: bool

definition sync_and_validate_destinations :: "egress_mode \<Rightarrow> destination list \<Rightarrow> string list \<Rightarrow> string list res" where
  "sync_and_validate_destinations mode dests allowed =
     (let all_dests = set allowed \<union> set (map destination_string dests)
      in if mode = EGRESS_DISABLED \<and> all_dests \<noteq> {} then Inl ValueError
         else if mode = EGRESS_ALLOWLIST \<and> all_dests = {} then Inl ValueError
         else Inr (sorted_list_of_set all_dests))"

definition parse_allowed :: "string \<Rightarrow> destination res" where
  "parse_allowed item =
     (case split_on CHR '':'' item of
        [h, p] \<Rightarrow> (case py_int p of None \<Rightarrow> Inl ValueError | Some n \<Rightarrow> make_destination h n)
      | _ \<Rightarrow> Inl ValueError)"

definition network_post_init :: "network_capability \<Rightarrow> network_capability res" where
  "network_post_init n =
     (if nc_allowed_destinations n \<noteq> [] \<and> nc_destinations n = []
      then res_bind (res_map parse_allowed (nc_allowed_destinations n)) (\<lambda>ds. Inr (n\<lparr>nc_destinations := ds\<rparr>))
      else if nc_destinations n \<noteq> [] \<and> nc_allowed_destinations n = []
      then Inr (n\<lparr>nc_allowed_destinations := map destination_string (nc_destinations n)\<rparr>)
      else Inr n)"

definition make_network ::
  "egress_mode \<Rightarrow> destination_input list \<Rightarrow> destination_input list option \<Rightarrow> bool \<Rightarrow> bool \<Rightarrow> network_capability res" where
  "make_network mode dests allowed unix bind =
     res_bind (res_map normalize_destination_obj dests) (\<lambda>ds.
     res_bind (case allowed of
                 None \<Rightarrow> Inr []
               | Some items \<Rightarrow>
                   res_bind (res_map normalize_destination_str items) (sync_and_validate_destinations mode ds)) (\<lambda>al.
     network_post_init \<lparr>nc_mode = mode, nc_destinations = ds, nc_allowed_destinations = al,
                        nc_allow_unix_sockets = unix, nc_allow_bind = bind\<rparr>))"

subsection \<open>Resource limits\<close>

record resource_limits =
  lim_max_memory_bytes :: nat
  lim_max_cpu :: duration
  lim_max_output_bytes :: nat
  lim_wall_clock :: duration
  lim_required_controls :: "string list"

definition validate_required_controls :: "string list \<Rightarrow> string list res" where
  "validate_required_controls v =
     (if set v - {''memory'', ''cpu''} \<noteq> {} then Inl ValueError else Inr (sorted_list_of_set (set v)))"

definition make_limits :: "nat \<Rightarrow> duration \<Rightarrow> nat \<Rightarrow> duration \<Rightarrow> string list \<Rightarrow> resource_limits res" where
  "make_limits mem cpu out wall controls =
     (if \<not> (0 < mem \<and> mem \<le> 4 * 1024 * 1024 * 1024) then Inl ValueError
      else if \<not> (0 < cpu \<and> cpu \<le> 300 * 1000000) then Inl ValueError
      else if \<not> out \<le> 100 * 1024 * 1024 then Inl ValueError
      else if \<not> (0 < wall \<and> wall \<le> 600 * 1000000) then Inl ValueError
      else res_bind (validate_required_controls controls) (\<lambda>cs.
        Inr \<lparr>lim_max_memory_bytes = mem, lim_max_cpu = cpu, lim_max_output_bytes = out,
             lim_wall_clock = wall, lim_required_controls = cs\<rparr>))"

subsection \<open>Capability sets\<close>

record capabilities =
  cp_profile_id :: string
  cp_filesystem :: filesystem_capability
  cp_environment :: "(string, string) dict"
  cp_network :: network_capability
  cp_resources :: resource_limits

definition blocked_environment_keys :: "string set" where
  "blocked_environment_keys =
     {''POSTGRES_URL'', ''POSTGRES_PASSWORD'', ''POSTGRES_USER'', ''POSTGRES_DB'', ''DATABASE_URL'',
      ''JWT_SECRET_KEY'', ''SECRET_KEY'', ''API_KEY'', ''AWS_SECRET_ACCESS_KEY'', ''AWS_SESSION_TOKEN'',
      ''AZURE_CLIENT_SECRET'', ''GOOGLE_APPLICATION_CREDENTIALS'', ''GEMINI_API_KEY'', ''ANTHROPIC_API_KEY'',
      ''OPENAI_API_KEY''}"

definition blocked_key :: "string \<Rightarrow> bool" where
  "blocked_key k \<longleftrightarrow>
     (let key_upper = strip (upper k)
      in key_upper \<in> blocked_environment_keys
         \<or> (\<exists>b\<in>{''SECRET'', ''PASSWORD'', ''POSTGRES_URL''}. contains b key_upper))"

fun validate_environment :: "(py_value \<times> py_value) list \<Rightarrow> (string, string) dict \<Rightarrow> (string, string) dict res" where
  "validate_environment [] env = Inr env"
| "validate_environment ((PyStr k, PyStr v) # rest) env =
     (if blocked_key k then Inl ValueError
      else if null_byte \<in> set k \<or> null_byte \<in> set v then Inl ValueError
      else validate_environment rest (dset k v env))"
| "validate_environment (_ # rest) env = Inl ValueError"

definition make_capabilities ::
  "string \<Rightarrow> filesystem_capability \<Rightarrow> (py_value \<times> py_value) list \<Rightarrow> network_capability \<Rightarrow> resource_limits
     \<Rightarrow> capabilities res" where
  "make_capabilities pid fs env net lim =
     (if pid = [] then Inl ValueError
      else res_bind (validate_environment env []) (\<lambda>e.
        Inr \<lparr>cp_profile_id = pid, cp_filesystem = fs, cp_environment = e, cp_network = net, cp_resources = lim\<rparr>))"

record capability_canonical =
  cc_profile_id :: string
  cc_workspace_root :: string
  cc_read_only :: bool
  cc_allowed_subpaths :: "string list"
  cc_allow_temp_writes :: bool
  cc_environment :: "(string \<times> string) list"
  cc_allow_bind :: bool
  cc_allow_unix_sockets :: bool
  cc_allowed_destinations :: "string list"
  cc_mode :: egress_mode
  cc_max_memory_bytes :: nat
  cc_max_cpu :: duration
  cc_max_output_bytes :: nat
  cc_wall_clock :: duration
  cc_required_controls :: "string list"

definition canonical_capability :: "capabilities \<Rightarrow> capability_canonical" where
  "canonical_capability c =
     \<lparr>cc_profile_id = cp_profile_id c,
      cc_workspace_root = fc_workspace_root (cp_filesystem c),
      cc_read_only = fc_read_only (cp_filesystem c),
      cc_allowed_subpaths = sorted_list_of_set (set (fc_allowed_subpaths (cp_filesystem c))),
      cc_allow_temp_writes = fc_allow_temp_writes (cp_filesystem c),
      cc_environment = sort_key fst (cp_environment c),
      cc_allow_bind = nc_allow_bind (cp_network c),
      cc_allow_unix_sockets = nc_allow_unix_sockets (cp_network c),
      cc_allowed_destinations = sorted_list_of_set (set (nc_allowed_destinations (cp_network c))),
      cc_mode = nc_mode (cp_network c),
      cc_max_memory_bytes = lim_max_memory_bytes (cp_resources c),
      cc_max_cpu = lim_max_cpu (cp_resources c),
      cc_max_output_bytes = lim_max_output_bytes (cp_resources c),
      cc_wall_clock = lim_wall_clock (cp_resources c),
      cc_required_controls = sorted_list_of_set (set (lim_required_controls (cp_resources c)))\<rparr>"

type_synonym sha = "capability_canonical \<Rightarrow> string"

definition compute_digest :: "sha \<Rightarrow> capabilities \<Rightarrow> string" where
  "compute_digest sha c = sha (canonical_capability c)"

subsection \<open>Profile registry\<close>

type_synonym profile_registry = "(string, capabilities) dict"

definition register_profile :: "capabilities \<Rightarrow> profile_registry \<Rightarrow> profile_registry" where
  "register_profile c reg = dset (cp_profile_id c) c reg"

definition resolve_profile :: "profile_registry \<Rightarrow> string \<Rightarrow> capabilities res" where
  "resolve_profile reg pid =
     (case dget reg pid of None \<Rightarrow> Inl CapabilityProfileNotFoundError | Some c \<Rightarrow> Inr c)"

definition profile_exists :: "profile_registry \<Rightarrow> string \<Rightarrow> bool" where
  "profile_exists reg pid \<longleftrightarrow> dget reg pid \<noteq> None"

definition list_profiles :: "profile_registry \<Rightarrow> capabilities list" where
  "list_profiles reg = dvals reg"

definition verify_capability_binding :: "sha \<Rightarrow> grant \<Rightarrow> capabilities \<Rightarrow> unit res" where
  "verify_capability_binding sha g c =
     (case gr_capability_profile_id g of
        None \<Rightarrow> Inl CapabilityProfileNotFoundError
      | Some pid \<Rightarrow>
          if pid \<noteq> cp_profile_id c then Inl CapabilityDigestMismatchError
          else (case gr_capability_digest g of
                  None \<Rightarrow> Inl CapabilityDigestMismatchError
                | Some expected \<Rightarrow>
                    if compute_digest sha c \<noteq> expected then Inl CapabilityDigestMismatchError else Inr ()))"

subsection \<open>Construction\<close>

lemma res_map_all: "res_map f xs = Inr ys \<Longrightarrow> \<forall>x\<in>set xs. \<forall>y. f x = Inr y \<longrightarrow> P y \<Longrightarrow> list_all P ys"
  by (induction xs arbitrary: ys) (auto simp: res_bind_Inr)

definition destination_ok :: "destination \<Rightarrow> bool" where
  "destination_ok d \<longleftrightarrow> nd_host d \<noteq> [] \<and> CHR '' '' \<notin> set (nd_host d) \<and> null_byte \<notin> set (nd_host d)
     \<and> 1 \<le> nd_port d \<and> nd_port d \<le> 65535"

lemma make_destination_ok: "make_destination h p = Inr d \<Longrightarrow> destination_ok d"
  by (auto simp: make_destination_def validate_host_def destination_ok_def Let_def res_bind_Inr split: if_splits)

lemma normalize_obj_ok:
  "normalize_destination_obj x = Inr d \<Longrightarrow> (\<And>o'. x = DestObject o' \<Longrightarrow> destination_ok o') \<Longrightarrow> destination_ok d"
  by (auto simp: normalize_destination_obj_def make_destination_ok
      split: destination_input.splits list.splits option.splits)

lemma parse_allowed_ok: "parse_allowed x = Inr d \<Longrightarrow> destination_ok d"
  by (auto simp: parse_allowed_def make_destination_ok split: list.splits option.splits)

definition subpath_ok :: "string \<Rightarrow> bool" where
  "subpath_ok p \<longleftrightarrow> \<not> prefix ''/'' p \<and> ''..'' \<notin> set (path_parts p) \<and> null_byte \<notin> set p"

lemma set_strip_chars: "set (strip_chars cs s) \<subseteq> set s"
  by (auto simp: strip_chars_def dest!: set_dropWhileD)

lemma split_on_nonempty [simp]: "split_on sep s \<noteq> []"
  by (induction s) (auto split: list.splits)

lemma split_on_none: "sep \<notin> set x \<Longrightarrow> split_on sep x = [x]"
  by (induction x) auto

lemma split_on_first: "sep \<notin> set x \<Longrightarrow> split_on sep (x @ sep # ys) = x # split_on sep ys"
  by (induction x) auto

lemma split_on_join:
  "xs \<noteq> [] \<Longrightarrow> \<forall>x\<in>set xs. sep \<notin> set x \<Longrightarrow> split_on sep (join [sep] xs) = xs"
  by (induction "[sep]" xs rule: join.induct) (auto simp: split_on_none split_on_first)

lemma split_on_no_sep: "p \<in> set (split_on sep s) \<Longrightarrow> sep \<notin> set p"
  by (induction s arbitrary: p) (auto split: if_splits list.splits)

lemma split_on_snoc: "split_on sep (s @ [sep]) = split_on sep s @ [[]]"
  by (induction s) (auto split: list.splits)

lemma path_parts_snoc: "path_parts (s @ ''/'') = path_parts s"
  by (simp add: path_parts_def split_on_snoc)

lemma rstrip_parts: "path_parts (rev (dropWhile (\<lambda>c. c = CHR ''/'') (rev s))) = path_parts s"
  by (induction s rule: rev_induct) (auto simp: path_parts_snoc)

lemma stripped_subpath_ok:
  assumes "null_byte \<notin> set item" "\<not> prefix ''/'' item" "''..'' \<notin> set (path_parts item)"
  shows "subpath_ok (strip_chars {CHR ''/''} item)"
proof -
  have drop: "dropWhile (\<lambda>c. c \<in> {CHR ''/''}) item = item"
    using assms(2) by (cases item) auto
  have eq: "strip_chars {CHR ''/''} item = rev (dropWhile (\<lambda>c. c = CHR ''/'') (rev item))"
    using drop by (simp add: strip_chars_def)
  have "path_parts (strip_chars {CHR ''/''} item) = path_parts item"
    by (simp only: eq rstrip_parts)
  moreover have "set (strip_chars {CHR ''/''} item) \<subseteq> set item"
    by (rule set_strip_chars)
  moreover have "prefix (strip_chars {CHR ''/''} item) item"
    unfolding eq by (metis rev_rev_ident suffix_dropWhile suffix_to_prefix)
  ultimately show ?thesis
    using assms prefix_order.trans [of "''/''" "strip_chars {CHR ''/''} item" item] by (auto simp: subpath_ok_def)
qed

lemma normalized_subpaths_ok: "normalize_allowed_subpaths vs = Inr ps \<Longrightarrow> list_all subpath_ok ps"
  by (induction vs arbitrary: ps)
     (auto simp: res_bind_Inr stripped_subpath_ok split: py_value.splits if_splits)

lemma validated_environment:
  "validate_environment items env = Inr env' \<Longrightarrow> distinct (dkeys env) \<Longrightarrow> (\<forall>k\<in>set (dkeys env). \<not> blocked_key k) \<Longrightarrow>
   distinct (dkeys env') \<and> (\<forall>k\<in>set (dkeys env'). \<not> blocked_key k)"
proof (induction items env rule: validate_environment.induct)
  case (2 k v rest env)
  have "set (dkeys (dset k v env)) \<subseteq> insert k (set (dkeys env))"
    by (induction env) auto
  then have "\<forall>x\<in>set (dkeys (dset k v env)). \<not> blocked_key x" if "\<not> blocked_key k"
    using that 2(4) by blast
  with 2 show ?case by (simp split: if_splits)
qed auto

definition capabilities_ok :: "capabilities \<Rightarrow> bool" where
  "capabilities_ok c \<longleftrightarrow>
     cp_profile_id c \<noteq> []
     \<and> list_all subpath_ok (fc_allowed_subpaths (cp_filesystem c))
     \<and> distinct (dkeys (cp_environment c)) \<and> (\<forall>k\<in>set (dkeys (cp_environment c)). \<not> blocked_key k)
     \<and> list_all destination_ok (nc_destinations (cp_network c))
     \<and> set (lim_required_controls (cp_resources c)) \<subseteq> {''memory'', ''cpu''}
     \<and> 0 < lim_max_memory_bytes (cp_resources c) \<and> lim_max_memory_bytes (cp_resources c) \<le> 4 * 1024 * 1024 * 1024
     \<and> 0 < lim_max_cpu (cp_resources c) \<and> lim_max_cpu (cp_resources c) \<le> 300 * 1000000
     \<and> 0 < lim_wall_clock (cp_resources c) \<and> lim_wall_clock (cp_resources c) \<le> 600 * 1000000"

lemma make_network_ok:
  assumes "make_network mode dests allowed unix bnd = Inr n"
    and "\<forall>d. DestObject d \<in> set dests \<longrightarrow> destination_ok d"
  shows "list_all destination_ok (nc_destinations n)"
proof -
  obtain ds al where ds: "res_map normalize_destination_obj dests = Inr ds"
    and n: "network_post_init \<lparr>nc_mode = mode, nc_destinations = ds, nc_allowed_destinations = al,
              nc_allow_unix_sockets = unix, nc_allow_bind = bnd\<rparr> = Inr n"
    using assms(1) by (auto simp: make_network_def res_bind_Inr)
  have "list_all destination_ok ds"
    using ds by (rule res_map_all) (auto intro: normalize_obj_ok assms(2) [rule_format])
  moreover have "list_all destination_ok ds'" if "res_map parse_allowed al = Inr ds'" for ds'
    using that by (rule res_map_all) (auto intro: parse_allowed_ok)
  ultimately show ?thesis
    using n by (auto simp: network_post_init_def res_bind_Inr split: if_splits)
qed

lemma make_limits_ok:
  assumes "make_limits mem cpu out wall controls = Inr l"
  shows "set (lim_required_controls l) \<subseteq> {''memory'', ''cpu''}
     \<and> 0 < lim_max_memory_bytes l \<and> lim_max_memory_bytes l \<le> 4 * 1024 * 1024 * 1024
     \<and> 0 < lim_max_cpu l \<and> lim_max_cpu l \<le> 300 * 1000000 \<and> 0 < lim_wall_clock l \<and> lim_wall_clock l \<le> 600 * 1000000"
  using assms by (auto simp: make_limits_def validate_required_controls_def res_bind_Inr split: if_splits)


definition ex_limits :: resource_limits where
  "ex_limits = \<lparr>lim_max_memory_bytes = 1024, lim_max_cpu = 5000000, lim_max_output_bytes = 1024,
     lim_wall_clock = 10000000, lim_required_controls = [''memory'']\<rparr>"

definition ex_fs :: filesystem_capability where
  "ex_fs = \<lparr>fc_workspace_root = ''/w'', fc_read_only = True, fc_allowed_subpaths = [''docs''], fc_allow_temp_writes = False\<rparr>"

definition ex_net :: network_capability where
  "ex_net = \<lparr>nc_mode = EGRESS_DISABLED, nc_destinations = [], nc_allowed_destinations = [],
     nc_allow_unix_sockets = False, nc_allow_bind = False\<rparr>"

definition ex_caps :: capabilities where
  "ex_caps = \<lparr>cp_profile_id = ''p'', cp_filesystem = ex_fs, cp_environment = [(''LANG'', ''C'')],
     cp_network = ex_net, cp_resources = ex_limits\<rparr>"


text \<open>
  The check that a disabled network has no destinations sits in the validator of
  \<^verbatim>\<open>allowed_destinations\<close>, which does not run when that field is omitted.
\<close>

lemma disabled_with_destinations_accepted:
  "make_network EGRESS_DISABLED [DestDict ''h'' 80] None False False
     = Inr \<lparr>nc_mode = EGRESS_DISABLED, nc_destinations = [\<lparr>nd_host = ''h'', nd_port = 80\<rparr>],
            nc_allowed_destinations = [''h:80''], nc_allow_unix_sockets = False, nc_allow_bind = False\<rparr>"
  by (simp add: make_network_def normalize_destination_obj_def make_destination_def validate_host_def strip_def
      is_space_def casefold_def lower_char_def null_byte_def network_post_init_def destination_string_def
      decimal.simps digit_def Let_def char_of_eq_iff)

subsection \<open>Digests\<close>

definition same_enforced :: "capabilities \<Rightarrow> capabilities \<Rightarrow> bool" where
  "same_enforced c d \<longleftrightarrow>
     cp_profile_id c = cp_profile_id d
     \<and> fc_workspace_root (cp_filesystem c) = fc_workspace_root (cp_filesystem d)
     \<and> fc_read_only (cp_filesystem c) = fc_read_only (cp_filesystem d)
     \<and> set (fc_allowed_subpaths (cp_filesystem c)) = set (fc_allowed_subpaths (cp_filesystem d))
     \<and> fc_allow_temp_writes (cp_filesystem c) = fc_allow_temp_writes (cp_filesystem d)
     \<and> map_of (cp_environment c) = map_of (cp_environment d)
     \<and> nc_mode (cp_network c) = nc_mode (cp_network d)
     \<and> set (nc_allowed_destinations (cp_network c)) = set (nc_allowed_destinations (cp_network d))
     \<and> nc_allow_unix_sockets (cp_network c) = nc_allow_unix_sockets (cp_network d)
     \<and> nc_allow_bind (cp_network c) = nc_allow_bind (cp_network d)
     \<and> lim_max_memory_bytes (cp_resources c) = lim_max_memory_bytes (cp_resources d)
     \<and> lim_max_cpu (cp_resources c) = lim_max_cpu (cp_resources d)
     \<and> lim_max_output_bytes (cp_resources c) = lim_max_output_bytes (cp_resources d)
     \<and> lim_wall_clock (cp_resources c) = lim_wall_clock (cp_resources d)
     \<and> set (lim_required_controls (cp_resources c)) = set (lim_required_controls (cp_resources d))"

lemma sorted_set_eq_iff: "sorted_list_of_set (set xs) = sorted_list_of_set (set ys) \<longleftrightarrow> set xs = set ys"
  by (metis List.finite_set set_sorted_list_of_set)

lemma sort_key_eq_iff:
  assumes "distinct (dkeys xs)" "distinct (dkeys ys)"
  shows "sort_key fst xs = sort_key fst ys \<longleftrightarrow> map_of xs = map_of ys"
proof
  assume "sort_key fst xs = sort_key fst ys"
  then have "set xs = set ys" by (metis set_sort)
  with assms show "map_of xs = map_of ys" by (simp add: map_of_inject_set)
next
  assume "map_of xs = map_of ys"
  with assms have s: "set xs = set ys" by (simp add: map_of_inject_set)
  have inj: "inj_on fst (set (sort_key fst xs) \<union> set (sort_key fst ys))"
    using assms(1) by (simp add: s [symmetric] distinct_map)
  have d: "distinct (map fst (sort_key fst xs))" "distinct (map fst (sort_key fst ys))"
    using assms by (simp_all add: distinct_map)
  have "sorted (map fst (sort_key fst xs))" "sorted (map fst (sort_key fst ys))" by simp_all
  with d inj s show "sort_key fst xs = sort_key fst ys"
    by (intro map_sorted_distinct_set_unique [of fst]) (auto simp: distinct_map)
qed

lemma canonical_eq_iff:
  assumes "distinct (dkeys (cp_environment c))" "distinct (dkeys (cp_environment d))"
  shows "canonical_capability c = canonical_capability d \<longleftrightarrow> same_enforced c d"
  by (auto simp: canonical_capability_def same_enforced_def sorted_set_eq_iff sort_key_eq_iff [OF assms])

text \<open>
  The capability binding of a grant holds its execution to the capability set it was issued for.
  When the hash does not collide on the two sets compared, a grant issued for the profile \<open>p\<close> passes the verification against a
  resolved profile \<open>c\<close> exactly when \<open>c\<close> has the identifier of \<open>p\<close> and agrees with it in everything
  that is enforced: file system, environment, network and limits, up to the order and repetition of
  the collections that have none. A grant without a profile or without a digest never passes.
\<close>

theorem capability_binding_exact:
  assumes "inj_on sha {canonical_capability c, canonical_capability p}"
    and "capabilities_ok c" and "capabilities_ok p"
    and "gr_capability_profile_id g = Some (cp_profile_id p)"
    and "gr_capability_digest g = Some (compute_digest sha p)"
  shows "(verify_capability_binding sha g c = Inr () \<longleftrightarrow> same_enforced c p)
     \<and> (\<forall>h. gr_capability_profile_id h = None \<or> gr_capability_digest h = None \<longrightarrow>
            verify_capability_binding sha h c \<noteq> Inr ())"
proof -
  have "canonical_capability c = canonical_capability p \<longleftrightarrow> same_enforced c p"
    using assms(2,3) by (intro canonical_eq_iff) (simp_all add: capabilities_ok_def)
  then have digest: "compute_digest sha c = compute_digest sha p \<longleftrightarrow> same_enforced c p"
    using inj_on_eq_iff [OF assms(1), of "canonical_capability c" "canonical_capability p"]
    by (simp add: compute_digest_def)
  have "verify_capability_binding sha g c = Inr () \<longleftrightarrow>
      cp_profile_id p = cp_profile_id c \<and> compute_digest sha c = compute_digest sha p"
    by (simp add: verify_capability_binding_def assms(4,5))
  then have "verify_capability_binding sha g c = Inr () \<longleftrightarrow> same_enforced c p"
    unfolding digest by (auto simp: same_enforced_def)
  moreover have "verify_capability_binding sha h c \<noteq> Inr ()"
    if "gr_capability_profile_id h = None \<or> gr_capability_digest h = None" for h
    using that by (auto simp: verify_capability_binding_def split: option.splits)
  ultimately show ?thesis by blast
qed

definition ex_sha :: sha where
  "ex_sha cc = (if cc_read_only cc then ''read-only'' else ''writable'')"

definition ex_widened :: capabilities where
  "ex_widened = ex_caps\<lparr>cp_filesystem := ex_fs\<lparr>fc_read_only := False\<rparr>\<rparr>"

lemma ex_caps_ok: "capabilities_ok ex_caps" "capabilities_ok ex_widened"
  by (simp_all add: capabilities_ok_def ex_caps_def ex_widened_def ex_fs_def ex_net_def ex_limits_def subpath_ok_def
      path_parts_def null_byte_def blocked_key_def upper_def upper_char_def strip_def is_space_def
      blocked_environment_keys_def Let_def)

theorem capability_binding_exact_witness:
  "verify_capability_binding ex_sha
     (ex_grant\<lparr>gr_capability_profile_id := Some ''p'', gr_capability_digest := Some (compute_digest ex_sha ex_caps)\<rparr>)
     ex_widened \<noteq> Inr ()"
proof -
  let ?g = "ex_grant\<lparr>gr_capability_profile_id := Some ''p'', gr_capability_digest := Some (compute_digest ex_sha ex_caps)\<rparr>"
  have "\<not> same_enforced ex_widened ex_caps"
    by (simp add: same_enforced_def ex_widened_def ex_caps_def ex_fs_def)
  moreover have "inj_on ex_sha {canonical_capability ex_widened, canonical_capability ex_caps}"
    by (simp add: inj_on_def ex_sha_def canonical_capability_def ex_widened_def ex_caps_def ex_fs_def)
  moreover have "gr_capability_profile_id ?g = Some (cp_profile_id ex_caps)"
    and "gr_capability_digest ?g = Some (compute_digest ex_sha ex_caps)"
    by (simp_all add: ex_caps_def)
  ultimately show ?thesis
    using capability_binding_exact [THEN conjunct1] ex_caps_ok by blast
qed

end
