(* ===== verification/Evidence.thy ===== *)
theory Evidence
  imports Finding_Model
begin

section \<open>Execution evidence and audit evidence\<close>

text \<open>
  The receipts of \<^verbatim>\<open>app/models/execution_receipt.py\<close>, the store of
  \<^verbatim>\<open>app/services/execution_evidence_service.py\<close>, the reconciler of
  \<^verbatim>\<open>app/services/execution_reconciler.py\<close>, and the append-only audit log
  (\<^verbatim>\<open>app/models/audit_event.py\<close>, \<^verbatim>\<open>app/services/audit_service.py\<close>,
  \<^verbatim>\<open>app/repositories/in_memory/audit_evidence_repository.py\<close>). Seconds and milliseconds are integers.
  Construction of a receipt validates it; a failure is \<open>ValueError\<close>.
\<close>

subsection \<open>Receipts\<close>

datatype execution_status = EX_STARTED | EX_SUCCEEDED | EX_FAILED | EX_TIMEOUT | EX_INTERRUPTED | EX_UNKNOWN

datatype reconciliation_reason = PROCESS_RESTART | EXECUTION_TIMEOUT | WORKER_LOST | EVIDENCE_UNAVAILABLE

record receipt =
  rc_receipt_id :: string
  rc_grant_id :: string
  rc_session_id :: string
  rc_agent_id :: string
  rc_request_id :: string
  rc_tool_id :: string
  rc_tool_version :: string
  rc_implementation_id :: string
  rc_binding_hash :: string
  rc_capability_profile_id :: string
  rc_capability_digest :: string
  rc_declared_timeout :: duration
  rc_status :: execution_status
  rc_started_at :: instant
  rc_completed_at :: "instant option"
  rc_reconciled_at :: "instant option"
  rc_duration_ms :: "int option"
  rc_error_type :: "string option"
  rc_error_code :: "string option"
  rc_reconciliation_reason :: "reconciliation_reason option"
  rc_output_digest :: "string option"

definition receipt_valid :: "receipt \<Rightarrow> bool" where
  "receipt_valid r \<longleftrightarrow>
     [] \<notin> set [rc_receipt_id r, rc_grant_id r, rc_session_id r, rc_agent_id r, rc_request_id r, rc_tool_id r,
              rc_tool_version r, rc_implementation_id r, rc_binding_hash r, rc_capability_profile_id r,
              rc_capability_digest r]
     \<and> 0 < rc_declared_timeout r
     \<and> (case rc_duration_ms r of None \<Rightarrow> True | Some d \<Rightarrow> 0 \<le> d)"

definition allowed_terminal_statuses :: "execution_status set" where
  "allowed_terminal_statuses = {EX_SUCCEEDED, EX_FAILED, EX_TIMEOUT, EX_INTERRUPTED}"

subsection \<open>The store\<close>

record evidence_store =
  ev_failure_count :: nat
  ev_reconciled_unknown_count :: nat
  ev_max_terminal :: nat
  ev_receipts :: "(string, receipt) dict"
  ev_grant_to_receipt :: "(string, string) dict"
  ev_monotonic_starts :: "(string, int) dict"

definition new_evidence_store :: "nat \<Rightarrow> evidence_store res" where
  "new_evidence_store max_terminal =
     (if max_terminal < 1 then Inl ValueError
      else Inr \<lparr>ev_failure_count = 0, ev_reconciled_unknown_count = 0, ev_max_terminal = max_terminal,
                ev_receipts = [], ev_grant_to_receipt = [], ev_monotonic_starts = []\<rparr>)"

definition open_receipt_count :: "evidence_store \<Rightarrow> nat" where
  "open_receipt_count s = length (filter (\<lambda>r. rc_status r = EX_STARTED) (dvals (ev_receipts s)))"

definition terminal_receipt_count :: "evidence_store \<Rightarrow> nat" where
  "terminal_receipt_count s = length (filter (\<lambda>r. rc_status r \<noteq> EX_STARTED) (dvals (ev_receipts s)))"

definition evict :: "receipt \<Rightarrow> evidence_store \<Rightarrow> evidence_store" where
  "evict r s =
     s\<lparr>ev_receipts := ddel (rc_receipt_id r) (ev_receipts s),
       ev_grant_to_receipt := ddel (rc_grant_id r) (ev_grant_to_receipt s),
       ev_monotonic_starts := ddel (rc_receipt_id r) (ev_monotonic_starts s)\<rparr>"

definition prune_terminal :: "evidence_store \<Rightarrow> evidence_store" where
  "prune_terminal s =
     (let terminal = filter (\<lambda>r. rc_status r \<noteq> EX_STARTED) (dvals (ev_receipts s));
          excess = length terminal - ev_max_terminal s
      in fold evict (take excess (sort_key rc_started_at terminal)) s)"

definition record_started :: "receipt \<Rightarrow> int option \<Rightarrow> (evidence_store, receipt) eff" where
  "record_started r monotonic_start s =
     (if dget (ev_receipts s) (rc_receipt_id r) \<noteq> None
        then (Inl ExecutionReceiptDuplicateError, s\<lparr>ev_failure_count := ev_failure_count s + 1\<rparr>)
      else if dget (ev_grant_to_receipt s) (rc_grant_id r) \<noteq> None
        then (Inl ExecutionReceiptDuplicateError, s\<lparr>ev_failure_count := ev_failure_count s + 1\<rparr>)
      else let started = r\<lparr>rc_status := EX_STARTED, rc_completed_at := None, rc_reconciled_at := None,
                           rc_duration_ms := None, rc_error_type := None, rc_error_code := None,
                           rc_reconciliation_reason := None, rc_output_digest := None\<rparr>
           in if \<not> receipt_valid started then (Inl ValueError, s)
              else (Inr started,
                    s\<lparr>ev_receipts := dset (rc_receipt_id r) started (ev_receipts s),
                      ev_grant_to_receipt := dset (rc_grant_id r) (rc_receipt_id r) (ev_grant_to_receipt s),
                      ev_monotonic_starts :=
                        (case monotonic_start of
                           None \<Rightarrow> ev_monotonic_starts s
                         | Some m \<Rightarrow> dset (rc_receipt_id r) m (ev_monotonic_starts s))\<rparr>))"

definition terminalized ::
  "receipt \<Rightarrow> execution_status \<Rightarrow> instant \<Rightarrow> int \<Rightarrow> string option \<Rightarrow> string option \<Rightarrow> string option \<Rightarrow> receipt" where
  "terminalized r status completed_at duration_ms error_type error_code digest =
     r\<lparr>rc_status := status, rc_completed_at := Some completed_at, rc_reconciled_at := None,
       rc_duration_ms := Some duration_ms, rc_error_type := error_type, rc_error_code := error_code,
       rc_reconciliation_reason := None, rc_output_digest := digest\<rparr>"

text \<open>Storing a terminal receipt: replace it, drop its start reading, then prune.\<close>

definition store_terminal :: "receipt \<Rightarrow> evidence_store \<Rightarrow> evidence_store" where
  "store_terminal r s =
     prune_terminal (s\<lparr>ev_receipts := dset (rc_receipt_id r) r (ev_receipts s),
                       ev_monotonic_starts := ddel (rc_receipt_id r) (ev_monotonic_starts s)\<rparr>)"

definition record_terminal ::
  "string \<Rightarrow> execution_status \<Rightarrow> instant \<Rightarrow> int \<Rightarrow> string option \<Rightarrow> string option \<Rightarrow> string option
     \<Rightarrow> (evidence_store, receipt) eff" where
  "record_terminal rid status completed_at duration_ms error_type error_code digest s =
     (if status \<notin> allowed_terminal_statuses then (Inl ExecutionReceiptTransitionError, s)
      else case dget (ev_receipts s) rid of
             None \<Rightarrow> (Inl ExecutionReceiptNotFoundError, s)
           | Some existing \<Rightarrow>
               if rc_status existing \<noteq> EX_STARTED then (Inl ExecutionReceiptTransitionError, s)
               else let t = terminalized existing status completed_at duration_ms error_type error_code digest
                    in if \<not> receipt_valid t then (Inl ValueError, s) else (Inr t, store_terminal t s))"

definition reconciled :: "receipt \<Rightarrow> instant \<Rightarrow> reconciliation_reason \<Rightarrow> receipt" where
  "reconciled r reconciled_at reason =
     r\<lparr>rc_status := EX_UNKNOWN, rc_completed_at := None, rc_reconciled_at := Some reconciled_at,
       rc_duration_ms := None, rc_error_type := None, rc_error_code := None,
       rc_reconciliation_reason := Some reason, rc_output_digest := None\<rparr>"

definition record_reconciled :: "string \<Rightarrow> instant \<Rightarrow> reconciliation_reason \<Rightarrow> (evidence_store, receipt) eff" where
  "record_reconciled rid reconciled_at reason s =
     (case dget (ev_receipts s) rid of
        None \<Rightarrow> (Inl ExecutionReceiptNotFoundError, s)
      | Some existing \<Rightarrow>
          if rc_status existing \<noteq> EX_STARTED then (Inl ExecutionReceiptTransitionError, s)
          else let t = reconciled existing reconciled_at reason
               in if \<not> receipt_valid t then (Inl ValueError, s)
                  else (Inr t, store_terminal t (s\<lparr>ev_reconciled_unknown_count := ev_reconciled_unknown_count s + 1\<rparr>)))"

definition get_receipt :: "evidence_store \<Rightarrow> string \<Rightarrow> receipt option" where
  "get_receipt s rid = dget (ev_receipts s) rid"

definition get_by_grant :: "evidence_store \<Rightarrow> string \<Rightarrow> receipt option" where
  "get_by_grant s gid = Option.bind (dget (ev_grant_to_receipt s) gid) (dget (ev_receipts s))"

definition get_monotonic_start :: "evidence_store \<Rightarrow> string \<Rightarrow> int option" where
  "get_monotonic_start s rid = dget (ev_monotonic_starts s) rid"

definition list_open :: "evidence_store \<Rightarrow> receipt list" where
  "list_open s = filter (\<lambda>r. rc_status r = EX_STARTED) (dvals (ev_receipts s))"

definition list_receipts :: "evidence_store \<Rightarrow> string option \<Rightarrow> string option \<Rightarrow> receipt list" where
  "list_receipts s sid aid =
     filter (\<lambda>r. (sid = None \<or> Some (rc_session_id r) = sid) \<and> (aid = None \<or> Some (rc_agent_id r) = aid))
       (dvals (ev_receipts s))"

subsection \<open>The reconciler\<close>

definition reconcile_one :: "instant \<Rightarrow> reconciliation_reason \<Rightarrow> receipt \<Rightarrow> evidence_store \<Rightarrow> receipt option \<times> evidence_store" where
  "reconcile_one now reason r s =
     (case record_reconciled (rc_receipt_id r) now reason s of
        (Inr t, s') \<Rightarrow> (Some t, s')
      | (Inl _, s') \<Rightarrow> (None, s'))"

definition default_recovery_grace :: duration where
  "default_recovery_grace = 10000000"

definition reconcile_reason :: "duration \<Rightarrow> int \<Rightarrow> evidence_store \<Rightarrow> receipt \<Rightarrow> reconciliation_reason option" where
  "reconcile_reason grace current s r =
     (case get_monotonic_start s (rc_receipt_id r) of
        None \<Rightarrow> Some EVIDENCE_UNAVAILABLE
      | Some start \<Rightarrow> if current \<ge> start + rc_declared_timeout r + grace then Some EXECUTION_TIMEOUT else None)"

fun reconcile_each ::
  "(evidence_store \<Rightarrow> receipt \<Rightarrow> reconciliation_reason option) \<Rightarrow> instant \<Rightarrow> receipt list \<Rightarrow> evidence_store
     \<Rightarrow> receipt list \<times> evidence_store" where
  "reconcile_each why now [] s = ([], s)"
| "reconcile_each why now (r # rs) s =
     (case why s r of
        None \<Rightarrow> reconcile_each why now rs s
      | Some reason \<Rightarrow>
          let (t, s1) = reconcile_one now reason r s; (ts, s2) = reconcile_each why now rs s1
          in (case t of None \<Rightarrow> ts | Some x \<Rightarrow> x # ts, s2))"

definition reconcile_on_startup :: "instant \<Rightarrow> evidence_store \<Rightarrow> receipt list \<times> evidence_store" where
  "reconcile_on_startup now s = reconcile_each (\<lambda>_ _. Some PROCESS_RESTART) now (list_open s) s"

definition reconcile_unresolved :: "duration \<Rightarrow> instant \<Rightarrow> int \<Rightarrow> evidence_store \<Rightarrow> receipt list \<times> evidence_store" where
  "reconcile_unresolved grace now current s = reconcile_each (reconcile_reason grace current) now (list_open s) s"

subsection \<open>The audit log\<close>

record audit_event =
  ae_event_id :: string
  ae_session_id :: string
  ae_agent_id :: string
  ae_requested_tool_id :: string
  ae_tool_id :: "string option"
  ae_tool_version :: "string option"
  ae_decision :: decision
  ae_timestamp :: instant

definition make_audit_event :: "audit_event \<Rightarrow> audit_event res" where
  "make_audit_event e =
     (if ae_tool_version e \<noteq> None \<and> ae_tool_id e = None then Inl ValueError else Inr e)"

definition audit_append :: "audit_event \<Rightarrow> audit_event list \<Rightarrow> audit_event list" where
  "audit_append e log = log @ [e]"

definition audit_get :: "audit_event list \<Rightarrow> string \<Rightarrow> audit_event option" where
  "audit_get log eid = find (\<lambda>e. ae_event_id e = eid) log"

definition audit_query :: "audit_event list \<Rightarrow> string option \<Rightarrow> string option \<Rightarrow> nat \<Rightarrow> nat \<Rightarrow> audit_event list" where
  "audit_query log sid aid limit offset =
     take limit (drop offset
       (sort_key (\<lambda>e. (ae_timestamp e, ae_event_id e))
         (filter (\<lambda>e. (sid = None \<or> Some (ae_session_id e) = sid) \<and> (aid = None \<or> Some (ae_agent_id e) = aid)) log)))"

definition audit_record_event :: "audit_event \<Rightarrow> audit_event list \<Rightarrow> audit_event \<times> audit_event list" where
  "audit_record_event e log = (e, audit_append e log)"

subsection \<open>Invariant of the store\<close>

definition indexed :: "evidence_store \<Rightarrow> bool" where
  "indexed s \<longleftrightarrow>
     distinct (dkeys (ev_receipts s))
     \<and> (\<forall>rid r. dget (ev_receipts s) rid = Some r \<longrightarrow>
          rc_receipt_id r = rid \<and> receipt_valid r \<and> dget (ev_grant_to_receipt s) (rc_grant_id r) = Some rid)
     \<and> (\<forall>gid rid. dget (ev_grant_to_receipt s) gid = Some rid \<longrightarrow>
          (\<exists>r. dget (ev_receipts s) rid = Some r \<and> rc_grant_id r = gid))
     \<and> (\<forall>rid m. dget (ev_monotonic_starts s) rid = Some m \<longrightarrow>
          (\<exists>r. dget (ev_receipts s) rid = Some r \<and> rc_status r = EX_STARTED))"

definition evidence_inv :: "evidence_store \<Rightarrow> bool" where
  "evidence_inv s \<longleftrightarrow> indexed s \<and> 1 \<le> ev_max_terminal s \<and> terminal_receipt_count s \<le> ev_max_terminal s"

definition terminal_receipts :: "evidence_store \<Rightarrow> receipt list" where
  "terminal_receipts s = filter (\<lambda>r. rc_status r \<noteq> EX_STARTED) (dvals (ev_receipts s))"

lemma indexedD:
  assumes "indexed s"
  shows "distinct (dkeys (ev_receipts s))"
    "dget (ev_receipts s) rid = Some r \<Longrightarrow> rc_receipt_id r = rid"
    "dget (ev_receipts s) rid = Some r \<Longrightarrow> receipt_valid r"
    "dget (ev_receipts s) rid = Some r \<Longrightarrow> dget (ev_grant_to_receipt s) (rc_grant_id r) = Some rid"
    "dget (ev_grant_to_receipt s) gid = Some rid \<Longrightarrow> \<exists>r. dget (ev_receipts s) rid = Some r \<and> rc_grant_id r = gid"
    "dget (ev_monotonic_starts s) rid = Some m \<Longrightarrow> \<exists>r. dget (ev_receipts s) rid = Some r \<and> rc_status r = EX_STARTED"
  using assms unfolding indexed_def by blast+

lemma indexed_ids:
  assumes "indexed s"
  shows "map rc_receipt_id (dvals (ev_receipts s)) = dkeys (ev_receipts s)"
  using indexedD(1,2) [OF assms] by (auto simp: map_of_eq_Some_iff)

lemma indexed_stored:
  "indexed s \<Longrightarrow> r \<in> set (dvals (ev_receipts s)) \<longleftrightarrow> dget (ev_receipts s) (rc_receipt_id r) = Some r"
  unfolding indexed_def by (metis dvals_iff)

lemma evict_receipts: "ev_receipts (fold evict rs s) = filter (\<lambda>(k, _). k \<notin> rc_receipt_id ` set rs) (ev_receipts s)"
proof (induction rs arbitrary: s)
  case Nil
  then show ?case by (auto intro!: filter_True [symmetric])
next
  case (Cons r rs)
  then show ?case
    by (auto simp: evict_def AList.delete_eq intro!: filter_cong)
qed

lemma evict_max [simp]: "ev_max_terminal (fold evict rs s) = ev_max_terminal s"
  "ev_failure_count (fold evict rs s) = ev_failure_count s"
  "ev_reconciled_unknown_count (fold evict rs s) = ev_reconciled_unknown_count s"
  by (induction rs arbitrary: s) (simp_all add: evict_def)

lemma evict_indexed:
  assumes inv: "indexed s" and r: "dget (ev_receipts s) (rc_receipt_id r) = Some r"
  shows "indexed (evict r s)"
proof -
  have g: "dget (ev_grant_to_receipt s) (rc_grant_id r) = Some (rc_receipt_id r)"
    by (rule indexedD(4) [OF inv r])
  have uniq: "rc_receipt_id q = rc_receipt_id r"
    if "dget (ev_receipts s) (rc_receipt_id q) = Some q" "rc_grant_id q = rc_grant_id r" for q
    using indexedD(4) [OF inv that(1)] that(2) g by simp
  show ?thesis
    unfolding indexed_def
  proof (intro conjI allI impI)
    show "distinct (dkeys (ev_receipts (evict r s)))" using indexedD(1) [OF inv] by (simp add: evict_def)
  next
    fix rid q assume "dget (ev_receipts (evict r s)) rid = Some q"
    then have q: "dget (ev_receipts s) rid = Some q" and ne: "rid \<noteq> rc_receipt_id r"
      by (auto simp: evict_def split: if_splits)
    note id = indexedD(2-4) [OF inv q]
    then show "rc_receipt_id q = rid" "receipt_valid q"
      by auto
    show "dget (ev_grant_to_receipt (evict r s)) (rc_grant_id q) = Some rid"
      using uniq [of q] q id ne by (auto simp: evict_def)
  next
    fix gid rid assume "dget (ev_grant_to_receipt (evict r s)) gid = Some rid"
    then have gid: "dget (ev_grant_to_receipt s) gid = Some rid" and ne: "gid \<noteq> rc_grant_id r"
      by (auto simp: evict_def split: if_splits)
    obtain q where q: "dget (ev_receipts s) rid = Some q" "rc_grant_id q = gid"
      using indexedD(5) [OF inv gid] by blast
    with ne r have "rid \<noteq> rc_receipt_id r" by auto
    with q show "\<exists>q. dget (ev_receipts (evict r s)) rid = Some q \<and> rc_grant_id q = gid"
      by (auto simp: evict_def)
  next
    fix rid m assume "dget (ev_monotonic_starts (evict r s)) rid = Some m"
    then have m: "dget (ev_monotonic_starts s) rid = Some m" and "rid \<noteq> rc_receipt_id r"
      by (auto simp: evict_def split: if_splits)
    then show "\<exists>q. dget (ev_receipts (evict r s)) rid = Some q \<and> rc_status q = EX_STARTED"
      using indexedD(6) [OF inv m] by (auto simp: evict_def)
  qed
qed

lemma evict_all_indexed:
  "indexed s \<Longrightarrow> distinct (map rc_receipt_id rs) \<Longrightarrow> \<forall>r\<in>set rs. dget (ev_receipts s) (rc_receipt_id r) = Some r \<Longrightarrow>
   indexed (fold evict rs s)"
proof (induction rs arbitrary: s)
  case (Cons r rs)
  have "dget (ev_receipts (evict r s)) (rc_receipt_id q) = Some q" if "q \<in> set rs" for q
  proof -
    have "rc_receipt_id r \<notin> rc_receipt_id ` set rs" using Cons.prems(2) by simp
    with that have "rc_receipt_id q \<noteq> rc_receipt_id r" by (metis imageI)
    moreover have "dget (ev_receipts s) (rc_receipt_id q) = Some q" using Cons.prems(3) that by simp
    ultimately show ?thesis by (simp add: evict_def)
  qed
  then have "indexed (fold evict rs (evict r s))"
    using Cons.prems by (intro Cons.IH evict_indexed) auto
  then show ?case by simp
qed simp

lemma terminal_ids_distinct:
  assumes "indexed s"
  shows "distinct (map rc_receipt_id (terminal_receipts s))"
proof -
  have "distinct (map rc_receipt_id (dvals (ev_receipts s)))"
    unfolding indexed_ids [OF assms] by (rule indexedD(1) [OF assms])
  then show ?thesis unfolding terminal_receipts_def by (rule distinct_map_filter)
qed

lemma filter_evicted:
  "map rc_receipt_id (dvals d) = dkeys d \<Longrightarrow>
   filter P (dvals (filter (\<lambda>(k, _). k \<notin> K) d)) = filter (\<lambda>r. rc_receipt_id r \<notin> K) (filter P (dvals d))"
  by (induction d) auto

lemma prune_fold:
  obtains rs where "prune_terminal s = fold evict rs s" "set rs \<subseteq> set (terminal_receipts s)"
    "rs = take (length (terminal_receipts s) - ev_max_terminal s) (sort_key rc_started_at (terminal_receipts s))"
proof -
  have "set (take n (sort_key rc_started_at (terminal_receipts s))) \<subseteq> set (terminal_receipts s)" for n
    using set_take_subset [of n "sort_key rc_started_at (terminal_receipts s)"] by simp
  then show ?thesis
    using that [OF _ _ refl] by (simp add: prune_terminal_def Let_def terminal_receipts_def)
qed

lemma prune_indexed:
  assumes "indexed s"
  shows "indexed (prune_terminal s)"
proof -
  obtain rs where rs: "prune_terminal s = fold evict rs s" "set rs \<subseteq> set (terminal_receipts s)"
    "rs = take (length (terminal_receipts s) - ev_max_terminal s) (sort_key rc_started_at (terminal_receipts s))"
    by (rule prune_fold)
  have "distinct (map rc_receipt_id (sort_key rc_started_at (terminal_receipts s)))"
    using terminal_ids_distinct [OF assms] by (simp add: distinct_map)
  then have "distinct (map rc_receipt_id rs)" unfolding rs(3) by (simp add: take_map [symmetric])
  moreover have "\<forall>r\<in>set rs. dget (ev_receipts s) (rc_receipt_id r) = Some r"
    using rs(2) indexed_stored [OF assms] by (auto simp: terminal_receipts_def)
  ultimately show ?thesis unfolding rs(1) by (intro evict_all_indexed assms)
qed

lemma prune_bounded:
  assumes "indexed s"
  shows "terminal_receipt_count (prune_terminal s) \<le> ev_max_terminal s"
proof -
  let ?T = "terminal_receipts s" and ?S = "sort_key rc_started_at (terminal_receipts s)"
  obtain rs where rs: "prune_terminal s = fold evict rs s" "set rs \<subseteq> set ?T" "rs = take (length ?T - ev_max_terminal s) ?S"
    by (rule prune_fold)
  let ?rest = "drop (length ?T - ev_max_terminal s) ?S"
  have split: "?S = rs @ ?rest" by (simp add: rs(3))
  have ids: "distinct (map rc_receipt_id ?S)"
    using terminal_ids_distinct [OF assms] by (simp add: distinct_map)
  have "terminal_receipt_count (prune_terminal s) = length (filter (\<lambda>r. rc_receipt_id r \<notin> rc_receipt_id ` set rs) ?T)"
    unfolding terminal_receipt_count_def rs(1) evict_receipts terminal_receipts_def
    by (simp only: filter_evicted [OF indexed_ids [OF assms]])
  also have "\<dots> = length (filter (\<lambda>r. rc_receipt_id r \<notin> rc_receipt_id ` set rs) ?S)"
    by (metis mset_filter mset_sort size_mset)
  also have "\<dots> = length ?rest"
  proof -
    have "filter (\<lambda>r. rc_receipt_id r \<notin> rc_receipt_id ` set rs) rs = []" by (simp add: filter_empty_conv)
    moreover have "filter (\<lambda>r. rc_receipt_id r \<notin> rc_receipt_id ` set rs) ?rest = ?rest"
      using ids by (subst (asm) split) (auto intro!: filter_True)
    ultimately show ?thesis by (subst split) simp
  qed
  also have "\<dots> \<le> ev_max_terminal s" by simp
  finally show ?thesis .
qed

lemma prune_max [simp]: "ev_max_terminal (prune_terminal s) = ev_max_terminal s"
  by (simp add: prune_terminal_def Let_def)

lemma prune_get:
  assumes "indexed s"
  shows "dget (ev_receipts (prune_terminal s)) rid = dget (ev_receipts s) rid
     \<or> (dget (ev_receipts (prune_terminal s)) rid = None
        \<and> (\<exists>r. dget (ev_receipts s) rid = Some r \<and> rc_status r \<noteq> EX_STARTED))"
proof -
  obtain rs where rs: "prune_terminal s = fold evict rs s" "set rs \<subseteq> set (terminal_receipts s)"
    by (rule prune_fold)
  have "dget (ev_receipts (prune_terminal s)) rid =
      (if rid \<in> rc_receipt_id ` set rs then None else dget (ev_receipts s) rid)"
    unfolding rs(1) evict_receipts
    by (subst dget_filter [OF indexedD(1) [OF assms]]) (auto split: option.splits)
  moreover have "\<exists>r. dget (ev_receipts s) rid = Some r \<and> rc_status r \<noteq> EX_STARTED" if "rid \<in> rc_receipt_id ` set rs"
    using that rs(2) indexed_stored [OF assms] by (auto simp: terminal_receipts_def)
  ultimately show ?thesis by auto
qed

lemma prune_starts:
  assumes "indexed s" "dget (ev_receipts s) rid = Some r" "rc_status r = EX_STARTED"
  shows "dget (ev_monotonic_starts (prune_terminal s)) rid = dget (ev_monotonic_starts s) rid"
proof -
  obtain rs where rs: "prune_terminal s = fold evict rs s" "set rs \<subseteq> set (terminal_receipts s)"
    by (rule prune_fold)
  have "rid \<notin> rc_receipt_id ` set rs"
    using rs(2) indexed_stored [OF assms(1)] assms(2,3) by (auto simp: terminal_receipts_def)
  moreover have "rid \<notin> rc_receipt_id ` set rs \<Longrightarrow>
      dget (ev_monotonic_starts (fold evict rs s)) rid = dget (ev_monotonic_starts s) rid" for s
    by (induction rs arbitrary: s) (auto simp: evict_def)
  ultimately show ?thesis by (simp add: rs(1))
qed

lemma store_terminal_indexed:
  assumes inv: "indexed s" and old: "dget (ev_receipts s) (rc_receipt_id t) = Some r"
    and same: "rc_grant_id t = rc_grant_id r" and "receipt_valid t"
  shows "indexed (s\<lparr>ev_receipts := dset (rc_receipt_id t) t (ev_receipts s),
                   ev_monotonic_starts := ddel (rc_receipt_id t) (ev_monotonic_starts s)\<rparr>)"
  unfolding indexed_def
proof (intro conjI allI impI, goal_cases)
  case 1
  show ?case using indexedD(1) [OF inv] by simp
next
  case (2 rid q)
  then show ?case using indexedD(2) [OF inv] by (auto split: if_splits)
next
  case (3 rid q)
  then show ?case using indexedD(3) [OF inv] assms(4) by (auto split: if_splits)
next
  case (4 rid q)
  then show ?case
    using indexedD(4) [OF inv, of rid q] indexedD(4) [OF inv old] same by (auto split: if_splits)
next
  case (5 gid rid)
  then obtain q where "dget (ev_receipts s) rid = Some q" "rc_grant_id q = gid"
    using indexedD(5) [OF inv, of gid rid] by auto
  then show ?case using old same by auto
next
  case (6 rid m)
  then show ?case using indexedD(6) [OF inv, of rid m] by (auto split: if_splits)
qed

lemma store_terminal_inv:
  assumes inv: "evidence_inv s" and old: "dget (ev_receipts s) (rc_receipt_id t) = Some r"
    and same: "rc_grant_id t = rc_grant_id r" and valid: "receipt_valid t"
  shows "evidence_inv (store_terminal t s)"
proof -
  have "indexed s" using inv by (simp add: evidence_inv_def)
  note i = store_terminal_indexed [OF this old same valid]
  from inv prune_bounded [OF i] prune_indexed [OF i] show ?thesis
    by (simp add: evidence_inv_def store_terminal_def)
qed

lemma inv_counts [simp]:
  "evidence_inv (s\<lparr>ev_failure_count := n\<rparr>) = evidence_inv s"
  "evidence_inv (s\<lparr>ev_reconciled_unknown_count := n\<rparr>) = evidence_inv s"
  by (simp_all add: evidence_inv_def indexed_def terminal_receipt_count_def)

lemma dset_fresh: "dget d k = None \<Longrightarrow> dset k v d = d @ [(k, v)]"
  by (induction d) (auto split: if_splits)

lemma record_started_inv:
  assumes inv: "evidence_inv s" and run: "record_started r m s = (x, s')"
  shows "evidence_inv s'"
proof (cases x)
  case (Inl e)
  with assms show ?thesis by (auto simp: record_started_def Let_def split: if_splits)
next
  case (Inr started)
  have ix: "indexed s" using inv by (simp add: evidence_inv_def)
  from run Inr have fresh: "dget (ev_receipts s) (rc_receipt_id r) = None" "dget (ev_grant_to_receipt s) (rc_grant_id r) = None"
    and st: "receipt_valid started" "rc_status started = EX_STARTED" "rc_receipt_id started = rc_receipt_id r"
      "rc_grant_id started = rc_grant_id r"
    and s': "s' = s\<lparr>ev_receipts := dset (rc_receipt_id r) started (ev_receipts s),
        ev_grant_to_receipt := dset (rc_grant_id r) (rc_receipt_id r) (ev_grant_to_receipt s),
        ev_monotonic_starts := (case m of None \<Rightarrow> ev_monotonic_starts s
                                | Some m \<Rightarrow> dset (rc_receipt_id r) m (ev_monotonic_starts s))\<rparr>"
    by (auto simp: record_started_def Let_def split: if_splits)
  have other: "rid \<noteq> rc_receipt_id r" if "dget (ev_grant_to_receipt s) gid = Some rid" for gid rid
    using indexedD(5) [OF ix that] fresh(1) by auto
  have "indexed s'"
    unfolding indexed_def s'
  proof (intro conjI allI impI, goal_cases)
    case 1
    show ?case using indexedD(1) [OF ix] by simp
  next
    case (2 rid q)
    then show ?case using indexedD(2) [OF ix] st by (auto split: if_splits)
  next
    case (3 rid q)
    then show ?case using indexedD(3) [OF ix] st by (auto split: if_splits)
  next
    case (4 rid q)
    then show ?case using indexedD(4) [OF ix, of rid q] st fresh(2) by (auto split: if_splits)
  next
    case (5 gid rid)
    then show ?case using indexedD(5) [OF ix, of gid rid] st other by (auto split: if_splits)
  next
    case (6 rid n)
    then show ?case using indexedD(6) [OF ix, of rid n] st fresh(1) by (auto split: if_splits option.splits)
  qed
  moreover have "terminal_receipt_count s' = terminal_receipt_count s"
    by (simp add: terminal_receipt_count_def s' dset_fresh [OF fresh(1)] st(2))
  ultimately show ?thesis using inv by (simp add: evidence_inv_def s')
qed

lemma terminalized_fields [simp]:
  "rc_receipt_id (terminalized r st c d et ec dg) = rc_receipt_id r" "rc_grant_id (terminalized r st c d et ec dg) = rc_grant_id r"
  "rc_status (terminalized r st c d et ec dg) = st"
  by (simp_all add: terminalized_def)

lemma reconciled_fields [simp]:
  "rc_receipt_id (reconciled r t why) = rc_receipt_id r" "rc_grant_id (reconciled r t why) = rc_grant_id r"
  "rc_status (reconciled r t why) = EX_UNKNOWN"
  by (simp_all add: reconciled_def)

lemma reconciled_valid: "receipt_valid r \<Longrightarrow> receipt_valid (reconciled r t why)"
  by (simp add: receipt_valid_def reconciled_def)

lemma record_terminal_inv:
  assumes inv: "evidence_inv s" and run: "record_terminal rid st c d et ec dg s = (x, s')"
  shows "evidence_inv s'"
proof (cases x)
  case (Inl e)
  with assms show ?thesis by (auto simp: record_terminal_def Let_def split: if_splits option.splits)
next
  case (Inr t)
  with run obtain r where r: "dget (ev_receipts s) rid = Some r" "t = terminalized r st c d et ec dg" "receipt_valid t"
    and s': "s' = store_terminal t s"
    by (auto simp: record_terminal_def Let_def split: if_splits option.splits)
  have "rc_receipt_id r = rid" using inv r(1) by (auto simp: evidence_inv_def dest: indexedD(2))
  with r show ?thesis unfolding s' by (intro store_terminal_inv [OF inv, of t r]) auto
qed

lemma record_reconciled_inv:
  assumes inv: "evidence_inv s" and run: "record_reconciled rid now why s = (x, s')"
  shows "evidence_inv s'"
proof (cases x)
  case (Inl e)
  with assms show ?thesis by (auto simp: record_reconciled_def Let_def split: if_splits option.splits)
next
  case (Inr t)
  with run obtain r where r: "dget (ev_receipts s) rid = Some r" "t = reconciled r now why" "receipt_valid t"
    and s': "s' = store_terminal t (s\<lparr>ev_reconciled_unknown_count := ev_reconciled_unknown_count s + 1\<rparr>)"
    by (auto simp: record_reconciled_def Let_def split: if_splits option.splits)
  have "rc_receipt_id r = rid" using inv r(1) by (auto simp: evidence_inv_def dest: indexedD(2))
  with r inv show ?thesis unfolding s' by (intro store_terminal_inv [of _ t r]) auto
qed

subsection \<open>Runs of the store\<close>

datatype evidence_op =
    OpStarted receipt "int option"
  | OpTerminal string execution_status instant int "string option" "string option" "string option"
  | OpReconciled string instant reconciliation_reason

text \<open>The result of a step is the receipt it brought to a final outcome, if any.\<close>

fun evidence_exec :: "evidence_op \<Rightarrow> evidence_store \<Rightarrow> string option \<times> evidence_store" where
  "evidence_exec (OpStarted r m) s = (None, snd (record_started r m s))"
| "evidence_exec (OpTerminal rid st c d et ec dg) s =
     (case record_terminal rid st c d et ec dg s of (Inr t, s') \<Rightarrow> (Some rid, s') | (Inl _, s') \<Rightarrow> (None, s'))"
| "evidence_exec (OpReconciled rid now why) s =
     (case record_reconciled rid now why s of (Inr t, s') \<Rightarrow> (Some rid, s') | (Inl _, s') \<Rightarrow> (None, s'))"

fun starts_receipt :: "evidence_op \<Rightarrow> string \<Rightarrow> bool" where
  "starts_receipt (OpStarted r m) rid = (rc_receipt_id r = rid)"
| "starts_receipt _ rid = False"

definition receipt_open :: "evidence_store \<Rightarrow> string \<Rightarrow> bool" where
  "receipt_open s rid \<longleftrightarrow> (\<exists>r. dget (ev_receipts s) rid = Some r \<and> rc_status r = EX_STARTED)"

lemma evidence_exec_inv: "evidence_inv s \<Longrightarrow> evidence_inv (snd (evidence_exec x s))"
proof (cases x)
  case (OpStarted r m)
  assume "evidence_inv s"
  then show ?thesis using record_started_inv [of s r m "fst (record_started r m s)"] OpStarted by simp
next
  case (OpTerminal rid st c d et ec dg)
  assume "evidence_inv s"
  then show ?thesis
    using OpTerminal record_terminal_inv [of s rid st c d et ec dg] by (auto split: prod.splits sum.splits)
next
  case (OpReconciled rid now why)
  assume "evidence_inv s"
  then show ?thesis
    using OpReconciled record_reconciled_inv [of s rid now why] by (auto split: prod.splits sum.splits)
qed

text \<open>What storing a terminal receipt does to the receipts: its own changes, terminal ones may go.\<close>

lemma store_terminal_get:
  assumes "evidence_inv s" "dget (ev_receipts s) (rc_receipt_id t) = Some r" "rc_grant_id t = rc_grant_id r"
    "receipt_valid t" "rc_status t \<noteq> EX_STARTED"
  shows "dget (ev_receipts (store_terminal t s)) k = (if k = rc_receipt_id t then Some t else dget (ev_receipts s) k)
     \<or> (dget (ev_receipts (store_terminal t s)) k = None
        \<and> (k = rc_receipt_id t \<or> (\<exists>q. dget (ev_receipts s) k = Some q \<and> rc_status q \<noteq> EX_STARTED)))"
proof -
  have "indexed s" using assms(1) by (simp add: evidence_inv_def)
  note i = store_terminal_indexed [OF this assms(2,3,4)]
  from prune_get [OF i, of k] show ?thesis by (auto simp: store_terminal_def split: if_splits)
qed

lemma outcome_step:
  assumes inv: "evidence_inv s" and x: "evidence_exec x s = (Some rid, s')"
  obtains r t s0 where "dget (ev_receipts s) rid = Some r" "rc_status r = EX_STARTED" "rc_receipt_id t = rid"
    "rc_grant_id t = rc_grant_id r" "receipt_valid t" "rc_status t \<noteq> EX_STARTED"
    "s' = store_terminal t s0" "evidence_inv s0" "ev_receipts s0 = ev_receipts s" "ev_monotonic_starts s0 = ev_monotonic_starts s"
proof (cases x)
  case (OpStarted r m)
  with x show ?thesis by simp
next
  case (OpTerminal rid' st c d et ec dg)
  with x obtain t where run: "record_terminal rid st c d et ec dg s = (Inr t, s')"
    by (auto split: prod.splits sum.splits)
  then obtain r where r: "dget (ev_receipts s) rid = Some r" "rc_status r = EX_STARTED" "t = terminalized r st c d et ec dg"
    "receipt_valid t" "s' = store_terminal t s" "st \<in> allowed_terminal_statuses"
    by (auto simp: record_terminal_def Let_def split: if_splits option.splits)
  moreover have "rc_receipt_id r = rid" using inv r(1) by (auto simp: evidence_inv_def dest: indexedD(2))
  ultimately show ?thesis using inv by (intro that [of r t s]) (auto simp: allowed_terminal_statuses_def)
next
  case (OpReconciled rid' now why)
  with x obtain t where run: "record_reconciled rid now why s = (Inr t, s')"
    by (auto split: prod.splits sum.splits)
  then obtain r where r: "dget (ev_receipts s) rid = Some r" "rc_status r = EX_STARTED" "t = reconciled r now why"
    "receipt_valid t" "s' = store_terminal t (s\<lparr>ev_reconciled_unknown_count := ev_reconciled_unknown_count s + 1\<rparr>)"
    by (auto simp: record_reconciled_def Let_def split: if_splits option.splits)
  moreover have "rc_receipt_id r = rid" using inv r(1) by (auto simp: evidence_inv_def dest: indexedD(2))
  ultimately show ?thesis
    using inv by (intro that [of r t "s\<lparr>ev_reconciled_unknown_count := ev_reconciled_unknown_count s + 1\<rparr>"]) auto
qed

lemma silent_step:
  assumes "evidence_exec x s = (None, s')" and "\<not> starts_receipt x rid"
  shows "dget (ev_receipts s') rid = dget (ev_receipts s) rid"
  using assms
  by (cases x) (auto simp: record_started_def record_terminal_def record_reconciled_def Let_def
      split: if_splits option.splits prod.splits sum.splits)

lemma step_get:
  assumes inv: "evidence_inv s" and x: "evidence_exec x s = (c, s')" and "\<not> starts_receipt x rid"
    and r: "dget (ev_receipts s) rid = r"
  shows "dget (ev_receipts s') rid = r \<or> (c = Some rid \<and> \<not> receipt_open s' rid)
     \<or> (dget (ev_receipts s') rid = None \<and> (\<exists>q. r = Some q \<and> rc_status q \<noteq> EX_STARTED))"
proof (cases c)
  case None
  with silent_step [OF _ assms(3)] x r show ?thesis by simp
next
  case (Some k)
  with x have xk: "evidence_exec x s = (Some k, s')" by simp
  obtain q t s0 where *: "dget (ev_receipts s) k = Some q" "rc_status q = EX_STARTED" "rc_receipt_id t = k"
    "rc_grant_id t = rc_grant_id q" "receipt_valid t" "rc_status t \<noteq> EX_STARTED"
    "s' = store_terminal t s0" "evidence_inv s0" "ev_receipts s0 = ev_receipts s"
    using outcome_step [OF inv xk] by metis
  have "dget (ev_receipts s0) (rc_receipt_id t) = Some q" using * by simp
  from store_terminal_get [OF *(8) this *(4,5,6), of rid] show ?thesis
    using * r Some by (auto simp: receipt_open_def split: if_splits)
qed

interpretation outcomes: single_use receipt_open evidence_exec starts_receipt evidence_inv
proof
  fix s x rid s' assume inv: "evidence_inv s" and x: "evidence_exec x s = (Some rid, s')"
  show "receipt_open s rid"
    using outcome_step [OF inv x] by (metis receipt_open_def)
  obtain q t s0 where *: "dget (ev_receipts s) rid = Some q" "rc_receipt_id t = rid"
    "rc_grant_id t = rc_grant_id q" "receipt_valid t" "rc_status t \<noteq> EX_STARTED"
    "s' = store_terminal t s0" "evidence_inv s0" "ev_receipts s0 = ev_receipts s"
    using outcome_step [OF inv x] by metis
  have "dget (ev_receipts s0) (rc_receipt_id t) = Some q" using * by simp
  from store_terminal_get [OF *(7) this *(3,4,5), of rid] show "\<not> receipt_open s' rid"
    using * by (auto simp: receipt_open_def split: if_splits)
next
  fix s rid x assume "evidence_inv s" "\<not> receipt_open s rid" "\<not> starts_receipt x rid"
  then show "\<not> receipt_open (snd (evidence_exec x s)) rid"
    using step_get [of s x "fst (evidence_exec x s)" "snd (evidence_exec x s)" rid "dget (ev_receipts s) rid"]
    by (auto simp: receipt_open_def)
next
  show "\<And>s x. evidence_inv s \<Longrightarrow> evidence_inv (snd (evidence_exec x s))" by (rule evidence_exec_inv)
qed

subsection \<open>What reconciliation leaves open\<close>

lemma open_ids:
  assumes "indexed s"
  shows "distinct (map rc_receipt_id (list_open s))"
    "r \<in> set (list_open s) \<Longrightarrow> dget (ev_receipts s) (rc_receipt_id r) = Some r"
    "r \<in> set (list_open s) \<Longrightarrow> rc_status r = EX_STARTED"
proof -
  have "distinct (map rc_receipt_id (dvals (ev_receipts s)))"
    unfolding indexed_ids [OF assms] by (rule indexedD(1) [OF assms])
  then show "distinct (map rc_receipt_id (list_open s))" unfolding list_open_def by (rule distinct_map_filter)
qed (use indexed_stored [OF assms] in \<open>auto simp: list_open_def\<close>)

lemma open_after_replacement:
  assumes "distinct (dkeys d)" "map rc_receipt_id (dvals d) = dkeys d" "\<not> P t" "dget d (rc_receipt_id t) \<noteq> None"
  shows "filter P (dvals (dset (rc_receipt_id t) t d)) = filter (\<lambda>r. rc_receipt_id r \<noteq> rc_receipt_id t) (filter P (dvals d))"
  using assms
proof (induction d)
  case (Cons kv d)
  obtain k v where kv: "kv = (k, v)" by (cases kv)
  show ?case
  proof (cases "k = rc_receipt_id t")
    case True
    with Cons.prems kv have "rc_receipt_id t \<notin> set (dkeys d)" "map rc_receipt_id (dvals d) = dkeys d" by auto
    then have "\<forall>r\<in>set (filter P (dvals d)). rc_receipt_id r \<noteq> rc_receipt_id t"
      by (metis filter_is_subset image_eqI list.set_map subsetD)
    then have "filter (\<lambda>r. rc_receipt_id r \<noteq> rc_receipt_id t) (filter P (dvals d)) = filter P (dvals d)" by (rule filter_True)
    with True Cons.prems kv show ?thesis by simp
  qed (use Cons kv in auto)
qed simp

lemma prune_open:
  assumes "indexed s"
  shows "list_open (prune_terminal s) = list_open s"
proof -
  obtain rs where rs: "prune_terminal s = fold evict rs s" "set rs \<subseteq> set (terminal_receipts s)"
    by (rule prune_fold)
  have "\<forall>r\<in>set (list_open s). rc_receipt_id r \<notin> rc_receipt_id ` set rs"
    using rs(2) indexed_stored [OF assms] by (auto simp: terminal_receipts_def list_open_def)
  then show ?thesis
    unfolding rs(1) list_open_def evict_receipts filter_evicted [OF indexed_ids [OF assms]] by (rule filter_True)
qed

lemma store_terminal_open:
  assumes inv: "evidence_inv s" and old: "dget (ev_receipts s) (rc_receipt_id t) = Some r"
    and t: "rc_grant_id t = rc_grant_id r" "receipt_valid t" "rc_status t \<noteq> EX_STARTED"
  shows "list_open (store_terminal t s) = filter (\<lambda>q. rc_receipt_id q \<noteq> rc_receipt_id t) (list_open s)"
    and "q \<in> set (list_open s) \<Longrightarrow> rc_receipt_id q \<noteq> rc_receipt_id t \<Longrightarrow>
      get_monotonic_start (store_terminal t s) (rc_receipt_id q) = get_monotonic_start s (rc_receipt_id q)"
proof -
  have ix: "indexed s" using inv by (simp add: evidence_inv_def)
  note i = store_terminal_indexed [OF ix old t(1,2)]
  show "list_open (store_terminal t s) = filter (\<lambda>q. rc_receipt_id q \<noteq> rc_receipt_id t) (list_open s)"
    unfolding store_terminal_def prune_open [OF i]
    using open_after_replacement [OF indexedD(1) [OF ix] indexed_ids [OF ix], of "\<lambda>r. rc_status r = EX_STARTED" t] old t(3)
    by (simp add: list_open_def)
  assume q: "q \<in> set (list_open s)" "rc_receipt_id q \<noteq> rc_receipt_id t"
  show "get_monotonic_start (store_terminal t s) (rc_receipt_id q) = get_monotonic_start s (rc_receipt_id q)"
    unfolding store_terminal_def get_monotonic_start_def
    using open_ids(2,3) [OF ix q(1)] q(2) by (subst prune_starts [OF i]) auto
qed

text \<open>One reconciled receipt leaves the open list; the others, and their start readings, stay.\<close>

lemma reconcile_one_open:
  assumes inv: "evidence_inv s" and r: "r \<in> set (list_open s)"
  obtains s' where "reconcile_one now reason r s = (Some (reconciled r now reason), s')" "evidence_inv s'"
    "list_open s' = filter (\<lambda>q. rc_receipt_id q \<noteq> rc_receipt_id r) (list_open s)"
    "\<And>q. q \<in> set (list_open s) \<Longrightarrow> rc_receipt_id q \<noteq> rc_receipt_id r \<Longrightarrow>
       get_monotonic_start s' (rc_receipt_id q) = get_monotonic_start s (rc_receipt_id q)"
proof -
  have ix: "indexed s" using inv by (simp add: evidence_inv_def)
  note stored = open_ids(2,3) [OF ix r]
  have v: "receipt_valid (reconciled r now reason)"
    by (rule reconciled_valid [OF indexedD(3) [OF ix stored(1)]])
  let ?s = "s\<lparr>ev_reconciled_unknown_count := ev_reconciled_unknown_count s + 1\<rparr>" and ?t = "reconciled r now reason"
  have run: "record_reconciled (rc_receipt_id r) now reason s = (Inr ?t, store_terminal ?t ?s)"
    using stored v by (simp add: record_reconciled_def Let_def)
  have same: "list_open ?s = list_open s" "\<And>k. get_monotonic_start ?s k = get_monotonic_start s k"
    by (simp_all add: list_open_def get_monotonic_start_def)
  have "evidence_inv ?s" "dget (ev_receipts ?s) (rc_receipt_id ?t) = Some r" "rc_grant_id ?t = rc_grant_id r"
    "rc_status ?t \<noteq> EX_STARTED"
    using inv stored by simp_all
  note kept = store_terminal_open [OF this(1-3) v this(4), unfolded same reconciled_fields]
  show ?thesis
    by (rule that [OF _ record_reconciled_inv [OF inv run] kept]) (simp_all add: reconcile_one_def run)
qed

lemma reconcile_each_exact:
  assumes why: "\<And>s s' q. get_monotonic_start s' (rc_receipt_id q) = get_monotonic_start s (rc_receipt_id q) \<Longrightarrow> why s' q = why s q"
    and "evidence_inv s" "set rs \<subseteq> set (list_open s)" "distinct (map rc_receipt_id rs)"
  shows "fst (reconcile_each why now rs s) =
           map (\<lambda>r. reconciled r now (the (why s r))) (filter (\<lambda>r. why s r \<noteq> None) rs)
    \<and> list_open (snd (reconcile_each why now rs s)) =
        filter (\<lambda>q. rc_receipt_id q \<notin> rc_receipt_id ` {r \<in> set rs. why s r \<noteq> None}) (list_open s)"
  using assms(2-)
proof (induction rs arbitrary: s)
  case (Cons r rs)
  show ?case
  proof (cases "why s r")
    case None
    have "{q \<in> set (r # rs). why s q \<noteq> None} = {q \<in> set rs. why s q \<noteq> None}" using None by auto
    moreover have "set rs \<subseteq> set (list_open s)" "distinct (map rc_receipt_id rs)" using Cons.prems(2,3) by simp_all
    ultimately show ?thesis using None Cons.IH [OF Cons.prems(1)] by simp
  next
    case (Some reason)
    have r: "r \<in> set (list_open s)" using Cons.prems(2) by simp
    obtain s1 where s1: "reconcile_one now reason r s = (Some (reconciled r now reason), s1)" "evidence_inv s1"
      "list_open s1 = filter (\<lambda>q. rc_receipt_id q \<noteq> rc_receipt_id r) (list_open s)"
      and clock: "\<And>q. q \<in> set (list_open s) \<Longrightarrow> rc_receipt_id q \<noteq> rc_receipt_id r \<Longrightarrow>
         get_monotonic_start s1 (rc_receipt_id q) = get_monotonic_start s (rc_receipt_id q)"
      using reconcile_one_open [OF Cons.prems(1) r, of now reason] by metis
    have other: "rc_receipt_id q \<noteq> rc_receipt_id r" if "q \<in> set rs" for q
      using Cons.prems(3) that by (metis distinct.simps(2) image_eqI list.map(2) list.set_map)
    have same: "why s1 q = why s q" if "q \<in> set rs" for q
      using Cons.prems(2) that other by (intro why clock) auto
    have later: "{q \<in> set (r # rs). why s q \<noteq> None} = insert r {q \<in> set rs. why s1 q \<noteq> None}"
      using same Some by auto
    have "set rs \<subseteq> set (list_open s1)" using Cons.prems(2) other by (auto simp: s1(3))
    moreover have "distinct (map rc_receipt_id rs)" using Cons.prems(3) by simp
    moreover have "filter (\<lambda>r. why s1 r \<noteq> None) rs = filter (\<lambda>r. why s r \<noteq> None) rs"
      using same by (auto intro: filter_cong)
    ultimately show ?thesis
      unfolding later using Cons.IH [OF s1(2)] Some same s1(1)
      by (auto simp: Let_def s1(3) split: prod.splits intro!: filter_cong map_cong)
  qed
qed simp

subsection \<open>Properties\<close>

lemma exec_max:
  "ev_max_terminal s = n \<Longrightarrow> ev_max_terminal (snd (evidence_exec x s)) = n"
  by (cases x) (auto simp: record_started_def record_terminal_def record_reconciled_def store_terminal_def Let_def
      split: if_splits option.splits prod.splits sum.splits)

lemma open_step:
  assumes inv: "evidence_inv s" and x: "evidence_exec x s = (c, s')" and r: "dget (ev_receipts s) rid = Some r"
    "rc_status r = EX_STARTED" and c: "c \<noteq> Some rid"
  shows "dget (ev_receipts s') rid = Some r"
proof (cases "starts_receipt x rid")
  case True
  then obtain q m where "x = OpStarted q m" "rc_receipt_id q = rid" by (cases x) auto
  with x r show ?thesis by (auto simp: record_started_def)
next
  case False
  from step_get [OF inv x False r(1)] c r(2) show ?thesis by auto
qed

lemma evidence_run_inv:
  assumes "evidence_inv s" shows "evidence_inv (run_ops evidence_exec xs s)"
  by (rule run_ops_invariant [of evidence_inv, OF evidence_exec_inv assms])

lemma run_keeps_record:
  assumes "evidence_inv s" "\<forall>x\<in>set xs. \<not> starts_receipt x rid" "get_receipt s rid = Some r" "rc_status r \<noteq> EX_STARTED"
  shows "get_receipt (run_ops evidence_exec xs s) rid \<in> {Some r, None}"
proof -
  have gone: "dget (ev_receipts (run_ops evidence_exec ys t)) rid = None"
    if "evidence_inv t" "\<forall>x\<in>set ys. \<not> starts_receipt x rid" "dget (ev_receipts t) rid = None" for ys t
    using that
  proof (induction ys arbitrary: t)
    case (Cons x ys)
    have "dget (ev_receipts (snd (evidence_exec x t))) rid = None"
      using step_get [OF Cons.prems(1), of x _ _ rid None] Cons.prems outcomes.claim_live [OF Cons.prems(1), of x rid]
      by (metis list.set_intros(1) not_None_eq option.distinct(1) receipt_open_def surjective_pairing)
    then show ?case using Cons evidence_exec_inv [OF Cons.prems(1)] by simp
  qed simp
  show ?thesis
    using assms
  proof (induction xs arbitrary: s)
    case (Cons x xs)
    have c: "fst (evidence_exec x s) \<noteq> Some rid"
      using outcomes.claim_live [OF Cons.prems(1), of x rid] Cons.prems(3,4)
      by (metis get_receipt_def option.inject receipt_open_def surjective_pairing)
    have "dget (ev_receipts (snd (evidence_exec x s))) rid \<in> {Some r, None}"
      using step_get [OF Cons.prems(1), of x _ _ rid "Some r"] Cons.prems c
      by (metis get_receipt_def insertCI list.set_intros(1) surjective_pairing)
    then show ?case
      using Cons.IH [of "snd (evidence_exec x s)"] gone [of "snd (evidence_exec x s)" xs]
        Cons.prems evidence_exec_inv [OF Cons.prems(1), of x] by (auto simp: get_receipt_def)
  qed (simp add: get_receipt_def)
qed

text \<open>
  (C27) An execution has one outcome. Whatever sequence of completions and reconciliations races
  on a receipt, at most one of them is accepted, and once a receipt is final its record never changes:
  it is read back exactly as written until retention evicts it, and never becomes open again.\<close>

theorem one_final_outcome:
  assumes "evidence_inv s" and "\<forall>x\<in>set xs. \<not> starts_receipt x rid"
  shows "length (filter (\<lambda>(x, r). r = Some rid) (results evidence_exec xs s)) \<le> 1
    \<and> (\<forall>r. get_receipt s rid = Some r \<and> rc_status r \<noteq> EX_STARTED \<longrightarrow>
         get_receipt (run_ops evidence_exec xs s) rid \<in> {Some r, None})"
  using outcomes.at_most_one_claim [OF assms] run_keeps_record [OF assms] by blast

definition sample_receipt :: "string \<Rightarrow> string \<Rightarrow> receipt" where
  "sample_receipt rid gid =
     \<lparr>rc_receipt_id = rid, rc_grant_id = gid, rc_session_id = ''s'', rc_agent_id = ''a'', rc_request_id = ''q'',
      rc_tool_id = ''t'', rc_tool_version = ''1'', rc_implementation_id = ''i'', rc_binding_hash = ''b'',
      rc_capability_profile_id = ''p'', rc_capability_digest = ''d'', rc_declared_timeout = 30, rc_status = EX_STARTED,
      rc_started_at = 0, rc_completed_at = None, rc_reconciled_at = None, rc_duration_ms = None, rc_error_type = None,
      rc_error_code = None, rc_reconciliation_reason = None, rc_output_digest = None\<rparr>"

definition sample_store :: evidence_store where
  "sample_store = \<lparr>ev_failure_count = 0, ev_reconciled_unknown_count = 0, ev_max_terminal = 1,
     ev_receipts = [(''r'', sample_receipt ''r'' ''g''), (''q'', sample_receipt ''q'' ''h'')],
     ev_grant_to_receipt = [(''g'', ''r''), (''h'', ''q'')], ev_monotonic_starts = [(''r'', 0)]\<rparr>"

lemma sample_store_inv: "evidence_inv sample_store"
  by (auto simp: evidence_inv_def indexed_def sample_store_def sample_receipt_def receipt_valid_def
      terminal_receipt_count_def split: if_splits)

theorem one_final_outcome_witness:
  "length (filter (\<lambda>(x, r). r = Some ''r'')
     (results evidence_exec [OpReconciled ''r'' 5 EXECUTION_TIMEOUT, OpTerminal ''r'' EX_SUCCEEDED 6 6 None None None]
       sample_store)) \<le> 1"
  using one_final_outcome [OF sample_store_inv,
      of "[OpReconciled ''r'' 5 EXECUTION_TIMEOUT, OpTerminal ''r'' EX_SUCCEEDED 6 6 None None None]" "''r''"]
  by simp



text \<open>
  Reconciliation declares \<open>UNKNOWN\<close> exactly the executions it may. Of the open receipts,
  \<open>reconcile_unresolved\<close> resolves those whose start reading is missing (\<open>EVIDENCE_UNAVAILABLE\<close>) and those
  past their own declared timeout plus the grace (\<open>EXECUTION_TIMEOUT\<close>), each once and in store order;
  an execution still within its budget stays open, and no receipt ends as succeeded or failed.\<close>

theorem reconcile_unresolved_exact:
  assumes "evidence_inv s"
  shows "fst (reconcile_unresolved grace now current s) =
           map (\<lambda>r. reconciled r now
                  (if get_monotonic_start s (rc_receipt_id r) = None then EVIDENCE_UNAVAILABLE else EXECUTION_TIMEOUT))
             (filter (\<lambda>r. case get_monotonic_start s (rc_receipt_id r) of
                            None \<Rightarrow> True
                          | Some start \<Rightarrow> start + rc_declared_timeout r + grace \<le> current) (list_open s))
    \<and> list_open (snd (reconcile_unresolved grace now current s)) =
        filter (\<lambda>r. case get_monotonic_start s (rc_receipt_id r) of
                      None \<Rightarrow> False
                    | Some start \<Rightarrow> current < start + rc_declared_timeout r + grace) (list_open s)"
proof -
  have ix: "indexed s" using assms by (simp add: evidence_inv_def)
  have why: "get_monotonic_start s' (rc_receipt_id q) = get_monotonic_start s (rc_receipt_id q) \<Longrightarrow>
      reconcile_reason grace current s' q = reconcile_reason grace current s q" for s s' q
    by (simp add: reconcile_reason_def)
  have due: "reconcile_reason grace current s r = None \<longleftrightarrow>
      (case get_monotonic_start s (rc_receipt_id r) of None \<Rightarrow> False
       | Some start \<Rightarrow> current < start + rc_declared_timeout r + grace)" for r
    by (auto simp: reconcile_reason_def split: option.splits)
  have mem: "rc_receipt_id q \<in> rc_receipt_id ` {r \<in> set (list_open s). reconcile_reason grace current s r \<noteq> None}
      \<longleftrightarrow> reconcile_reason grace current s q \<noteq> None" if "q \<in> set (list_open s)" for q
    using inj_onD [OF open_ids(1) [OF ix, unfolded distinct_map, THEN conjunct2] _ that] that by blast
  note run = reconcile_each_exact [of "reconcile_reason grace current" s "list_open s" now, OF why assms subset_refl open_ids(1) [OF ix]]
  have "list_open (snd (reconcile_unresolved grace now current s)) =
      filter (\<lambda>r. reconcile_reason grace current s r = None) (list_open s)"
    unfolding reconcile_unresolved_def using mem by (intro trans [OF conjunct2 [OF run]] filter_cong) auto
  moreover have "fst (reconcile_unresolved grace now current s) =
      map (\<lambda>r. reconciled r now
             (if get_monotonic_start s (rc_receipt_id r) = None then EVIDENCE_UNAVAILABLE else EXECUTION_TIMEOUT))
        (filter (\<lambda>r. reconcile_reason grace current s r \<noteq> None) (list_open s))"
    unfolding reconcile_unresolved_def by (intro trans [OF conjunct1 [OF run]] map_cong refl) (auto simp: reconcile_reason_def split: option.splits if_splits)
  moreover have "reconcile_reason grace current s r \<noteq> None \<longleftrightarrow>
      (case get_monotonic_start s (rc_receipt_id r) of None \<Rightarrow> True
       | Some start \<Rightarrow> start + rc_declared_timeout r + grace \<le> current)" for r
    by (simp add: reconcile_reason_def split: option.splits)
  ultimately show ?thesis by (simp only: due)
qed

theorem reconcile_unresolved_exact_witness:
  "map rc_receipt_id (list_open (snd (reconcile_unresolved 10 99 39 sample_store))) = [''r'']"
  using conjunct2 [OF reconcile_unresolved_exact [OF sample_store_inv, of 10 99 39]]
  by (simp add: list_open_def sample_store_def sample_receipt_def get_monotonic_start_def)

end
