(* ===== verification/Platform.thy ===== *)
theory Platform
  imports Agent_Lifecycle Execution_Authority Sessions Risk_Aggregate Tools Capability Evidence
begin

section \<open>The stores of one composition root\<close>

text \<open>
  \<^verbatim>\<open>app/services/runtime_bootstrap.py\<close> and \<^verbatim>\<open>app/api/dependencies.py\<close> build one instance of every
  store and hand the same instances to the runtime pipeline, the coordinator and the executor.
  \<open>platform\<close> is that shared state; \<open>on_agents\<close> and its siblings run an operation of one
  component on its part. A collaborator the constructors take as optional is a flag of the wiring
  record of the component that may lack it.
\<close>

record platform =
  pf_agents :: agent_service
  pf_authority :: authority
  pf_findings :: findings_store
  pf_risk :: aggregator
  pf_sessions :: session_repo
  pf_tools :: tool_repo
  pf_registry :: tool_registry
  pf_profiles :: profile_registry
  pf_evidence :: evidence_store
  pf_audit :: "audit_event list"

definition on_agents :: "(agent_service, 'a) eff \<Rightarrow> (platform, 'a) eff" where
  "on_agents m p = (let (r, x) = m (pf_agents p) in (r, p\<lparr>pf_agents := x\<rparr>))"

definition on_authority :: "(authority, 'a) eff \<Rightarrow> (platform, 'a) eff" where
  "on_authority m p = (let (r, x) = m (pf_authority p) in (r, p\<lparr>pf_authority := x\<rparr>))"

definition on_sessions :: "(session_repo, 'a) eff \<Rightarrow> (platform, 'a) eff" where
  "on_sessions m p = (let (r, x) = m (pf_sessions p) in (r, p\<lparr>pf_sessions := x\<rparr>))"

definition on_risk :: "(aggregator, 'a) eff \<Rightarrow> (platform, 'a) eff" where
  "on_risk m p = (let (r, x) = m (pf_risk p) in (r, p\<lparr>pf_risk := x\<rparr>))"

definition on_evidence :: "(evidence_store, 'a) eff \<Rightarrow> (platform, 'a) eff" where
  "on_evidence m p = (let (r, x) = m (pf_evidence p) in (r, p\<lparr>pf_evidence := x\<rparr>))"

lemmas on_defs [mdefs] = on_agents_def on_authority_def on_sessions_def on_risk_def on_evidence_def

lemma on_agents_iff: "on_agents m p = (r, p') \<longleftrightarrow> (\<exists>x. m (pf_agents p) = (r, x) \<and> p' = p\<lparr>pf_agents := x\<rparr>)"
  by (auto simp: on_agents_def split: prod.splits)

lemma on_authority_iff: "on_authority m p = (r, p') \<longleftrightarrow> (\<exists>x. m (pf_authority p) = (r, x) \<and> p' = p\<lparr>pf_authority := x\<rparr>)"
  by (auto simp: on_authority_def split: prod.splits)

lemma on_sessions_iff: "on_sessions m p = (r, p') \<longleftrightarrow> (\<exists>x. m (pf_sessions p) = (r, x) \<and> p' = p\<lparr>pf_sessions := x\<rparr>)"
  by (auto simp: on_sessions_def split: prod.splits)

lemma on_risk_iff: "on_risk m p = (r, p') \<longleftrightarrow> (\<exists>x. m (pf_risk p) = (r, x) \<and> p' = p\<lparr>pf_risk := x\<rparr>)"
  by (auto simp: on_risk_def split: prod.splits)

lemma on_evidence_iff: "on_evidence m p = (r, p') \<longleftrightarrow> (\<exists>x. m (pf_evidence p) = (r, x) \<and> p' = p\<lparr>pf_evidence := x\<rparr>)"
  by (auto simp: on_evidence_def split: prod.splits)

end
