(* ===== verification/Executor.thy ===== *)
theory Executor
  imports Platform
begin

section \<open>The tool executor\<close>

text \<open>
  \<^verbatim>\<open>app/runtime/tool_executor.py\<close> with \<^verbatim>\<open>app/models/execution_provenance.py\<close>,
  \<^verbatim>\<open>app/models/sandbox_execution_result.py\<close> and the identity part of \<^verbatim>\<open>app/models/runtime_context.py\<close>. The sandbox
  is a parameter: a function from the call that crosses the isolation boundary to its outcome, which may be an
  exception. \<open>xs_dispatched\<close> lists the calls made across that boundary, in order. The authority's lock is released
  between the pre-check and the claim, and the store's while the sandbox runs: \<open>xe_between\<close> and \<open>xe_during\<close> are the
  operations other threads perform there. Telemetry is not modelled.
\<close>

subsection \<open>Data\<close>

record runtime_context =
  cx_session_id :: string
  cx_request_id :: string
  cx_user_id :: string
  cx_principal :: string
  cx_authenticated_agent :: string

record provenance =
  pv_grant_id :: string
  pv_agent_id :: string
  pv_session_id :: string
  pv_request_id :: string
  pv_tool_id :: string
  pv_tool_version :: string
  pv_implementation_id :: string

definition from_grant :: "grant \<Rightarrow> string \<Rightarrow> string \<Rightarrow> provenance res" where
  "from_grant g request_id implementation_id =
     (if [] \<in> set [gr_grant_id g, gr_agent_id g, gr_session_id g, request_id, b_tool_id (gr_binding g),
                   b_tool_version (gr_binding g), implementation_id]
      then Inl ValueError
      else Inr \<lparr>pv_grant_id = gr_grant_id g, pv_agent_id = gr_agent_id g, pv_session_id = gr_session_id g,
                pv_request_id = request_id, pv_tool_id = b_tool_id (gr_binding g),
                pv_tool_version = b_tool_version (gr_binding g), pv_implementation_id = implementation_id\<rparr>)"

record sandbox_call =
  sc_tool :: base_tool
  sc_parameters :: raw_parameters
  sc_capabilities :: capabilities
  sc_provenance :: provenance
  sc_implementation_id :: string
  sc_tool_version :: string

record 'o sandbox_result =
  sx_success :: bool
  sx_output :: "'o option"
  sx_output_digest :: "string option"
  sx_duration_ms :: nat
  sx_error_type :: "string option"

text \<open>An exception is its class and the name of its concrete type.\<close>

datatype 'o sandbox_outcome = SandboxRaised exn string | SandboxFinished "'o sandbox_result"

record 'o executor =
  xc_mac :: mac
  xc_sha :: sha
  xc_hash :: "string \<Rightarrow> string"
  xc_digest :: "'o \<Rightarrow> string option"
  xc_sandbox :: "(sandbox_call \<Rightarrow> 'o sandbox_outcome) option"
  xc_profiles :: "profile_registry option"
  xc_registry :: "tool_registry option"

record exec_state =
  xs_authority :: "authority option"
  xs_evidence :: "evidence_store option"
  xs_dispatched :: "sandbox_call list"

record exec_env =
  xe_verify_now :: instant
  xe_claim_now :: instant
  xe_start_utc :: instant
  xe_start_mono :: int
  xe_end_mono :: int
  xe_end_utc :: instant
  xe_request_uuid :: string
  xe_receipt_uuid :: string
  xe_between :: "authority_op list"
  xe_during :: "evidence_op list"

subsection \<open>Verification before execution\<close>

definition require_context_agrees_with_grant :: "grant \<Rightarrow> runtime_context option \<Rightarrow> unit res" where
  "require_context_agrees_with_grant g ctx =
     (case ctx of
        None \<Rightarrow> Inr ()
      | Some c \<Rightarrow>
          if cx_authenticated_agent c \<noteq> [] \<and> cx_authenticated_agent c \<noteq> gr_agent_id g
            then Inl (ExecutionBindingError IDENTITY_MISMATCH)
          else if cx_session_id c \<noteq> [] \<and> cx_session_id c \<noteq> gr_session_id g
            then Inl (ExecutionBindingError IDENTITY_MISMATCH)
          else Inr ())"

text \<open>The checks between the pre-check of the grant and its claim; they read, and change nothing.\<close>

definition check_containment :: "'o executor \<Rightarrow> grant \<Rightarrow> runtime_context option \<Rightarrow> capabilities res" where
  "check_containment x g ctx =
     res_bind (require_context_agrees_with_grant g ctx) (\<lambda>_.
       if xc_sandbox x = None then Inl SandboxUnavailableError
       else case gr_capability_profile_id g of
              None \<Rightarrow> Inl CapabilityProfileNotFoundError
            | Some pid \<Rightarrow>
                if pid = [] then Inl CapabilityProfileNotFoundError
                else (case xc_profiles x of
                        None \<Rightarrow> Inl CapabilityProfileNotFoundError
                      | Some reg \<Rightarrow>
                          res_bind (resolve_profile reg pid) (\<lambda>c.
                          res_bind (verify_capability_binding (xc_sha x) g c) (\<lambda>_. Inr c))))"

definition verify_and_prepare ::
  "'o executor \<Rightarrow> exec_env \<Rightarrow> string \<Rightarrow> string \<Rightarrow> raw_parameters \<Rightarrow> grant option \<Rightarrow> runtime_context option
     \<Rightarrow> (exec_state, capabilities) eff" where
  "verify_and_prepare x v tid ver parameters grant ctx s =
     (case xs_authority s of
        None \<Rightarrow> (Inl (ExecutionBindingError NO_AUTHORITY), s)
      | Some a \<Rightarrow>
          (case grant of
             None \<Rightarrow> (Inl (ExecutionBindingError MISSING_GRANT), s)
           | Some g \<Rightarrow>
               (case from_operation tid ver parameters None of
                  Inl e \<Rightarrow> (Inl (ExecutionBindingError INVALID_REQUEST), s)
                | Inr requested \<Rightarrow>
                    (case verify_grant (xc_mac x) (xe_verify_now v) (Presented g) requested a of
                       (Inl e, a1) \<Rightarrow> (Inl e, s\<lparr>xs_authority := Some a1\<rparr>)
                     | (Inr _, a1) \<Rightarrow>
                         (case check_containment x g ctx of
                            Inl e \<Rightarrow> (Inl e, s\<lparr>xs_authority := Some a1\<rparr>)
                          | Inr c \<Rightarrow>
                              let a2 = run_ops (authority_exec (xc_mac x)) (xe_between v) a1;
                                  (r, a3) = claim_grant (xc_mac x) (xe_claim_now v) (Presented g) requested a2
                              in (case r of Inl e \<Rightarrow> Inl e | Inr _ \<Rightarrow> Inr c, s\<lparr>xs_authority := Some a3\<rparr>))))))"

subsection \<open>Running\<close>

definition classify_exception :: "exn \<Rightarrow> execution_status \<times> string" where
  "classify_exception e =
     (if e \<in> {SandboxTimeoutError, TimeoutError} then (EX_TIMEOUT, ''EXECUTION_TIMEOUT'')
      else if e = SandboxResourceExhaustedError then (EX_FAILED, ''RESOURCE_EXHAUSTED'')
      else if e \<in> {SandboxIsolationError, PermissionError} then (EX_FAILED, ''ISOLATION_FAILURE'')
      else if e = InterruptedError then (EX_INTERRUPTED, ''EXECUTION_INTERRUPTED'')
      else (EX_FAILED, ''TOOL_EXECUTION_ERROR''))"

definition classify_error_type :: "string \<Rightarrow> execution_status \<times> string" where
  "classify_error_type t =
     (if t \<in> {''SandboxTimeoutError'', ''TimeoutError''} then (EX_TIMEOUT, ''EXECUTION_TIMEOUT'')
      else if t = ''SandboxResourceExhaustedError'' then (EX_FAILED, ''RESOURCE_EXHAUSTED'')
      else if t \<in> {''SandboxIsolationError'', ''PermissionError''} then (EX_FAILED, ''ISOLATION_FAILURE'')
      else if t = ''InterruptedError'' then (EX_INTERRUPTED, ''EXECUTION_INTERRUPTED'')
      else (EX_FAILED, ''TOOL_EXECUTION_ERROR''))"

definition compute_output_digest :: "('o \<Rightarrow> string option) \<Rightarrow> 'o option \<Rightarrow> string option" where
  "compute_output_digest digest output = Option.bind output digest"

definition elapsed_ms :: "exec_env \<Rightarrow> int" where
  "elapsed_ms v =
     (let d = xe_end_mono v - xe_start_mono v in if 0 \<le> d then d div 1000 else - ((- d) div 1000))"

definition text_or :: "string option \<Rightarrow> string \<Rightarrow> string" where
  "text_or t d = (case t of None \<Rightarrow> d | Some x \<Rightarrow> if x = [] then d else x)"

text \<open>The receipt opened before dispatch. A field the grant lacks is empty, which the receipt refuses.\<close>

definition started_receipt ::
  "'o executor \<Rightarrow> exec_env \<Rightarrow> tool_metadata \<Rightarrow> grant \<Rightarrow> capabilities \<Rightarrow> string \<Rightarrow> string \<Rightarrow> receipt" where
  "started_receipt x v md g c trace_id implementation_id =
     \<lparr>rc_receipt_id = ''rcpt-'' @ xe_receipt_uuid v, rc_grant_id = gr_grant_id g, rc_session_id = gr_session_id g,
      rc_agent_id = gr_agent_id g, rc_request_id = trace_id, rc_tool_id = ti_tool_id (md_identity md),
      rc_tool_version = b_tool_version (gr_binding g), rc_implementation_id = implementation_id,
      rc_binding_hash = xc_hash x (canonical_json (gr_binding g)),
      rc_capability_profile_id = text_or (gr_capability_profile_id g) [],
      rc_capability_digest = text_or (gr_capability_digest g) [],
      rc_declared_timeout = lim_wall_clock (cp_resources c), rc_status = EX_STARTED,
      rc_started_at = xe_start_utc v, rc_completed_at = None, rc_reconciled_at = None, rc_duration_ms = None,
      rc_error_type = None, rc_error_code = None, rc_reconciliation_reason = None, rc_output_digest = None\<rparr>"

definition start_evidence :: "receipt \<Rightarrow> int \<Rightarrow> (exec_state, unit) eff" where
  "start_evidence r monotonic_start s =
     (case xs_evidence s of
        None \<Rightarrow> (Inr (), s)
      | Some e \<Rightarrow>
          (case record_started r (Some monotonic_start) e of
             (Inl _, e') \<Rightarrow> (Inl ExecutionEvidenceUnavailableError, s\<lparr>xs_evidence := Some e'\<rparr>)
           | (Inr _, e') \<Rightarrow> (Inr (), s\<lparr>xs_evidence := Some e'\<rparr>)))"

text \<open>\<^verbatim>\<open>_record_terminal\<close>: the result says whether terminal evidence could not be recorded.\<close>

definition record_outcome ::
  "string \<Rightarrow> execution_status \<Rightarrow> instant \<Rightarrow> int \<Rightarrow> string option \<Rightarrow> string option \<Rightarrow> string option
     \<Rightarrow> exec_state \<Rightarrow> bool \<times> exec_state" where
  "record_outcome rid status completed_at duration_ms error_type error_code digest s =
     (case xs_evidence s of
        None \<Rightarrow> (False, s)
      | Some e \<Rightarrow>
          (case record_terminal rid status completed_at duration_ms error_type error_code digest e of
             (Inl _, e') \<Rightarrow> (True, s\<lparr>xs_evidence := Some e'\<rparr>)
           | (Inr _, e') \<Rightarrow> (False, s\<lparr>xs_evidence := Some e'\<rparr>)))"

definition others_during :: "evidence_op list \<Rightarrow> exec_state \<Rightarrow> exec_state" where
  "others_during ops s = s\<lparr>xs_evidence := map_option (run_ops evidence_exec ops) (xs_evidence s)\<rparr>"

definition settle_raised :: "exec_env \<Rightarrow> string \<Rightarrow> exn \<Rightarrow> string \<Rightarrow> (exec_state, 'o option) eff" where
  "settle_raised v rid e name s =
     (let (status, code) = classify_exception e;
          (bad, s') = record_outcome rid status (xe_end_utc v) (elapsed_ms v) (Some name) (Some code) None s
      in (case e of
            ToolExecutionError b \<Rightarrow> Inl (ToolExecutionError (b \<or> bad))
          | ToolDisabledError \<Rightarrow> Inl ToolDisabledError
          | _ \<Rightarrow> Inl (ToolExecutionError bad), s'))"

definition settle_finished :: "'o executor \<Rightarrow> exec_env \<Rightarrow> string \<Rightarrow> 'o sandbox_result \<Rightarrow> (exec_state, 'o option) eff" where
  "settle_finished x v rid q s =
     (let duration_ms = (if sx_duration_ms q \<noteq> 0 then int (sx_duration_ms q) else elapsed_ms v)
      in if sx_success q then
           let digest = (case sx_output_digest q of
                           Some d \<Rightarrow> if d = [] then compute_output_digest (xc_digest x) (sx_output q) else Some d
                         | None \<Rightarrow> compute_output_digest (xc_digest x) (sx_output q));
               (bad, s') = record_outcome rid EX_SUCCEEDED (xe_end_utc v) duration_ms None None digest s
           in (if bad then Inl ExecutionEvidenceIntegrityError else Inr (sx_output q), s')
         else
           let err_type = text_or (sx_error_type q) ''ToolExecutionError'';
               (status, code) = classify_error_type err_type;
               (bad, s') = record_outcome rid status (xe_end_utc v) duration_ms (Some err_type) (Some code) None s
           in (Inl (ToolExecutionError bad), s'))"

text \<open>Crossing the isolation boundary, and what is recorded about it afterwards.\<close>

definition cross_boundary :: "'o executor \<Rightarrow> exec_env \<Rightarrow> string \<Rightarrow> sandbox_call \<Rightarrow> (exec_state, 'o option) eff" where
  "cross_boundary x v rid call s =
     (case xc_sandbox x of
        None \<Rightarrow> settle_raised v rid (OtherError ''AssertionError'') ''AssertionError'' s
      | Some sandbox \<Rightarrow>
          let s2 = others_during (xe_during v) (s\<lparr>xs_dispatched := xs_dispatched s @ [call]\<rparr>)
          in (case sandbox call of
                SandboxRaised e name \<Rightarrow> settle_raised v rid e name s2
              | SandboxFinished q \<Rightarrow> settle_finished x v rid q s2))"

definition trace_of :: "exec_env \<Rightarrow> runtime_context option \<Rightarrow> string" where
  "trace_of v ctx = (case ctx of Some cx \<Rightarrow> cx_request_id cx | None \<Rightarrow> ''req-'' @ xe_request_uuid v)"

definition run_tool ::
  "'o executor \<Rightarrow> exec_env \<Rightarrow> base_tool \<Rightarrow> raw_parameters \<Rightarrow> capabilities \<Rightarrow> grant \<Rightarrow> runtime_context option
     \<Rightarrow> string option \<Rightarrow> (exec_state, 'o option) eff" where
  "run_tool x v tool parameters c g ctx implementation_id s =
     (case (bt_metadata tool, implementation_id) of
        (None, _) \<Rightarrow> (Inl (OtherError ''AttributeError''), s)
      | (Some md, None) \<Rightarrow> (Inl (ExecutionBindingError NO_AUTHORITY), s)
      | (Some md, Some impl) \<Rightarrow>
          if impl = [] then (Inl (ExecutionBindingError NO_AUTHORITY), s)
          else
            (case from_grant g (trace_of v ctx) impl of
               Inl e \<Rightarrow> (Inl e, s)
             | Inr pv \<Rightarrow>
                 let receipt = started_receipt x v md g c (trace_of v ctx) impl
                 in and_then (start_evidence receipt (xe_start_mono v))
                      (\<lambda>_. cross_boundary x v (rc_receipt_id receipt)
                             \<lparr>sc_tool = tool, sc_parameters = parameters, sc_capabilities = c, sc_provenance = pv,
                              sc_implementation_id = impl, sc_tool_version = b_tool_version (gr_binding g)\<rparr>) s))"

subsection \<open>Entry points\<close>

definition execute_resolved ::
  "'o executor \<Rightarrow> exec_env \<Rightarrow> descriptor \<Rightarrow> raw_parameters \<Rightarrow> runtime_context option \<Rightarrow> grant option
     \<Rightarrow> (exec_state, 'o option) eff" where
  "execute_resolved x v d parameters ctx grant s =
     (if \<not> td_enabled d then (Inl ToolDisabledError, s)
      else and_then (verify_and_prepare x v (td_tool_id d) (td_version d) parameters grant ctx) (\<lambda>c s1.
             case instantiate d [] of
               Inl e \<Rightarrow> (Inl e, s1)
             | Inr tool \<Rightarrow> run_tool x v tool parameters c (the grant) ctx (td_implementation_id d) s1) s)"

definition execute ::
  "'o executor \<Rightarrow> exec_env \<Rightarrow> grant option \<Rightarrow> raw_parameters \<Rightarrow> runtime_context option \<Rightarrow> (exec_state, 'o option) eff" where
  "execute x v grant parameters ctx s =
     (case grant of
        None \<Rightarrow> (Inl (ExecutionBindingError MISSING_GRANT), s)
      | Some g \<Rightarrow>
          (case xc_registry x of
             None \<Rightarrow> (Inl (ExecutionBindingError NO_AUTHORITY), s)
           | Some reg \<Rightarrow>
               (case resolve reg (b_tool_id (gr_binding g)) (Some (b_tool_version (gr_binding g))) of
                  Inl e \<Rightarrow> (Inl e, s)
                | Inr d \<Rightarrow> execute_resolved x v d parameters ctx grant s)))"

definition execute_descriptor ::
  "'o executor \<Rightarrow> exec_env \<Rightarrow> descriptor \<Rightarrow> raw_parameters \<Rightarrow> runtime_context option \<Rightarrow> grant option
     \<Rightarrow> (exec_state, 'o option) eff" where
  "execute_descriptor x v d parameters ctx grant = execute_resolved x v d parameters ctx grant"

definition execute_tool ::
  "'o executor \<Rightarrow> exec_env \<Rightarrow> base_tool \<Rightarrow> raw_parameters \<Rightarrow> runtime_context option \<Rightarrow> grant option \<Rightarrow> string option
     \<Rightarrow> (exec_state, 'o option) eff" where
  "execute_tool x v tool parameters ctx grant implementation_id s =
     (case bt_metadata tool of
        None \<Rightarrow> (Inl (OtherError ''AttributeError''), s)
      | Some md \<Rightarrow>
          and_then (verify_and_prepare x v (ti_tool_id (md_identity md)) (ti_version (md_identity md)) parameters grant ctx)
            (\<lambda>c. run_tool x v tool parameters c (the grant) ctx implementation_id) s)"

subsection \<open>What each stage does\<close>

lemma verify_claimed: "verify_grant mac now (Presented g) rq a = (Inr (), a1) \<Longrightarrow> rq = gr_binding g"
  by (auto simp: verify_grant_def authentic_iff claimable_iff split: sum.splits)

lemma prepare_ok:
  assumes "verify_and_prepare x v tid ver ps grant ctx s = (Inr c, s')"
  obtains a g a1 a3 where "xs_authority s = Some a" "grant = Some g" "from_operation tid ver ps None = Inr (gr_binding g)"
    "verify_grant (xc_mac x) (xe_verify_now v) (Presented g) (gr_binding g) a = (Inr (), a1)"
    "check_containment x g ctx = Inr c"
    "claim_grant (xc_mac x) (xe_claim_now v) (Presented g) (gr_binding g)
       (run_ops (authority_exec (xc_mac x)) (xe_between v) a1) = (Inr (), a3)"
    "s' = s\<lparr>xs_authority := Some a3\<rparr>"
proof -
  obtain a g rq a1 a3 where *: "xs_authority s = Some a" "grant = Some g" "from_operation tid ver ps None = Inr rq"
    "verify_grant (xc_mac x) (xe_verify_now v) (Presented g) rq a = (Inr (), a1)" "check_containment x g ctx = Inr c"
    "claim_grant (xc_mac x) (xe_claim_now v) (Presented g) rq (run_ops (authority_exec (xc_mac x)) (xe_between v) a1) = (Inr (), a3)"
    "s' = s\<lparr>xs_authority := Some a3\<rparr>"
    using assms by (auto simp: verify_and_prepare_def Let_def split: option.splits sum.splits prod.splits)
  with verify_claimed [OF *(4)] show ?thesis using that by blast
qed

lemma prepare_refused:
  assumes "verify_and_prepare x v tid ver ps grant ctx s = (Inl e, s')"
  obtains "s' = s"
  | a g rq a1 where "xs_authority s = Some a" "grant = Some g"
      "verify_grant (xc_mac x) (xe_verify_now v) (Presented g) rq a = (Inl e, a1)" "s' = s\<lparr>xs_authority := Some a1\<rparr>"
  | a g rq a1 where "xs_authority s = Some a" "grant = Some g"
      "verify_grant (xc_mac x) (xe_verify_now v) (Presented g) rq a = (Inr (), a1)" "s' = s\<lparr>xs_authority := Some a1\<rparr>"
  | a g rq a1 a3 where "xs_authority s = Some a" "grant = Some g"
      "verify_grant (xc_mac x) (xe_verify_now v) (Presented g) rq a = (Inr (), a1)"
      "claim_grant (xc_mac x) (xe_claim_now v) (Presented g) rq (run_ops (authority_exec (xc_mac x)) (xe_between v) a1) = (Inl e, a3)"
      "s' = s\<lparr>xs_authority := Some a3\<rparr>"
  using assms by (auto simp: verify_and_prepare_def Let_def split: option.splits sum.splits prod.splits)

lemma record_outcome_frame:
  "record_outcome rid st c d et ec dg s = (b, s') \<Longrightarrow> xs_authority s' = xs_authority s \<and> xs_dispatched s' = xs_dispatched s"
  by (auto simp: record_outcome_def split: option.splits sum.splits prod.splits)

lemma settle_frame:
  "settle_raised v rid e name s = (r, s') \<Longrightarrow> xs_authority s' = xs_authority s \<and> xs_dispatched s' = xs_dispatched s"
  "settle_finished x v rid q s = (r', s') \<Longrightarrow> xs_authority s' = xs_authority s \<and> xs_dispatched s' = xs_dispatched s"
  by (auto simp: settle_raised_def settle_finished_def Let_def split: prod.splits if_splits dest!: record_outcome_frame)

lemma others_frame [simp]:
  "xs_authority (others_during ops s) = xs_authority s" "xs_dispatched (others_during ops s) = xs_dispatched s"
  by (simp_all add: others_during_def)

lemma start_evidence_frame:
  "start_evidence rc m s = (r, s') \<Longrightarrow> xs_authority s' = xs_authority s \<and> xs_dispatched s' = xs_dispatched s"
  by (auto simp: start_evidence_def split: option.splits sum.splits prod.splits)

text \<open>A run either stops before the boundary, or crosses it once with the grant's own identity.\<close>

lemma cross_boundary_frame:
  assumes "cross_boundary x v rid call s = (r, s')"
  shows "xs_authority s' = xs_authority s"
    and "xs_dispatched s' = xs_dispatched s @ (if xc_sandbox x = None then [] else [call])"
  using assms by (auto simp: cross_boundary_def Let_def split: option.splits sandbox_outcome.splits dest!: settle_frame)

lemma cross_boundary_None: "xc_sandbox x = None \<Longrightarrow> cross_boundary x v rid call s = (r, s') \<Longrightarrow> \<exists>e. r = Inl e"
  by (auto simp: cross_boundary_def settle_raised_def Let_def split: prod.splits)

lemma run_tool_cases:
  assumes "run_tool x v tool ps c g ctx impl s = (r, s')"
  obtains (stopped) e where "r = Inl e" "xs_authority s' = xs_authority s" "xs_dispatched s' = xs_dispatched s"
  | (crossed) md i pv rc s1 call where "bt_metadata tool = Some md" "impl = Some i"
      "from_grant g (trace_of v ctx) i = Inr pv" "rc = started_receipt x v md g c (trace_of v ctx) i"
      "start_evidence rc (xe_start_mono v) s = (Inr (), s1)" "xc_sandbox x \<noteq> None"
      "call = \<lparr>sc_tool = tool, sc_parameters = ps, sc_capabilities = c, sc_provenance = pv,
               sc_implementation_id = i, sc_tool_version = b_tool_version (gr_binding g)\<rparr>"
      "cross_boundary x v (rc_receipt_id rc) call s1 = (r, s')"
      "xs_authority s' = xs_authority s" "xs_dispatched s' = xs_dispatched s @ [call]"
proof (cases "bt_metadata tool = None \<or> impl = None \<or> impl = Some []")
  case True
  then show ?thesis using assms stopped by (auto simp: run_tool_def split: option.splits)
next
  case False
  then obtain md i where mi: "bt_metadata tool = Some md" "impl = Some i" "i \<noteq> []" by auto
  show ?thesis
  proof (cases "from_grant g (trace_of v ctx) i")
    case (Inl e)
    with assms mi show ?thesis using stopped by (auto simp: run_tool_def)
  next
    case (Inr pv)
    let ?rc = "started_receipt x v md g c (trace_of v ctx) i"
    let ?call = "\<lparr>sc_tool = tool, sc_parameters = ps, sc_capabilities = c, sc_provenance = pv,
               sc_implementation_id = i, sc_tool_version = b_tool_version (gr_binding g)\<rparr>"
    obtain q s1 where st: "start_evidence ?rc (xe_start_mono v) s = (q, s1)" by fastforce
    note f = start_evidence_frame [OF st]
    show ?thesis
    proof (cases q)
      case Inl': (Inl e)
      have "(Inl e, s1) = (r, s')"
        using assms mi Inr st Inl' by (simp add: run_tool_def Let_def and_then_def)
      then show ?thesis using stopped f by auto
    next
      case q: (Inr u)
      have run: "cross_boundary x v (rc_receipt_id ?rc) ?call s1 = (r, s')"
        using assms mi Inr st q by (simp add: run_tool_def Let_def and_then_def)
      note g = cross_boundary_frame [OF run]
      show ?thesis
      proof (cases "xc_sandbox x")
        case None
        with cross_boundary_None [OF None run] g f show ?thesis using stopped by auto
      next
        case (Some sandbox)
        show ?thesis
          by (rule crossed [OF mi(1,2) Inr refl _ _ refl run]) (use st q Some g f in simp_all)
      qed
    qed
  qed
qed

text \<open>One execution: nothing crosses the boundary, or the grant was claimed and one call did.\<close>

lemma execute_cases:
  assumes "execute x v grant ps ctx s = (r, s')"
  obtains (inert) "s' = s" "\<not> isl r \<Longrightarrow> False"
  | (refused) g d e where "grant = Some g" "verify_and_prepare x v (td_tool_id d) (td_version d) ps grant ctx s = (Inl e, s')" "r = Inl e"
  | (claimed) g d c s1 e where "grant = Some g"
      "verify_and_prepare x v (td_tool_id d) (td_version d) ps grant ctx s = (Inr c, s1)" "r = Inl e"
      "xs_authority s' = xs_authority s1" "xs_dispatched s' = xs_dispatched s1"
  | (crossed) g d c s1 reg tool md i pv rc s2 call where "grant = Some g" "xc_registry x = Some reg"
      "resolve reg (b_tool_id (gr_binding g)) (Some (b_tool_version (gr_binding g))) = Inr d" "td_enabled d"
      "verify_and_prepare x v (td_tool_id d) (td_version d) ps grant ctx s = (Inr c, s1)"
      "instantiate d [] = Inr tool" "bt_metadata tool = Some md" "td_implementation_id d = Some i"
      "from_grant g (trace_of v ctx) i = Inr pv" "rc = started_receipt x v md g c (trace_of v ctx) i"
      "start_evidence rc (xe_start_mono v) s1 = (Inr (), s2)" "xc_sandbox x \<noteq> None"
      "call = \<lparr>sc_tool = tool, sc_parameters = ps, sc_capabilities = c, sc_provenance = pv,
               sc_implementation_id = i, sc_tool_version = b_tool_version (gr_binding g)\<rparr>"
      "cross_boundary x v (rc_receipt_id rc) call s2 = (r, s')"
      "xs_authority s' = xs_authority s1" "xs_dispatched s' = xs_dispatched s1 @ [call]"
proof (cases "\<exists>g reg d. grant = Some g \<and> xc_registry x = Some reg
    \<and> resolve reg (b_tool_id (gr_binding g)) (Some (b_tool_version (gr_binding g))) = Inr d \<and> td_enabled d")
  case False
  then have "s' = s \<and> isl r"
    using assms by (auto simp: execute_def execute_resolved_def split: option.splits sum.splits if_splits)
  then show ?thesis using inert by blast
next
  case True
  then obtain g reg d where g: "grant = Some g" "xc_registry x = Some reg"
    "resolve reg (b_tool_id (gr_binding g)) (Some (b_tool_version (gr_binding g))) = Inr d" "td_enabled d" by blast
  obtain q s1 where vp: "verify_and_prepare x v (td_tool_id d) (td_version d) ps grant ctx s = (q, s1)" by fastforce
  show ?thesis
  proof (cases q)
    case (Inl e)
    then have "(Inl e, s1) = (r, s')" using assms g vp by (simp add: execute_def execute_resolved_def and_then_def)
    with Inl vp g show ?thesis using refused by auto
  next
    case q: (Inr c)
    note vp = vp [unfolded q]
    have run: "(case instantiate d [] of Inl e \<Rightarrow> (Inl e, s1)
        | Inr tool \<Rightarrow> run_tool x v tool ps c g ctx (td_implementation_id d) s1) = (r, s')"
      using assms g vp by (simp add: execute_def execute_resolved_def and_then_def cong: sum.case_cong)
    show ?thesis
    proof (cases "instantiate d []")
      case (Inl e)
      with run show ?thesis by (intro claimed [OF g(1) vp]) auto
    next
      case (Inr tool)
      with run have "run_tool x v tool ps c g ctx (td_implementation_id d) s1 = (r, s')" by simp
      then show ?thesis
      proof (cases rule: run_tool_cases)
        case (stopped e)
        then show ?thesis using claimed [OF g(1) vp] by blast
      next
        case (crossed md i pv rc s2 call)
        show ?thesis by (rule that(4) [OF g vp Inr crossed])
      qed
    qed
  qed
qed


subsection \<open>A grant executes at most once\<close>

datatype exec_op =
    OpExecute exec_env "grant option" raw_parameters "runtime_context option"
  | OpAuthority authority_op

definition dispatched_grant :: "exec_state \<Rightarrow> exec_state \<Rightarrow> string option" where
  "dispatched_grant s s' =
     (case drop (length (xs_dispatched s)) (xs_dispatched s') of
        [] \<Rightarrow> None
      | call # _ \<Rightarrow> Some (pv_grant_id (sc_provenance call)))"

text \<open>The result of an operation is the grant under which it crossed the isolation boundary, if it did.\<close>

fun executor_exec :: "'o executor \<Rightarrow> exec_op \<Rightarrow> exec_state \<Rightarrow> string option \<times> exec_state" where
  "executor_exec x (OpExecute v grant ps ctx) s =
     (let s' = snd (execute x v grant ps ctx s) in (dispatched_grant s s', s'))"
| "executor_exec x (OpAuthority y) s =
     (None, s\<lparr>xs_authority := map_option (\<lambda>a. snd (authority_exec (xc_mac x) y a)) (xs_authority s)\<rparr>)"

fun mints_for_executor :: "exec_op \<Rightarrow> string \<Rightarrow> bool" where
  "mints_for_executor (OpExecute v grant ps ctx) gid = (\<exists>y\<in>set (xe_between v). mints_grant y gid)"
| "mints_for_executor (OpAuthority y) gid = mints_grant y gid"

definition executor_live :: "exec_state \<Rightarrow> string \<Rightarrow> bool" where
  "executor_live s gid = (case xs_authority s of None \<Rightarrow> False | Some a \<Rightarrow> grant_live a gid)"

definition executor_good :: "exec_state \<Rightarrow> bool" where
  "executor_good s = (case xs_authority s of None \<Rightarrow> True | Some a \<Rightarrow> authority_inv a)"

lemma executor_liveI: "xs_authority s = Some a \<Longrightarrow> executor_live s gid = grant_live a gid"
  by (simp add: executor_live_def)

lemma executor_goodI: "xs_authority s = Some a \<Longrightarrow> executor_good s = authority_inv a"
  by (simp add: executor_good_def)

lemma verify_op: "verify_grant mac now p rq a = (r, a1) \<Longrightarrow> a1 = snd (authority_exec mac (OpVerify now p rq) a)"
  by simp

lemma claim_op: "claim_grant mac now p rq a = (r, a1) \<Longrightarrow> a1 = snd (authority_exec mac (OpClaim now p rq) a)"
  by simp

text \<open>What an execution does to the authority is what the operations it is made of do.\<close>

definition mints_within :: "authority_op list \<Rightarrow> authority_op list \<Rightarrow> bool" where
  "mints_within ys zs \<longleftrightarrow> (\<forall>y\<in>set ys. \<forall>gid. mints_grant y gid \<longrightarrow> (\<exists>z\<in>set zs. mints_grant z gid))"

lemma mints_within_parts [simp]:
  "mints_within [] zs" "mints_within zs zs" "mints_within (ys @ ys') zs \<longleftrightarrow> mints_within ys zs \<and> mints_within ys' zs"
  "mints_within (OpVerify t p rq # ys) zs = mints_within ys zs" "mints_within (OpClaim t p rq # ys) zs = mints_within ys zs"
  by (auto simp: mints_within_def)

lemma prepare_authority:
  assumes run: "verify_and_prepare x v tid ver ps grant ctx s = (r, s')" and a: "xs_authority s = Some a"
  shows "\<exists>ys. xs_authority s' = Some (run_ops (authority_exec (xc_mac x)) ys a) \<and> mints_within ys (xe_between v)"
proof (cases r)
  case (Inl e)
  from run [unfolded Inl] show ?thesis
  proof (cases rule: prepare_refused)
    case 1
    then show ?thesis using a by (intro exI [of _ "[]"]) simp
  next
    case (2 a' g rq a1)
    then show ?thesis using a by (intro exI [of _ "[OpVerify (xe_verify_now v) (Presented g) rq]"]) simp
  next
    case (3 a' g rq a1)
    then show ?thesis using a by (intro exI [of _ "[OpVerify (xe_verify_now v) (Presented g) rq]"]) simp
  next
    case (4 a' g rq a1 a3)
    then show ?thesis
      using a by (intro exI [of _ "OpVerify (xe_verify_now v) (Presented g) rq # xe_between v
          @ [OpClaim (xe_claim_now v) (Presented g) rq]"]) (simp add: run_ops_append)
  qed
next
  case (Inr c)
  from run [unfolded Inr] show ?thesis
  proof (cases rule: prepare_ok)
    case (1 a' g a1 a3)
    then show ?thesis
      using a by (intro exI [of _ "OpVerify (xe_verify_now v) (Presented g) (gr_binding g) # xe_between v
          @ [OpClaim (xe_claim_now v) (Presented g) (gr_binding g)]"]) (simp add: run_ops_append)
  qed
qed

lemma prepare_no_authority:
  "verify_and_prepare x v tid ver ps grant ctx s = (r, s') \<Longrightarrow> xs_authority s = None \<Longrightarrow> s' = s"
  by (simp add: verify_and_prepare_def)

lemma execute_authority:
  assumes run: "execute x v grant ps ctx s = (r, s')" and a: "xs_authority s = Some a"
  shows "\<exists>ys. xs_authority s' = Some (run_ops (authority_exec (xc_mac x)) ys a) \<and> mints_within ys (xe_between v)"
  using run
proof (cases rule: execute_cases)
  case inert
  then show ?thesis using a by (intro exI [of _ "[]"]) simp
qed (use prepare_authority [OF _ a] in auto)

lemma execute_no_authority:
  assumes run: "execute x v grant ps ctx s = (r, s')" and a: "xs_authority s = None"
  shows "xs_authority s' = None"
  using run by (cases rule: execute_cases) (auto dest!: prepare_no_authority [OF _ a] simp: a)

lemma dispatched_grant_Some:
  assumes run: "execute x v grant ps ctx s = (r, s')" and d: "dispatched_grant s s' = Some gid"
  obtains g c s1 tid ver where "grant = Some g" "gid = gr_grant_id g" "xs_authority s' = xs_authority s1"
    "verify_and_prepare x v tid ver ps grant ctx s = (Inr c, s1)"
  using run
proof (cases rule: execute_cases)
  case inert
  with d show ?thesis by (simp add: dispatched_grant_def)
next
  case (refused g d' e)
  then have "xs_dispatched s' = xs_dispatched s" by (auto elim!: prepare_refused)
  with d show ?thesis by (simp add: dispatched_grant_def)
next
  case (claimed g d' c s1 e)
  then have "xs_dispatched s' = xs_dispatched s" by (auto elim!: prepare_ok)
  with d show ?thesis by (simp add: dispatched_grant_def)
next
  case (crossed g d' c s1 reg tool md i pv rc s2 call)
  from crossed(5) have "xs_dispatched s1 = xs_dispatched s" by (auto elim!: prepare_ok)
  moreover have "pv_grant_id pv = gr_grant_id g" using crossed(9) by (auto simp: from_grant_def split: if_splits)
  ultimately have "gid = gr_grant_id g" using d crossed(13,16) by (simp add: dispatched_grant_def)
  with crossed(1,5,15) show ?thesis using that by blast
qed

interpretation executions: single_use executor_live "executor_exec x" mints_for_executor executor_good
  for x :: "'o executor"
proof
  fix s y gid s' assume good: "executor_good s" and run: "executor_exec x y s = (Some gid, s')"
  from run obtain v grant ps ctx where y: "y = OpExecute v grant ps ctx"
    and s': "s' = snd (execute x v grant ps ctx s)" and d: "dispatched_grant s s' = Some gid"
    by (cases y) (auto simp: Let_def)
  have e: "execute x v grant ps ctx s = (fst (execute x v grant ps ctx s), s')" by (simp add: s')
  obtain g c s1 tid ver where g: "grant = Some g" "gid = gr_grant_id g" "xs_authority s' = xs_authority s1"
    "verify_and_prepare x v tid ver ps grant ctx s = (Inr c, s1)"
    by (rule dispatched_grant_Some [OF e d])
  obtain a a1 a3 where a: "xs_authority s = Some a"
    "verify_grant (xc_mac x) (xe_verify_now v) (Presented g) (gr_binding g) a = (Inr (), a1)"
    "claim_grant (xc_mac x) (xe_claim_now v) (Presented g) (gr_binding g)
       (run_ops (authority_exec (xc_mac x)) (xe_between v) a1) = (Inr (), a3)" "s1 = s\<lparr>xs_authority := Some a3\<rparr>"
    using g(4) g(1) by (elim prepare_ok) auto
  have "authority_inv a" using good a(1) by (simp add: executor_goodI)
  then show "executor_live s gid"
    using a(2) by (auto simp: executor_liveI [OF a(1)] g(2) verify_grant_def authentic_iff claimable_iff grant_live_def
        authority_inv_def prune_outstanding_Some split: sum.splits)
  have "\<not> grant_live a3 gid" using a(3) by (auto simp: claim_iff authentic_iff g(2) grant_live_def)
  then show "\<not> executor_live s' gid" using g(3) a(4) by (simp add: executor_live_def)
next
  fix s gid y assume good: "executor_good s" and dead: "\<not> executor_live s gid" and quiet: "\<not> mints_for_executor y gid"
  show "\<not> executor_live (snd (executor_exec x y s)) gid"
  proof (cases "xs_authority s")
    case None
    then show ?thesis
      using execute_no_authority [OF prod.collapse [symmetric] None, where x = x] by (cases y) (auto simp: executor_live_def Let_def)
  next
    case (Some a)
    have a: "authority_inv a" "\<not> grant_live a gid" using good dead Some by (simp_all add: executor_goodI executor_liveI)
    show ?thesis
    proof (cases y)
      case (OpAuthority z)
      then show ?thesis using grants.no_revival [OF a, of z] quiet Some by (simp add: executor_live_def)
    next
      case (OpExecute v grant ps ctx)
      obtain ys where ys: "xs_authority (snd (execute x v grant ps ctx s)) = Some (run_ops (authority_exec (xc_mac x)) ys a)"
        "mints_within ys (xe_between v)"
        using execute_authority [OF prod.collapse [symmetric] Some] by blast
      have "\<forall>z\<in>set ys. \<not> mints_grant z gid" using ys(2) quiet OpExecute by (auto simp: mints_within_def)
      from grants.dead_stays_dead [OF a this] ys(1) OpExecute show ?thesis by (simp add: executor_live_def Let_def)
    qed
  qed
next
  fix s y assume good: "executor_good s"
  show "executor_good (snd (executor_exec x y s))"
  proof (cases "xs_authority s")
    case None
    then show ?thesis
      using execute_no_authority [OF prod.collapse [symmetric] None, where x = x] by (cases y) (auto simp: executor_good_def Let_def)
  next
    case (Some a)
    have a: "authority_inv a" using good Some by (simp add: executor_goodI)
    show ?thesis
    proof (cases y)
      case (OpAuthority z)
      then show ?thesis using authority_exec_inv [OF a, of "xc_mac x" z] Some by (simp add: executor_good_def)
    next
      case (OpExecute v grant ps ctx)
      then show ?thesis
        using execute_authority [OF prod.collapse [symmetric] Some, of x v grant ps ctx] authority_runs_inv [OF a, of "xc_mac x"]
        by (auto simp: executor_good_def Let_def)
    qed
  qed
qed

text \<open>
  (C3) A grant executes at most once. Over any sequence of execution attempts, each interleaved with whatever
  other threads do to the authority between its pre-check and its claim, and of direct operations on the
  authority, no grant identifier crosses the isolation boundary twice, unless an issuance mints it again.
\<close>

theorem grant_executes_at_most_once:
  assumes "xs_authority s = Some a" and "authority_inv a" and "\<forall>y\<in>set ys. \<not> mints_for_executor y gid"
  shows "length (filter (\<lambda>(y, r). r = Some gid) (results (executor_exec x) ys s)) \<le> 1"
proof -
  have "executor_good s" using assms(1,2) by (simp add: executor_goodI)
  then show ?thesis by (rule executions.at_most_one_claim [OF _ assms(3)])
qed

subsection \<open>Refusals, and evidence of success\<close>

lemma claimable_keeps:
  assumes inv: "authority_inv a" and run: "require_claimable_locked now g rq a = (r, a')"
    and og: "dget (au_outstanding a) gid = Some og" "now < og_expires_at og"
    and own: "gid = gr_grant_id g \<Longrightarrow> now < gr_expires_at g"
  shows "dget (au_outstanding a') gid = Some og"
proof -
  have "dget (au_outstanding (prune now a)) gid = Some og"
    using inv og by (simp add: prune_outstanding_Some authority_inv_def)
  with claimable_state [OF run] own show ?thesis by (auto split: if_splits)
qed

text \<open>
  A refusal does not spend the grant. Whatever the reason for which \<open>_verify_and_prepare\<close> refuses (a mismatched
  operation, a contradicting context, a missing sandbox, profile or registry, a capability digest that does not match),
  every outstanding grant that has not expired is still outstanding afterwards, the presented one included.
\<close>

theorem refusal_keeps_grants:
  assumes run: "verify_and_prepare x v tid ver ps (Some g) ctx s = (Inl e, s')" and a: "xs_authority s = Some a" "authority_inv a"
    and alone: "xe_between v = []" and og: "dget (au_outstanding a) gid = Some og"
    and time: "xe_verify_now v < og_expires_at og" "xe_claim_now v < og_expires_at og"
      "gid = gr_grant_id g \<Longrightarrow> gr_expires_at g = og_expires_at og"
  shows "\<exists>a'. xs_authority s' = Some a' \<and> dget (au_outstanding a') gid = Some og"
proof -
  have verify: "dget (au_outstanding a1) gid = Some og \<and> authority_inv a1"
    if "verify_grant (xc_mac x) (xe_verify_now v) (Presented g) rq a = (q, a1)" for rq q a1
    using that a(2) og time verify_inv [OF a(2) that]
    by (auto simp: verify_grant_def authentic_iff split: sum.splits intro: claimable_keeps)
  show ?thesis
    using run
  proof (cases rule: prepare_refused)
    case 1
    then show ?thesis using a og by simp
  next
    case (4 a' g' rq a1 a3)
    then have v: "dget (au_outstanding a1) gid = Some og" "authority_inv a1" using verify a by auto
    from claim_refused_state [OF 4(4)] v time 4(2) have "dget (au_outstanding a3) gid = Some og"
      by (auto simp: alone intro: claimable_keeps)
    with 4(5) show ?thesis by simp
  qed (use verify a in auto)
qed

lemma run_open_same:
  assumes "evidence_inv e" "dget (ev_receipts e) rid = Some r" "\<forall>y\<in>set ys. \<not> starts_receipt y rid"
    "receipt_open (run_ops evidence_exec ys e) rid"
  shows "dget (ev_receipts (run_ops evidence_exec ys e)) rid = Some r"
  using assms
proof (induction ys arbitrary: e)
  case (Cons y ys)
  let ?e = "snd (evidence_exec y e)"
  have inv: "evidence_inv ?e" by (rule evidence_exec_inv [OF Cons.prems(1)])
  have "receipt_open ?e rid"
    using outcomes.dead_stays_dead [OF inv, of rid ys] Cons.prems(3,4) by auto
  then have "dget (ev_receipts ?e) rid = Some r"
    using step_get [OF Cons.prems(1) prod.collapse [symmetric] _ Cons.prems(2), of y] Cons.prems(3) by (auto simp: receipt_open_def)
  with Cons.IH [OF inv] Cons.prems(3,4) show ?case by simp
qed simp

lemma settle_success:
  assumes "settle_raised v rid e name s = (Inr out, s')" shows False
  using assms by (auto simp: settle_raised_def Let_def split: prod.splits exn.splits)

text \<open>
  (C26) No output without evidence. When \<open>execute\<close> returns an output and a store is wired, the last thing it did was to
  have the store accept \<open>SUCCEEDED\<close> for the receipt it had opened: that receipt names the grant, agent and session of
  the verified grant. In particular, if the reconciler resolved the receipt while the sandbox ran, no output is returned.
\<close>

theorem output_needs_recorded_success:
  assumes run: "execute x v grant ps ctx s = (Inr out, s')" and e: "xs_evidence s = Some e" "evidence_inv e"
    and own: "\<forall>y\<in>set (xe_during v). \<not> starts_receipt y (''rcpt-'' @ xe_receipt_uuid v)"
  shows "\<exists>g rc e1 d dg t e3. grant = Some g \<and> record_started rc (Some (xe_start_mono v)) e = (Inr rc, e1)
    \<and> record_terminal (''rcpt-'' @ xe_receipt_uuid v) EX_SUCCEEDED (xe_end_utc v) d None None dg
        (run_ops evidence_exec (xe_during v) e1) = (Inr t, e3)
    \<and> xs_evidence s' = Some e3 \<and> t = terminalized rc EX_SUCCEEDED (xe_end_utc v) d None None dg
    \<and> rc_receipt_id t = ''rcpt-'' @ xe_receipt_uuid v \<and> rc_grant_id t = gr_grant_id g
    \<and> rc_agent_id t = gr_agent_id g \<and> rc_session_id t = gr_session_id g
    \<and> rc_tool_version t = b_tool_version (gr_binding g)"
  using run
proof (cases rule: execute_cases)
  case (crossed g d c s1 reg tool md i pv rc s2 call)
  have rid: "rc_receipt_id rc = ''rcpt-'' @ xe_receipt_uuid v" using crossed(10) by (simp add: started_receipt_def)
  have e1: "xs_evidence s1 = Some e" using crossed(5) e(1) by (auto elim!: prepare_ok)
  with crossed(11) obtain q e1 where st: "record_started rc (Some (xe_start_mono v)) e = (Inr q, e1)"
    and s2: "xs_evidence s2 = Some e1"
    by (auto simp: start_evidence_def split: sum.splits prod.splits)
  have q: "q = rc" using st crossed(10) by (auto simp: record_started_def started_receipt_def Let_def split: if_splits)
  have stored: "dget (ev_receipts e1) (rc_receipt_id rc) = Some rc" "evidence_inv e1"
    using st q record_started_inv [OF e(2) st] by (auto simp: record_started_def Let_def split: if_splits)
  let ?e2 = "run_ops evidence_exec (xe_during v) e1" and ?s = "others_during (xe_during v) (s2\<lparr>xs_dispatched := xs_dispatched s2 @ [call]\<rparr>)"
  have e2: "xs_evidence ?s = Some ?e2" by (simp add: others_during_def s2)
  obtain sandbox where sb: "xc_sandbox x = Some sandbox" using crossed(12) by blast
  obtain res where "settle_finished x v (rc_receipt_id rc) res ?s = (Inr out, s')"
    using crossed(14) sb by (auto simp: cross_boundary_def Let_def split: sandbox_outcome.splits dest: settle_success)
  then obtain dd dg where "record_outcome (rc_receipt_id rc) EX_SUCCEEDED (xe_end_utc v) dd None None dg ?s = (False, s')"
    by (auto simp: settle_finished_def Let_def split: if_splits prod.splits)
  then obtain t e3 where t: "record_terminal (rc_receipt_id rc) EX_SUCCEEDED (xe_end_utc v) dd None None dg ?e2 = (Inr t, e3)"
    and s': "xs_evidence s' = Some e3"
    by (auto simp: record_outcome_def e2 split: sum.splits prod.splits)
  from t obtain ex where ex: "dget (ev_receipts ?e2) (rc_receipt_id rc) = Some ex" "rc_status ex = EX_STARTED"
    "t = terminalized ex EX_SUCCEEDED (xe_end_utc v) dd None None dg"
    by (auto simp: record_terminal_def Let_def split: if_splits option.splits)
  have "receipt_open ?e2 (rc_receipt_id rc)" using ex(1,2) by (auto simp: receipt_open_def)
  from run_open_same [OF stored(2,1) own [folded rid] this] ex(1) have "ex = rc" by simp
  with ex t s' st q crossed(1) rid show ?thesis
    using crossed(10)
    by (intro exI [of _ g] exI [of _ rc] exI [of _ e1] exI [of _ dd] exI [of _ dg] exI [of _ t] exI [of _ e3])
      (auto simp: started_receipt_def terminalized_def)
qed auto

subsection \<open>A worked example\<close>

definition ex_caller :: "grant \<Rightarrow> runtime_context option" where
  "ex_caller g = Some \<lparr>cx_session_id = gr_session_id g, cx_request_id = ''q'', cx_user_id = ''u'', cx_principal = ''p'',
     cx_authenticated_agent = gr_agent_id g\<rparr>"

definition bound_request :: issue_request where
  "bound_request = ex_request\<lparr>iq_capability_profile_id := Some ''p'', iq_capability_digest := Some (compute_digest ex_sha ex_caps)\<rparr>"

definition bound_grant :: grant where
  "bound_grant = new_grant ex_mac 5 ''g'' ex_binding ''a'' ''s'' (Some ''p'') (Some (compute_digest ex_sha ex_caps)) ex_authority"

definition bound_authority :: authority where
  "bound_authority = snd (issue ex_mac 5 ''g'' None bound_request ex_authority)"

definition ex_executor :: "string executor" where
  "ex_executor = \<lparr>xc_mac = ex_mac, xc_sha = ex_sha, xc_hash = (\<lambda>s. ''#''), xc_digest = (\<lambda>s. Some s),
     xc_sandbox = Some (\<lambda>call. SandboxFinished \<lparr>sx_success = True, sx_output = Some ''text'', sx_output_digest = None,
       sx_duration_ms = 3, sx_error_type = None\<rparr>),
     xc_profiles = Some [(''p'', ex_caps)], xc_registry = Some (register_all [ex_tool ''1.0''])\<rparr>"

definition ex_exec_env :: "evidence_op list \<Rightarrow> exec_env" where
  "ex_exec_env ops = \<lparr>xe_verify_now = 6, xe_claim_now = 7, xe_start_utc = 8, xe_start_mono = 8, xe_end_mono = 11,
     xe_end_utc = 11, xe_request_uuid = ''u'', xe_receipt_uuid = ''1'', xe_between = [], xe_during = ops\<rparr>"

definition ex_exec_state :: exec_state where
  "ex_exec_state = \<lparr>xs_authority = Some bound_authority, xs_evidence = Some sample_store, xs_dispatched = []\<rparr>"

definition ex_run :: "evidence_op list \<Rightarrow> string option res \<times> exec_state" where
  "ex_run ops = execute ex_executor (ex_exec_env ops) (Some bound_grant) (as_params (b_parameters ex_binding))
     (ex_caller bound_grant) ex_exec_state"

lemma bound_inv: "authority_inv bound_authority"
  unfolding bound_authority_def by (rule issue_inv [OF ex_inv prod.collapse [symmetric]])

lemma ex_run_output: "fst (ex_run []) = Inr (Some ''text'')" "length (xs_dispatched (snd (ex_run []))) = 1"
  by code_simp+

text \<open>A reconciler that resolves the receipt while the sandbox runs turns success into an integrity error.\<close>

lemma reconciled_meanwhile:
  "fst (ex_run [OpReconciled ''rcpt-1'' 9 EXECUTION_TIMEOUT]) = Inl ExecutionEvidenceIntegrityError"
  by code_simp


theorem grant_executes_at_most_once_witness:
  "length (filter (\<lambda>(y, r). r = Some ''grant-g'') (results (executor_exec ex_executor)
     [OpExecute (ex_exec_env []) (Some bound_grant) (as_params (b_parameters ex_binding)) None,
      OpExecute (ex_exec_env []) (Some bound_grant) (as_params (b_parameters ex_binding)) None] ex_exec_state)) \<le> 1"
  by (rule grant_executes_at_most_once [OF _ bound_inv]) (simp_all add: ex_exec_state_def ex_exec_env_def)

theorem refusal_keeps_grants_witness:
  "\<exists>a'. xs_authority (snd (verify_and_prepare (ex_executor\<lparr>xc_sandbox := None\<rparr>) (ex_exec_env []) ''file_read'' ''1.0''
       (as_params (b_parameters ex_binding)) (Some bound_grant) None ex_exec_state)) = Some a'
     \<and> dget (au_outstanding a') ''grant-g'' = Some \<lparr>og_expires_at = 25, og_agent_id = ''a'', og_session_id = ''s''\<rparr>"
proof -
  let ?run = "verify_and_prepare (ex_executor\<lparr>xc_sandbox := None\<rparr>) (ex_exec_env []) ''file_read'' ''1.0''
       (as_params (b_parameters ex_binding)) (Some bound_grant) None ex_exec_state"
  have "fst ?run = Inl SandboxUnavailableError"
    "dget (au_outstanding bound_authority) ''grant-g'' = Some \<lparr>og_expires_at = 25, og_agent_id = ''a'', og_session_id = ''s''\<rparr>"
    "gr_expires_at bound_grant = 25"
    by code_simp+
  then show ?thesis
    using refusal_keeps_grants [of "ex_executor\<lparr>xc_sandbox := None\<rparr>" "ex_exec_env []" "''file_read''" "''1.0''"
        "as_params (b_parameters ex_binding)" bound_grant None ex_exec_state SandboxUnavailableError "snd ?run",
        OF _ _ bound_inv]
    by (simp add: prod_eq_iff ex_exec_state_def ex_exec_env_def)
qed

theorem output_needs_recorded_success_witness:
  "\<exists>t e3. xs_evidence (snd (ex_run [])) = Some e3 \<and> rc_status t = EX_SUCCEEDED \<and> rc_grant_id t = ''grant-g''
     \<and> (\<exists>d dg e2. record_terminal ''rcpt-1'' EX_SUCCEEDED 11 d None None dg e2 = (Inr t, e3))"
proof -
  have run: "execute ex_executor (ex_exec_env []) (Some bound_grant) (as_params (b_parameters ex_binding))
     (ex_caller bound_grant) ex_exec_state = (Inr (Some ''text''), snd (ex_run []))"
    using ex_run_output(1) unfolding ex_run_def by (metis prod.collapse)
  have "gr_grant_id bound_grant = ''grant-g''" by (simp add: bound_grant_def new_grant_def Let_def)
  moreover have "xs_evidence ex_exec_state = Some sample_store"
    "\<forall>y\<in>set (xe_during (ex_exec_env [])). \<not> starts_receipt y (''rcpt-'' @ xe_receipt_uuid (ex_exec_env []))"
    by (simp_all add: ex_exec_state_def ex_exec_env_def)
  ultimately obtain rc e1 d dg t e3 where "record_terminal ''rcpt-1'' EX_SUCCEEDED 11 d None None dg e1 = (Inr t, e3)"
    "xs_evidence (snd (ex_run [])) = Some e3" "t = terminalized rc EX_SUCCEEDED 11 d None None dg" "rc_grant_id t = ''grant-g''"
    using output_needs_recorded_success [OF run _ sample_store_inv] by (auto simp: ex_exec_env_def)
  then show ?thesis by (intro exI [of _ t] exI [of _ e3]) auto
qed

subsection \<open>An operation named by resource alone\<close>

lemma from_operation_resource:
  assumes "from_operation tid ver ps None = Inr b"
  shows "b_resource b = dget (b_parameters b) resource_parameter"
proof -
  obtain qs where "(case make_binding tid ver (dget qs resource_parameter) qs of
      Inl e \<Rightarrow> Inl ExecutionBindingValidationError | Inr b \<Rightarrow> Inr b) = Inr b"
    using assms by (auto simp: from_operation_def res_bind_Inr Let_def)
  then have "make_binding tid ver (dget qs resource_parameter) qs = Inr b"
    by (cases "make_binding tid ver (dget qs resource_parameter) qs") auto
  then have b: "b = \<lparr>b_tool_id = tid, b_tool_version = ver, b_resource = dget qs resource_parameter, b_parameters = sort qs\<rparr>"
    and d: "distinct (map fst qs)"
    unfolding make_binding_Inr by blast+
  have "map_of (sort qs) = map_of qs"
    using d distinct_fst_sort [of qs] by (simp add: map_of_inject_set)
  then show ?thesis by (simp add: b)
qed

text \<open>
  A grant for a resource that is not also the \<open>path\<close> parameter can never be executed: the executor rebuilds the
  operation from the parameters only, so the rebuilt resource never equals the granted one, and every attempt is
  refused before the grant is claimed, for every sandbox, registry and parameter list.
\<close>

theorem explicit_resource_never_executes:
  assumes "b_resource (gr_binding g) \<noteq> dget (b_parameters (gr_binding g)) resource_parameter"
    and "execute x v (Some g) ps ctx s = (r, s')"
  shows "isl r \<and> xs_dispatched s' = xs_dispatched s"
proof -
  have never: False if "verify_and_prepare x v tid ver ps (Some g) ctx s = (Inr c, s1)" for tid ver c s1
    using that by (rule prepare_ok) (use from_operation_resource assms(1) in auto)
  from assms(2) show ?thesis
    by (cases rule: execute_cases) (auto elim!: prepare_refused dest: never)
qed

theorem explicit_resource_never_executes_witness:
  "isl (fst (execute ex_executor (ex_exec_env []) (Some (bound_grant\<lparr>gr_binding := ex_binding\<lparr>b_parameters := []\<rparr>\<rparr>))
     (as_params []) None ex_exec_state))"
  using explicit_resource_never_executes [of "bound_grant\<lparr>gr_binding := ex_binding\<lparr>b_parameters := []\<rparr>\<rparr>" ex_executor
      "ex_exec_env []" "as_params []" None ex_exec_state, OF _ prod.collapse [symmetric]]
  by (simp add: ex_binding_def)

end
