(* ===== verification/Filesystem_Guard.thy ===== *)
theory Filesystem_Guard
  imports Capability
begin

unbundle bit_operations_syntax

section \<open>The file system guard of the sandbox\<close>

text \<open>
  \<^verbatim>\<open>app/runtime/sandbox/filesystem.py\<close>. A resolved path is the list of its parts, the anchor first.
  Resolving a path through the file system (\<^verbatim>\<open>Path(s).resolve().parts\<close>) is the parameter
  \<open>realpath\<close>, with \<open>None\<close> for any exception.
\<close>

type_synonym path = "string list"
type_synonym realpath = "string \<Rightarrow> path option"

record filesystem_guard =
  fg_root_text :: string
  fg_root :: path
  fg_allowed_subpaths :: "string list"
  fg_read_only :: bool
  fg_allow_temp_writes :: bool
  fg_scratch_dir :: "path option"
  fg_platform_root :: "path option"
  fg_runtime_dirs :: "path list"
  fg_active :: bool

definition resolve_optional :: "realpath \<Rightarrow> string option \<Rightarrow> path option res" where
  "resolve_optional realpath dir =
     (case dir of
        None \<Rightarrow> Inr None
      | Some [] \<Rightarrow> Inr None
      | Some d \<Rightarrow> (case realpath d of None \<Rightarrow> Inl (OtherError ''OSError'') | Some p \<Rightarrow> Inr (Some p)))"

definition path_text :: "path \<Rightarrow> string" where
  "path_text p = (case p of [] \<Rightarrow> [] | anchor # rest \<Rightarrow> anchor @ join ''/'' rest)"

definition new_filesystem_guard ::
  "realpath \<Rightarrow> string list \<Rightarrow> string \<Rightarrow> string list \<Rightarrow> bool \<Rightarrow> bool \<Rightarrow> string option \<Rightarrow> string option
     \<Rightarrow> filesystem_guard res" where
  "new_filesystem_guard realpath interpreter_dirs root subpaths read_only temp scratch platform =
     (case realpath root of
        None \<Rightarrow> Inl (OtherError ''OSError'')
      | Some r \<Rightarrow>
          res_bind (resolve_optional realpath scratch) (\<lambda>s.
          res_bind (resolve_optional realpath platform) (\<lambda>p.
          Inr \<lparr>fg_root_text = path_text r, fg_root = r, fg_allowed_subpaths = subpaths, fg_read_only = read_only,
               fg_allow_temp_writes = temp, fg_scratch_dir = s, fg_platform_root = p,
               fg_runtime_dirs = List.map_filter (\<lambda>d. if d = [] then None else realpath d) interpreter_dirs,
               fg_active = False\<rparr>)))"

definition fs_activate :: "filesystem_guard \<Rightarrow> filesystem_guard" where
  "fs_activate g = g\<lparr>fg_active := True\<rparr>"

definition fs_deactivate :: "filesystem_guard \<Rightarrow> filesystem_guard" where
  "fs_deactivate g = g\<lparr>fg_active := False\<rparr>"

definition is_relative_to :: "path \<Rightarrow> path \<Rightarrow> bool" where
  "is_relative_to p base \<longleftrightarrow> prefix base p"

definition in_dir :: "path \<Rightarrow> path option \<Rightarrow> bool" where
  "in_dir p dir \<longleftrightarrow> (case dir of None \<Rightarrow> False | Some d \<Rightarrow> is_relative_to p d)"

definition path_name :: "path \<Rightarrow> string" where
  "path_name p = (case p of [] \<Rightarrow> [] | [_] \<Rightarrow> [] | _ \<Rightarrow> last p)"

definition subpath_of :: "filesystem_guard \<Rightarrow> string \<Rightarrow> path" where
  "subpath_of g sub = (if is_absolute sub then ''/'' # path_parts sub else fg_root g @ path_parts sub)"

definition sensitive_name :: "path \<Rightarrow> bool" where
  "sensitive_name p \<longleftrightarrow>
     prefix ''.env'' (path_name p)
     \<or> (\<exists>i\<in>{''jwt'', ''secret'', ''password''}. contains i (casefold (path_name p)))"

text \<open>What the audited call names: nothing, a descriptor, a text, or bytes that do not decode.\<close>

datatype fs_target = TargetNone | TargetFd int | TargetText string | TargetBad

definition write_allowed :: "filesystem_guard \<Rightarrow> path \<Rightarrow> unit res" where
  "write_allowed g r =
     (if fg_read_only g then
        (if fg_allow_temp_writes g \<and> fg_scratch_dir g \<noteq> None
         then (if in_dir r (fg_scratch_dir g) then Inr () else Inl PermissionError)
         else Inl PermissionError)
      else if in_dir r (fg_scratch_dir g) then Inr ()
      else if \<not> is_relative_to r (fg_root g) then Inl PermissionError
      else if fg_allowed_subpaths g \<noteq> []
              \<and> \<not> (\<exists>sub\<in>set (fg_allowed_subpaths g). is_relative_to r (subpath_of g sub))
      then Inl PermissionError
      else Inr ())"

definition read_allowed :: "filesystem_guard \<Rightarrow> path \<Rightarrow> unit res" where
  "read_allowed g r =
     (if in_dir r (fg_scratch_dir g) then Inr ()
      else if is_relative_to r (fg_root g) then
        (if fg_allowed_subpaths g \<noteq> []
            \<and> \<not> (\<exists>sub\<in>set (fg_allowed_subpaths g).
                   is_relative_to r (subpath_of g sub) \<or> is_relative_to (subpath_of g sub) r)
            \<and> r \<noteq> fg_root g
         then Inl PermissionError else Inr ())
      else if \<exists>d\<in>set (fg_runtime_dirs g). is_relative_to r d then Inr ()
      else Inl PermissionError)"

definition access_decision :: "filesystem_guard \<Rightarrow> path \<Rightarrow> bool \<Rightarrow> unit res" where
  "access_decision g r is_write =
     (if sensitive_name r then Inl PermissionError
      else if in_dir r (fg_platform_root g) \<and> \<not> is_relative_to r (fg_root g) then Inl PermissionError
      else if is_write then write_allowed g r
      else read_allowed g r)"

definition check_access :: "realpath \<Rightarrow> filesystem_guard \<Rightarrow> fs_target \<Rightarrow> bool \<Rightarrow> unit res" where
  "check_access realpath g target is_write =
     (if \<not> fg_active g then Inr ()
      else case target of
             TargetNone \<Rightarrow> Inr ()
           | TargetFd _ \<Rightarrow> Inr ()
           | TargetBad \<Rightarrow> Inl PermissionError
           | TargetText s \<Rightarrow>
               if is_blank s then Inr ()
               else if s = ''/dev/null'' then Inr ()
               else case realpath (if is_absolute s then s else fg_root_text g @ ''/'' @ s) of
                      None \<Rightarrow> Inl PermissionError
                    | Some r \<Rightarrow> access_decision g r is_write)"

text \<open>The write flags of \<^verbatim>\<open>os.open\<close>: O_WRONLY, O_RDWR, O_CREAT, O_APPEND and O_TRUNC on Linux.\<close>

definition write_mask :: int where
  "write_mask = 1 OR 2 OR 64 OR 1024 OR 512"

definition opens_for_write :: "string option \<Rightarrow> int \<Rightarrow> bool" where
  "opens_for_write mode flags \<longleftrightarrow>
     (case mode of
        Some m \<Rightarrow> (\<exists>c\<in>{CHR ''w'', CHR ''a'', CHR ''x'', CHR ''+''}. c \<in> set m)
      | None \<Rightarrow> flags AND write_mask \<noteq> 0)"

definition fs_audit_hook ::
  "realpath \<Rightarrow> filesystem_guard \<Rightarrow> string \<Rightarrow> fs_target \<Rightarrow> fs_target \<Rightarrow> string option \<Rightarrow> int \<Rightarrow> unit res" where
  "fs_audit_hook realpath g event a0 a1 mode flags =
     (if \<not> fg_active g then Inr ()
      else if event = ''open'' then check_access realpath g a0 (opens_for_write mode flags)
      else if event \<in> {''os.listdir'', ''os.scandir''} then check_access realpath g a0 False
      else if event \<in> {''os.mkdir'', ''os.rmdir'', ''os.remove'', ''os.unlink'', ''os.chmod''}
      then check_access realpath g a0 True
      else if event \<in> {''os.rename'', ''os.replace''}
      then res_bind (check_access realpath g a0 True) (\<lambda>_. check_access realpath g a1 True)
      else if event \<in> {''os.symlink'', ''os.link''}
      then res_bind (check_access realpath g a1 True) (\<lambda>_. check_access realpath g a0 False)
      else Inr ())"

subsection \<open>What the guard lets through\<close>

definition names_file :: "fs_target \<Rightarrow> bool" where
  "names_file t \<longleftrightarrow>
     (case t of TargetText s \<Rightarrow> \<not> is_blank s \<and> s \<noteq> ''/dev/null'' | TargetBad \<Rightarrow> True | _ \<Rightarrow> False)"

text \<open>The abstract containment policy the capability describes, as a predicate on resolved paths.\<close>

definition writable_path :: "filesystem_guard \<Rightarrow> path \<Rightarrow> bool" where
  "writable_path g r \<longleftrightarrow>
     (in_dir r (fg_scratch_dir g) \<and> (fg_read_only g \<longrightarrow> fg_allow_temp_writes g))
     \<or> (\<not> fg_read_only g \<and> prefix (fg_root g) r
        \<and> (fg_allowed_subpaths g = [] \<or> (\<exists>sub\<in>set (fg_allowed_subpaths g). prefix (subpath_of g sub) r)))"

definition readable_path :: "filesystem_guard \<Rightarrow> path \<Rightarrow> bool" where
  "readable_path g r \<longleftrightarrow>
     in_dir r (fg_scratch_dir g)
     \<or> (prefix (fg_root g) r
        \<and> (fg_allowed_subpaths g = [] \<or> r = fg_root g
           \<or> (\<exists>sub\<in>set (fg_allowed_subpaths g). prefix (subpath_of g sub) r \<or> prefix r (subpath_of g sub))))
     \<or> (\<not> prefix (fg_root g) r \<and> (\<exists>d\<in>set (fg_runtime_dirs g). prefix d r))"

lemma write_allowed_iff: "write_allowed g r = Inr () \<longleftrightarrow> writable_path g r"
  by (auto simp: write_allowed_def writable_path_def is_relative_to_def in_dir_def split: option.splits)

lemma read_allowed_iff: "read_allowed g r = Inr () \<longleftrightarrow> readable_path g r"
  by (auto simp: read_allowed_def readable_path_def is_relative_to_def)

lemma res_unit: "(x :: unit res) \<noteq> Inr () \<longleftrightarrow> (\<exists>e. x = Inl e)"
  by (cases x) auto

lemma guard_errors: "check_access realpath g t w = Inl e \<Longrightarrow> e = PermissionError"
  by (auto simp: check_access_def access_decision_def write_allowed_def read_allowed_def
      split: fs_target.splits option.splits if_splits)

text \<open>
  (C31) The guard implements the containment policy of the capability. With the guard active, an access
  to a text that names a file is let through exactly when the text resolves, the file is not one of
  the sensitive names, it is not inside the platform but outside the workspace, and the policy
  makes the resolved path writable (for a write) or readable (for a read). Symbolic links and
  parent segments do not matter, because the judgement is on the resolved path. Every refusal is a
  \<open>PermissionError\<close>.
\<close>

theorem access_refines_policy:
  assumes "fg_active g" and "\<not> is_blank s" and "s \<noteq> ''/dev/null''"
  shows "(check_access realpath g (TargetText s) is_write = Inr () \<longleftrightarrow>
       (\<exists>r. realpath (if is_absolute s then s else fg_root_text g @ ''/'' @ s) = Some r
          \<and> \<not> sensitive_name r
          \<and> (in_dir r (fg_platform_root g) \<longrightarrow> prefix (fg_root g) r)
          \<and> (if is_write then writable_path g r else readable_path g r)))
     \<and> check_access realpath g (TargetText s) is_write \<in> {Inr (), Inl PermissionError}"
proof
  show "check_access realpath g (TargetText s) is_write \<in> {Inr (), Inl PermissionError}"
    by (cases "check_access realpath g (TargetText s) is_write") (auto dest: guard_errors)
  show "check_access realpath g (TargetText s) is_write = Inr () \<longleftrightarrow>
       (\<exists>r. realpath (if is_absolute s then s else fg_root_text g @ ''/'' @ s) = Some r
          \<and> \<not> sensitive_name r
          \<and> (in_dir r (fg_platform_root g) \<longrightarrow> prefix (fg_root g) r)
          \<and> (if is_write then writable_path g r else readable_path g r))"
  proof (cases "realpath (if is_absolute s then s else fg_root_text g @ ''/'' @ s)")
    case None
    with assms show ?thesis by (simp add: check_access_def)
  next
    case (Some r)
    with assms have "check_access realpath g (TargetText s) is_write = access_decision g r is_write"
      by (simp add: check_access_def)
    with Some show ?thesis
      by (auto simp: access_decision_def write_allowed_iff read_allowed_iff is_relative_to_def)
  qed
qed

definition ex_fsguard :: filesystem_guard where
  "ex_fsguard = \<lparr>fg_root_text = ''/w'', fg_root = [''/'', ''w''], fg_allowed_subpaths = [''docs''], fg_read_only = True,
     fg_allow_temp_writes = False, fg_scratch_dir = None, fg_platform_root = None, fg_runtime_dirs = [], fg_active = True\<rparr>"

definition ex_realpath :: realpath where
  "ex_realpath s = Some (''/'' # path_parts s)"

theorem access_refines_policy_witness:
  "check_access ex_realpath ex_fsguard (TargetText ''docs/a'') False = Inr ()"
proof -
  have "readable_path ex_fsguard [''/'', ''w'', ''docs'', ''a'']"
    by (simp add: readable_path_def ex_fsguard_def subpath_of_def is_absolute_def path_parts_def)
  moreover have "ex_realpath (fg_root_text ex_fsguard @ ''/'' @ ''docs/a'') = Some [''/'', ''w'', ''docs'', ''a'']"
    by (simp add: ex_realpath_def ex_fsguard_def path_parts_def)
  moreover have "\<not> sensitive_name [''/'', ''w'', ''docs'', ''a'']"
    by (simp add: sensitive_name_def path_name_def casefold_def lower_char_def)
  moreover have "\<not> is_blank ''docs/a''" "\<not> is_absolute ''docs/a''" "fg_active ex_fsguard"
    "in_dir r (fg_platform_root ex_fsguard) = False" for r
    by (simp_all add: is_blank_def strip_def is_space_def is_absolute_def ex_fsguard_def in_dir_def)
  ultimately show ?thesis
    using access_refines_policy [of ex_fsguard "''docs/a''" ex_realpath False, THEN conjunct1] by auto
qed

subsection \<open>Read-only sandboxes\<close>

lemma read_only_write_refused:
  assumes "fg_active g" "fg_read_only g" "\<not> (fg_allow_temp_writes g \<and> fg_scratch_dir g \<noteq> None)" "names_file t"
  shows "check_access realpath g t True = Inl PermissionError"
  using assms by (auto simp: check_access_def access_decision_def write_allowed_def names_file_def
      split: fs_target.splits option.splits)

definition mutating_events :: "string set" where
  "mutating_events = {''os.mkdir'', ''os.rmdir'', ''os.remove'', ''os.unlink'', ''os.chmod'', ''os.rename'', ''os.replace''}"

text \<open>
  A read-only sandbox without scratch space performs no audited mutation: creating, removing,
  renaming, changing the mode of, linking to and opening for writing any named file is refused,
  wherever the file is and whatever it resolves to.
\<close>

theorem read_only_blocks_mutation:
  assumes "fg_active g" "fg_read_only g" "\<not> (fg_allow_temp_writes g \<and> fg_scratch_dir g \<noteq> None)"
  shows "(names_file a0 \<and> (event \<in> mutating_events \<or> event = ''open'' \<and> opens_for_write mode flags) \<longrightarrow>
           fs_audit_hook realpath g event a0 a1 mode flags = Inl PermissionError)
     \<and> (names_file a1 \<and> event \<in> {''os.symlink'', ''os.link''} \<longrightarrow>
           fs_audit_hook realpath g event a0 a1 mode flags = Inl PermissionError)"
  using assms read_only_write_refused [OF assms]
  by (auto simp: fs_audit_hook_def mutating_events_def)

theorem read_only_blocks_mutation_witness:
  "fs_audit_hook ex_realpath ex_fsguard ''os.remove'' (TargetText ''docs/a'') TargetNone None 0 = Inl PermissionError"
  using read_only_blocks_mutation [of ex_fsguard "TargetText ''docs/a''" "''os.remove''"]
  by (simp add: ex_fsguard_def names_file_def is_blank_def strip_def is_space_def mutating_events_def)

text \<open>
  Mutations whose audit events the hook does not list pass unchecked; \<^verbatim>\<open>os.truncate\<close> empties a file of
  a read-only sandbox.
\<close>

lemma truncate_not_checked: "fs_audit_hook realpath g ''os.truncate'' a0 a1 mode flags = Inr ()"
  by (simp add: fs_audit_hook_def)

end
