(* ===== verification/Filesystem_Identity.thy ===== *)
theory Filesystem_Identity
  imports Filesystem_Guard
begin

section \<open>Identity of workspace files\<close>

text \<open>
  \<^verbatim>\<open>app/runtime/filesystem_resource_identity.py\<close>: the canonical, workspace relative identity of the
  file a request names. The operating system's answers are the parameter \<open>fy\<close>: existence and
  symbolic links, strict resolution, \<^verbatim>\<open>os.path.samefile\<close> and directory listings, with \<open>None\<close> for an
  error. Every failure of the resolver is a \<^verbatim>\<open>FilesystemResourceIdentityError\<close>, except the
  \<^verbatim>\<open>FileNotFoundError\<close> of \<open>resolve_for_execution\<close>.
\<close>

record fsys =
  fy_exists :: "path \<Rightarrow> bool"
  fy_is_symlink :: "path \<Rightarrow> bool"
  fy_resolve :: "path \<Rightarrow> path option"
  fy_samefile :: "path \<Rightarrow> path \<Rightarrow> bool option"
  fy_scandir :: "path \<Rightarrow> string list option"
  fy_is_dir :: "path \<Rightarrow> bool"

abbreviation identity_error :: "'a res" where
  "identity_error \<equiv> Inl FilesystemResourceIdentityError"

definition posix_anchor :: "string \<Rightarrow> path" where
  "posix_anchor s =
     (if \<not> is_absolute s then [] else if prefix ''//'' s \<and> \<not> prefix ''///'' s then [''//''] else [''/''])"

definition posix_parts :: "string \<Rightarrow> path" where
  "posix_parts s = posix_anchor s @ path_parts s"

definition new_resolver :: "fsys \<Rightarrow> string \<Rightarrow> path res" where
  "new_resolver fy workspace =
     (case fy_resolve fy (posix_parts workspace) of
        None \<Rightarrow> identity_error
      | Some root \<Rightarrow> if \<not> fy_is_dir fy root then identity_error else Inr root)"

definition windows_absolute :: "string \<Rightarrow> bool" where
  "windows_absolute s \<longleftrightarrow>
     (case s of _ # c # d # _ \<Rightarrow> c = CHR '':'' \<and> d = CHR ''/'' | _ \<Rightarrow> False)
     \<or> (prefix ''//'' s \<and> (case split_on CHR ''/'' (drop 2 s) of a # b # _ \<Rightarrow> a \<noteq> [] \<and> b \<noteq> [] | _ \<Rightarrow> False))"

fun parent_depth_ok :: "nat \<Rightarrow> string list \<Rightarrow> bool" where
  "parent_depth_ok depth [] = True"
| "parent_depth_ok depth (c # cs) =
     (if c = [] \<or> c = ''.'' then parent_depth_ok depth cs
      else if c = ''..'' then depth \<noteq> 0 \<and> parent_depth_ok (depth - 1) cs
      else parent_depth_ok (depth + 1) cs)"

definition validate_relative_parent_segments :: "string \<Rightarrow> unit res" where
  "validate_relative_parent_segments s =
     (if parent_depth_ok 0 (split_on CHR ''/'' s) then Inr () else identity_error)"

definition validate_absolute_parent_segments :: "path \<Rightarrow> string \<Rightarrow> unit res" where
  "validate_absolute_parent_segments root s =
     (let components = posix_parts s;
          comparable = min (length components) (length root);
          same_prefix = (map casefold (take comparable components) = map casefold (take comparable root)
                         \<and> length root \<le> length components)
      in if same_prefix then validate_relative_parent_segments (join ''/'' (drop (length root) components))
         else if ''..'' \<in> set components then identity_error
         else Inr ())"

definition require_inside :: "path \<Rightarrow> path \<Rightarrow> path res" where
  "require_inside root p = (if prefix root p then Inr p else identity_error)"

text \<open>
  \<^verbatim>\<open>_filesystem_spelling\<close>: climb to the workspace root (the result lists the paths below it, top
  down), then descend taking the spelling of the directory entries.
\<close>

fun climb :: "fsys \<Rightarrow> path \<Rightarrow> path \<Rightarrow> path list res" where
  "climb fy root p =
     (case fy_samefile fy p root of
        None \<Rightarrow> identity_error
      | Some True \<Rightarrow> Inr []
      | Some False \<Rightarrow>
          if length p \<le> 1 then identity_error
          else res_bind (climb fy root (butlast p)) (\<lambda>above. Inr (above @ [p])))"

declare climb.simps [simp del]

definition entry_spelling :: "fsys \<Rightarrow> path \<Rightarrow> path \<Rightarrow> string list \<Rightarrow> string res" where
  "entry_spelling fy current requested entries =
     (let component = path_name requested
      in if component \<in> set entries then Inr component
         else case filter (\<lambda>e. fy_samefile fy requested (current @ [e]) = Some True) entries of
                [e] \<Rightarrow> Inr e
              | _ \<Rightarrow> identity_error)"

fun descend :: "fsys \<Rightarrow> path \<Rightarrow> path list \<Rightarrow> path res" where
  "descend fy current [] = Inr current"
| "descend fy current (requested # rest) =
     (case fy_scandir fy current of
        None \<Rightarrow> identity_error
      | Some entries \<Rightarrow>
          res_bind (entry_spelling fy current requested entries) (\<lambda>e. descend fy (current @ [e]) rest))"

definition filesystem_spelling :: "fsys \<Rightarrow> path \<Rightarrow> path \<Rightarrow> path res" where
  "filesystem_spelling fy root p = res_bind (climb fy root p) (descend fy root)"

definition resolve_existing :: "fsys \<Rightarrow> path \<Rightarrow> path \<Rightarrow> path res" where
  "resolve_existing fy root p =
     (case fy_resolve fy p of None \<Rightarrow> Inl (OtherError ''FileNotFoundError'') | Some r \<Rightarrow> filesystem_spelling fy root r)"

definition present :: "fsys \<Rightarrow> path \<Rightarrow> bool" where
  "present fy p \<longleftrightarrow> fy_exists fy p \<or> fy_is_symlink fy p"

text \<open>The nearest present ancestor and the missing components below it.\<close>

fun missing_suffix :: "fsys \<Rightarrow> path \<Rightarrow> (path \<times> string list) option" where
  "missing_suffix fy p =
     (if present fy p then Some (p, [])
      else if length p \<le> 1 then None
      else case missing_suffix fy (butlast p) of
             None \<Rightarrow> None
           | Some (ancestor, below_it) \<Rightarrow> Some (ancestor, below_it @ [last p]))"

declare missing_suffix.simps [simp del]

fun walk_missing :: "fsys \<Rightarrow> path \<Rightarrow> path \<Rightarrow> string list \<Rightarrow> path res" where
  "walk_missing fy root current [] = Inr current"
| "walk_missing fy root current (c # cs) =
     (if c = [] \<or> c = ''.'' then walk_missing fy root current cs
      else if c = ''..'' then res_bind (require_inside root (butlast current)) (\<lambda>p. walk_missing fy root p cs)
      else if present fy (current @ [c])
      then res_bind (resolve_existing fy root (current @ [c])) (\<lambda>r.
           res_bind (require_inside root r) (\<lambda>p. walk_missing fy root p cs))
      else res_bind (require_inside root (current @ [c])) (\<lambda>p. walk_missing fy root p cs))"

definition resolve_existing_or_missing :: "fsys \<Rightarrow> path \<Rightarrow> path \<Rightarrow> path res" where
  "resolve_existing_or_missing fy root candidate =
     (if present fy candidate then resolve_existing fy root candidate
      else case missing_suffix fy candidate of
             None \<Rightarrow> identity_error
           | Some (ancestor, below_it) \<Rightarrow>
               res_bind (resolve_existing fy root ancestor) (\<lambda>r.
               res_bind (require_inside root r) (\<lambda>current. walk_missing fy root current below_it)))"

definition relative_identity :: "path \<Rightarrow> path \<Rightarrow> string res" where
  "relative_identity root p =
     (if \<not> prefix root p then identity_error
      else Inr (if drop (length root) p = [] then ''.'' else join ''/'' (drop (length root) p)))"

definition canonicalize :: "fsys \<Rightarrow> path \<Rightarrow> string \<Rightarrow> string res" where
  "canonicalize fy root s =
     (if s = [] \<or> null_byte \<in> set s \<or> CHR 0x5C \<in> set s \<or> windows_absolute s then identity_error
      else res_bind (if is_absolute s then res_bind (validate_absolute_parent_segments root s) (\<lambda>_. Inr (posix_parts s))
                     else res_bind (validate_relative_parent_segments s) (\<lambda>_. Inr (root @ path_parts s))) (\<lambda>candidate.
        case res_bind (resolve_existing_or_missing fy root candidate) (relative_identity root) of
          Inl _ \<Rightarrow> identity_error
        | Inr i \<Rightarrow> Inr i))"

definition resolve_for_execution :: "fsys \<Rightarrow> path \<Rightarrow> string \<Rightarrow> path res" where
  "resolve_for_execution fy root i =
     res_bind (canonicalize fy root i) (\<lambda>current.
     if current \<noteq> i then identity_error
     else resolve_existing fy root (root @ path_parts i))"

subsection \<open>Containment\<close>

definition component_ok :: "string \<Rightarrow> bool" where
  "component_ok c \<longleftrightarrow> c \<noteq> [] \<and> c \<noteq> ''.'' \<and> c \<noteq> ''..'' \<and> CHR ''/'' \<notin> set c"

text \<open>Directory listings name proper entries: never the directory itself, its parent or a path.\<close>

definition listings_ok :: "fsys \<Rightarrow> bool" where
  "listings_ok fy \<longleftrightarrow> (\<forall>p entries. fy_scandir fy p = Some entries \<longrightarrow> list_all component_ok entries)"

definition below :: "path \<Rightarrow> path \<Rightarrow> bool" where
  "below root p \<longleftrightarrow> (\<exists>rel. p = root @ rel \<and> list_all component_ok rel)"

lemma entry_spelling_mem: "entry_spelling fy cur rq es = Inr e \<Longrightarrow> e \<in> set es"
  by (auto simp: entry_spelling_def Let_def split: if_splits list.splits dest: filter_eq_ConsD)

lemma below_snoc: "below root p \<Longrightarrow> component_ok c \<Longrightarrow> below root (p @ [c])"
  unfolding below_def by force

lemma descend_below:
  "listings_ok fy \<Longrightarrow> below root cur \<Longrightarrow> descend fy cur reqs = Inr p \<Longrightarrow> below root p"
proof (induction reqs arbitrary: cur)
  case (Cons rq reqs)
  then obtain es e where "fy_scandir fy cur = Some es" "entry_spelling fy cur rq es = Inr e"
    and d: "descend fy (cur @ [e]) reqs = Inr p"
    by (auto simp: res_bind_Inr split: option.splits)
  with Cons.prems(1) have "component_ok e"
    by (auto simp: listings_ok_def list_all_iff dest: entry_spelling_mem)
  with Cons d show ?case by (auto intro: below_snoc)
qed simp

lemma resolve_existing_below: "listings_ok fy \<Longrightarrow> resolve_existing fy root p = Inr r \<Longrightarrow> below root r"
proof -
  have "below root root" by (simp add: below_def)
  then show "listings_ok fy \<Longrightarrow> resolve_existing fy root p = Inr r \<Longrightarrow> below root r"
    by (auto simp: resolve_existing_def filesystem_spelling_def res_bind_Inr descend_below split: option.splits)
qed

lemma below_parent: "below root p \<Longrightarrow> prefix root (butlast p) \<Longrightarrow> below root (butlast p)"
proof -
  assume "below root p" and pre: "prefix root (butlast p)"
  then obtain rel where p: "p = root @ rel" "list_all component_ok rel" by (auto simp: below_def)
  show ?thesis
  proof (cases "rel = []")
    case True
    with p pre have "prefix root (butlast root)" by simp
    then have "root = []" by (metis length_butlast diff_less length_greater_0_conv less_one linorder_not_less prefix_length_le)
    with p True show ?thesis by (simp add: below_def)
  next
    case False
    with p show ?thesis by (auto simp: below_def butlast_append list_all_iff dest: in_set_butlastD)
  qed
qed

lemma walk_below:
  "listings_ok fy \<Longrightarrow> below root cur \<Longrightarrow> \<forall>c\<in>set cs. CHR ''/'' \<notin> set c \<Longrightarrow> walk_missing fy root cur cs = Inr p \<Longrightarrow> below root p"
proof (induction cs arbitrary: cur)
  case (Cons c cs)
  show ?case
  proof (cases "c = [] \<or> c = ''.'' \<or> c = ''..''")
    case True
    with Cons show ?thesis
      by (auto simp: res_bind_Inr require_inside_def split: if_splits intro: Cons.IH below_parent)
  next
    case False
    with Cons.prems(3) have "component_ok c" by (auto simp: component_ok_def)
    from False Cons.prems(4) obtain q where q: "walk_missing fy root q cs = Inr p"
      and "q = cur @ [c] \<or> resolve_existing fy root (cur @ [c]) = Inr q"
      by (auto simp: res_bind_Inr require_inside_def simp del: prefix_snoc split: if_splits)
    with Cons.prems(1,2) \<open>component_ok c\<close> have "below root q"
      by (auto intro: below_snoc resolve_existing_below)
    then show ?thesis using Cons.IH Cons.prems(1,3) q by simp
  qed
qed simp

lemma path_parts_no_slash: "c \<in> set (path_parts s) \<Longrightarrow> CHR ''/'' \<notin> set c"
  by (auto simp: path_parts_def dest: split_on_no_sep)

lemma path_parts_join: "list_all component_ok rel \<Longrightarrow> rel \<noteq> [] \<Longrightarrow> path_parts (join ''/'' rel) = rel"
  by (auto simp: path_parts_def split_on_join component_ok_def list_all_iff intro!: filter_True)

lemma missing_suffix_mem: "missing_suffix fy p = Some (a, cs) \<Longrightarrow> set cs \<subseteq> set (tl p)"
proof (induction p arbitrary: a cs rule: missing_suffix.induct)
  case (1 fy p)
  note run = "1.prems" [unfolded missing_suffix.simps [of fy p]]
  show ?case
  proof (cases "present fy p \<or> length p \<le> 1")
    case True
    with run show ?thesis by (auto split: if_splits)
  next
    case False
    with run obtain b ds where m: "missing_suffix fy (butlast p) = Some (b, ds)" and cs: "cs = ds @ [last p]"
      by (auto split: option.splits)
    from False obtain x y ys where p: "p = x # y # ys" by (cases p; cases "tl p") auto
    have "set ds \<subseteq> set (tl (butlast p))" using "1.IH" [OF _ _ m] False by simp
    then show ?thesis by (auto simp: cs p dest: in_set_butlastD split: if_splits)
  qed
qed

definition workspace_ok :: "path \<Rightarrow> bool" where
  "workspace_ok root \<longleftrightarrow> root \<noteq> [] \<and> list_all component_ok (tl root)"

lemma resolved_below:
  assumes ok: "listings_ok fy" and comps: "\<forall>c\<in>set (tl candidate). CHR ''/'' \<notin> set c"
    and run: "resolve_existing_or_missing fy root candidate = Inr p"
  shows "below root p"
proof (cases "present fy candidate")
  case True
  with run ok show ?thesis by (auto simp: resolve_existing_or_missing_def resolve_existing_below)
next
  case False
  with run obtain a cs r where m: "missing_suffix fy candidate = Some (a, cs)"
    and r: "resolve_existing fy root a = Inr r" and w: "walk_missing fy root r cs = Inr p"
    by (auto simp: resolve_existing_or_missing_def res_bind_Inr require_inside_def split: option.splits if_splits)
  show ?thesis
    using walk_below [OF ok resolve_existing_below [OF ok r] _ w] missing_suffix_mem [OF m] comps by blast
qed

lemma candidate_components:
  assumes "workspace_ok root" and "c \<in> set (tl (posix_parts s)) \<or> c \<in> set (tl (root @ path_parts s))"
  shows "CHR ''/'' \<notin> set c"
proof -
  have "set (tl (posix_parts s)) \<subseteq> set (path_parts s)"
    by (cases "path_parts s") (auto simp: posix_parts_def posix_anchor_def)
  moreover have "set (tl (root @ path_parts s)) \<subseteq> set (tl root) \<union> set (path_parts s)"
    using assms(1) by (cases root) (auto simp: workspace_ok_def)
  ultimately show ?thesis
    using assms path_parts_no_slash [of c s] by (auto simp: workspace_ok_def list_all_iff component_ok_def)
qed

lemma canonicalize_below:
  assumes "listings_ok fy" and "workspace_ok root" and "canonicalize fy root s = Inr i"
  obtains rel where "list_all component_ok rel" "i = (if rel = [] then ''.'' else join ''/'' rel)"
proof -
  obtain candidate p where "candidate = posix_parts s \<or> candidate = root @ path_parts s"
    and run: "resolve_existing_or_missing fy root candidate = Inr p" and rel: "relative_identity root p = Inr i"
    using assms(3) by (auto simp: canonicalize_def res_bind_Inr split: if_splits sum.splits)
  then have "\<forall>c\<in>set (tl candidate). CHR ''/'' \<notin> set c"
    using candidate_components [OF assms(2)] by blast
  with run assms(1) have "below root p" by (intro resolved_below)
  then show ?thesis
    using rel that by (auto simp: relative_identity_def below_def)
qed

text \<open>
  (C32) The identity of a file never leaves the workspace. When a request is canonicalised, the result is
  a relative POSIX path whose components are proper names, without parent segments, empty or dot
  segments (or the workspace itself, written as a dot), however the request was written: absolute or
  relative, through symbolic links, in another case or naming a file that does not exist. When the
  identity is resolved again just before execution, it is resolved only if it still canonicalises to
  itself, and to a path below the workspace root.
\<close>

theorem identity_stays_in_workspace:
  assumes "listings_ok fy" and "workspace_ok root" and "canonicalize fy root s = Inr i"
  shows "\<not> is_absolute i \<and> list_all component_ok (path_parts i)
     \<and> i = (if path_parts i = [] then ''.'' else join ''/'' (path_parts i))
     \<and> (\<forall>p. resolve_for_execution fy root i = Inr p \<longrightarrow> canonicalize fy root i = Inr i \<and> below root p)"
proof -
  obtain rel where rel: "list_all component_ok rel" and i: "i = (if rel = [] then ''.'' else join ''/'' rel)"
    using assms by (rule canonicalize_below)
  have parts: "path_parts i = rel"
    using rel by (cases "rel = []") (simp_all add: i path_parts_join, simp add: path_parts_def)
  have "\<not> is_absolute i"
  proof (cases rel)
    case (Cons c cs)
    with rel have "c \<noteq> []" "CHR ''/'' \<notin> set c" by (auto simp: component_ok_def)
    then obtain x xs where "c = x # xs" "x \<noteq> CHR ''/''" by (cases c) auto
    with Cons show ?thesis by (cases cs) (auto simp: i is_absolute_def)
  qed (simp add: i is_absolute_def)
  moreover have "canonicalize fy root i = Inr i \<and> below root p" if "resolve_for_execution fy root i = Inr p" for p
    using that assms(1) by (auto simp: resolve_for_execution_def res_bind_Inr resolve_existing_below split: if_splits)
  moreover have "i = (if path_parts i = [] then ''.'' else join ''/'' (path_parts i))"
    unfolding parts by (rule i)
  ultimately show ?thesis using rel unfolding parts by blast
qed

definition ex_fsys :: fsys where
  "ex_fsys = \<lparr>fy_exists = (\<lambda>p. p \<in> {[''/''], [''/'', ''w''], [''/'', ''w'', ''a'']}), fy_is_symlink = (\<lambda>p. False),
     fy_resolve = (\<lambda>p. Some p), fy_samefile = (\<lambda>p q. Some (p = q)),
     fy_scandir = (\<lambda>p. if p = [''/'', ''w''] then Some [''a''] else Some []), fy_is_dir = (\<lambda>p. True)\<rparr>"

lemma ex_listings: "listings_ok ex_fsys" "workspace_ok [''/'', ''w'']"
  by (auto simp: listings_ok_def ex_fsys_def component_ok_def workspace_ok_def)

lemma ex_canonical: "canonicalize ex_fsys [''/'', ''w''] ''./a'' = Inr ''a''"
  by (simp add: canonicalize_def ex_fsys_def null_byte_def windows_absolute_def is_absolute_def
      validate_relative_parent_segments_def resolve_existing_or_missing_def present_def path_parts_def
      resolve_existing_def filesystem_spelling_def climb.simps entry_spelling_def path_name_def relative_identity_def)

theorem identity_stays_in_workspace_witness: "\<not> is_absolute ''a'' \<and> list_all component_ok (path_parts ''a'')"
  using identity_stays_in_workspace [OF ex_listings ex_canonical] by blast

end
