(* ===== verification/Network_Guard.thy ===== *)
theory Network_Guard
  imports Capability
begin

section \<open>The network guard of the sandbox\<close>

text \<open>
  \<^verbatim>\<open>app/runtime/sandbox/network.py\<close>. Addresses are machine words as in the \<^verbatim>\<open>ipaddress\<close> module: 32
  bits for IPv4, 128 bits and an optional scope for IPv6; the parser, the printer and the range
  predicates of that module are modelled as far as the guard uses them. Name resolution is the
  parameter \<open>dns\<close>.
\<close>

subsection \<open>Addresses\<close>

datatype ip = V4 "32 word" | V6 "128 word" "string option"

definition parse_octet :: "string \<Rightarrow> nat option" where
  "parse_octet s =
     (if s = [] \<or> \<not> list_all is_digit s \<or> 3 < length s \<or> (s \<noteq> ''0'' \<and> hd s = CHR ''0'') then None
      else if undecimal s > 255 then None else Some (undecimal s))"

definition ipv4_value :: "nat \<Rightarrow> nat \<Rightarrow> nat \<Rightarrow> nat \<Rightarrow> nat" where
  "ipv4_value a b c d = ((a * 256 + b) * 256 + c) * 256 + d"

definition parse_ipv4 :: "string \<Rightarrow> nat option" where
  "parse_ipv4 s =
     (case map parse_octet (split_on CHR ''.'' s) of
        [Some a, Some b, Some c, Some d] \<Rightarrow> Some (ipv4_value a b c d)
      | _ \<Rightarrow> None)"

definition hex_digit_value :: "char \<Rightarrow> nat option" where
  "hex_digit_value c =
     (let n = of_char (lower_char c) in
      if is_digit c then Some (of_char c - 48) else if 97 \<le> n \<and> n \<le> (102 :: nat) then Some (n - 87) else None)"

definition hex_value :: "string \<Rightarrow> nat" where
  "hex_value s = foldl (\<lambda>n c. 16 * n + (case hex_digit_value c of Some d \<Rightarrow> d | None \<Rightarrow> 0)) 0 s"

text \<open>A field of an IPv6 address: empty, or a number; \<open>None\<close> when it is neither.\<close>

definition parse_hextet :: "string \<Rightarrow> nat option option" where
  "parse_hextet s =
     (if s = [] then Some None
      else if list_all (\<lambda>c. hex_digit_value c \<noteq> None) s \<and> length s \<le> 4 then Some (Some (hex_value s))
      else None)"

definition ipv6_fields :: "string list \<Rightarrow> nat option list option" where
  "ipv6_fields parts =
     (if length parts < 3 then None
      else if CHR ''.'' \<in> set (last parts)
      then (case (parse_ipv4 (last parts), those (map parse_hextet (butlast parts))) of
              (Some v, Some fs) \<Rightarrow> Some (fs @ [Some (v div 65536), Some (v mod 65536)])
            | _ \<Rightarrow> None)
      else those (map parse_hextet parts))"

definition expand_fields :: "nat option list \<Rightarrow> nat list option" where
  "expand_fields fs =
     (let n = length fs
      in if 9 < n then None
         else case filter (\<lambda>i. fs ! i = None) [1..<n - 1] of
                [] \<Rightarrow> if n = 8 then those fs else None
              | [i] \<Rightarrow>
                  let hi = (if fs ! 0 = None then i - 1 else i);
                      lo = (if fs ! (n - 1) = None then n - i - 2 else n - i - 1)
                  in if (fs ! 0 = None \<and> hi \<noteq> 0) \<or> (fs ! (n - 1) = None \<and> lo \<noteq> 0) \<or> 7 < hi + lo then None
                     else those (take hi fs @ replicate (8 - (hi + lo)) (Some 0) @ drop (n - lo) fs)
              | _ \<Rightarrow> None)"

definition fields_value :: "nat list \<Rightarrow> nat" where
  "fields_value fs = foldl (\<lambda>n f. 65536 * n + f) 0 fs"

definition parse_ipv6 :: "string \<Rightarrow> ip option" where
  "parse_ipv6 s =
     (if CHR ''/'' \<in> set s then None
      else let addr = takeWhile (\<lambda>c. c \<noteq> CHR ''%'') s; rest = dropWhile (\<lambda>c. c \<noteq> CHR ''%'') s;
               scope = tl rest
           in if rest \<noteq> [] \<and> (scope = [] \<or> CHR ''%'' \<in> set scope) then None
              else if addr = [] then None
              else (case ipv6_fields (split_on CHR '':'' addr) of
                      None \<Rightarrow> None
                    | Some fs \<Rightarrow>
                        (case expand_fields fs of
                           None \<Rightarrow> None
                         | Some hs \<Rightarrow> Some (V6 (word_of_nat (fields_value hs)) (if rest = [] then None else Some scope)))))"

definition ip_address :: "string \<Rightarrow> ip option" where
  "ip_address s = (case parse_ipv4 s of Some v \<Rightarrow> Some (V4 (word_of_nat v)) | None \<Rightarrow> parse_ipv6 s)"

definition ipv4_mapped :: "128 word \<Rightarrow> 32 word option" where
  "ipv4_mapped w = (if drop_bit 32 w = 0xFFFF then Some (ucast w) else None)"

subsection \<open>Printing\<close>

definition dotted :: "32 word \<Rightarrow> string" where
  "dotted w =
     join ''.'' (map decimal [unat w div 2 ^ 24, unat w div 2 ^ 16 mod 256, unat w div 2 ^ 8 mod 256, unat w mod 256])"

definition hex_char :: "nat \<Rightarrow> char" where
  "hex_char n = (if n < 10 then digit n else char_of (87 + n))"

fun hex_text :: "nat \<Rightarrow> string" where
  "hex_text n = (if n < 16 then [hex_char n] else hex_text (n div 16) @ [hex_char (n mod 16)])"

declare hex_text.simps [simp del]

record zero_run =
  zr_best_start :: nat
  zr_best_len :: nat
  zr_start :: nat
  zr_len :: nat

definition scan_zero :: "string list \<Rightarrow> nat \<Rightarrow> zero_run \<Rightarrow> zero_run" where
  "scan_zero hs i z =
     (if hs ! i = ''0''
      then let start = (if zr_len z = 0 then i else zr_start z); len = zr_len z + 1
           in if zr_best_len z < len
              then \<lparr>zr_best_start = start, zr_best_len = len, zr_start = start, zr_len = len\<rparr>
              else z\<lparr>zr_start := start, zr_len := len\<rparr>
      else z\<lparr>zr_len := 0\<rparr>)"

definition compress_hextets :: "string list \<Rightarrow> string list" where
  "compress_hextets hs =
     (let z = fold (scan_zero hs) [0..<length hs] \<lparr>zr_best_start = 0, zr_best_len = 0, zr_start = 0, zr_len = 0\<rparr>;
          s = zr_best_start z; e = s + zr_best_len z
      in if 1 < zr_best_len z
         then (if s = 0 then [[]] else []) @ take s hs @ [[]] @ drop e hs @ (if e = length hs then [[]] else [])
         else hs)"

definition ip_text :: "ip \<Rightarrow> string" where
  "ip_text i =
     (case i of
        V4 w \<Rightarrow> dotted w
      | V6 w scope \<Rightarrow>
          join '':'' (compress_hextets (map (\<lambda>k. hex_text (unat w div 2 ^ (112 - 16 * k) mod 65536)) [0..<8]))
          @ (case scope of None \<Rightarrow> [] | Some s \<Rightarrow> ''%'' @ s))"

subsection \<open>Restricted ranges\<close>

definition in_net4 :: "32 word \<Rightarrow> 32 word \<Rightarrow> nat \<Rightarrow> bool" where
  "in_net4 w net len \<longleftrightarrow> drop_bit (32 - len) w = drop_bit (32 - len) net"

definition in_net6 :: "128 word \<Rightarrow> 128 word \<Rightarrow> nat \<Rightarrow> bool" where
  "in_net6 w net len \<longleftrightarrow> drop_bit (128 - len) w = drop_bit (128 - len) net"

definition ipv6_reserved :: "(128 word \<times> nat) list" where
  "ipv6_reserved =
     [(0, 8), (push_bit 112 0x0100, 8), (push_bit 112 0x0200, 7), (push_bit 112 0x0400, 6), (push_bit 112 0x0800, 5),
      (push_bit 112 0x1000, 4), (push_bit 112 0x4000, 3), (push_bit 112 0x6000, 3), (push_bit 112 0x8000, 3),
      (push_bit 112 0xA000, 3), (push_bit 112 0xC000, 3), (push_bit 112 0xE000, 4), (push_bit 112 0xF000, 5),
      (push_bit 112 0xF800, 6), (push_bit 112 0xFE00, 9)]"

fun ip_is_loopback :: "ip \<Rightarrow> bool" where
  "ip_is_loopback (V4 w) = in_net4 w 0x7F000000 8"
| "ip_is_loopback (V6 w _) = (w = 1)"

fun ip_is_link_local :: "ip \<Rightarrow> bool" where
  "ip_is_link_local (V4 w) = in_net4 w 0xA9FE0000 16"
| "ip_is_link_local (V6 w _) = in_net6 w (push_bit 112 0xFE80) 10"

fun ip_is_unspecified :: "ip \<Rightarrow> bool" where
  "ip_is_unspecified (V4 w) = (w = 0)"
| "ip_is_unspecified (V6 w _) = (w = 0)"

fun ip_is_multicast :: "ip \<Rightarrow> bool" where
  "ip_is_multicast (V4 w) = in_net4 w 0xE0000000 4"
| "ip_is_multicast (V6 w _) = in_net6 w (push_bit 112 0xFF00) 8"

fun ip_is_reserved :: "ip \<Rightarrow> bool" where
  "ip_is_reserved (V4 w) = in_net4 w 0xF0000000 4"
| "ip_is_reserved (V6 w _) = (\<exists>(net, len)\<in>set ipv6_reserved. in_net6 w net len)"

definition is_restricted_or_internal_ip :: "ip \<Rightarrow> bool" where
  "is_restricted_or_internal_ip i \<longleftrightarrow>
     ip_is_loopback i \<or> ip_is_link_local i \<or> ip_is_unspecified i \<or> ip_is_multicast i \<or> ip_is_reserved i
     \<or> ip_text i = ''169.254.169.254''"

text \<open>\<^verbatim>\<open>int(s, 16)\<close> on a text that starts with \<^verbatim>\<open>0x\<close>: an underscore may follow the prefix or a digit.\<close>

fun read_hex :: "nat \<Rightarrow> bool \<Rightarrow> bool \<Rightarrow> string \<Rightarrow> nat option" where
  "read_hex acc may_end may_underscore [] = (if may_end then Some acc else None)"
| "read_hex acc may_end may_underscore (c # cs) =
     (case hex_digit_value c of
        Some d \<Rightarrow> read_hex (16 * acc + d) True True cs
      | None \<Rightarrow> if c = CHR ''_'' \<and> may_underscore then read_hex acc False False cs else None)"

definition unwrap_mapped :: "ip \<Rightarrow> ip" where
  "unwrap_mapped i =
     (case i of
        V4 w \<Rightarrow> V4 w
      | V6 w scope \<Rightarrow> (case ipv4_mapped w of Some v \<Rightarrow> V4 v | None \<Rightarrow> V6 w scope))"

definition parse_and_normalize_ip :: "string \<Rightarrow> ip option" where
  "parse_and_normalize_ip s =
     (let cleaned = strip_chars {CHR ''['', CHR '']''} (strip s);
          numeric = (if cleaned \<noteq> [] \<and> list_all is_digit cleaned then Some (undecimal cleaned)
                     else if prefix ''0x'' (casefold cleaned) then read_hex 0 False True (drop 2 cleaned)
                     else None)
      in if cleaned = [] then None
         else case numeric of
                Some v \<Rightarrow> if v \<le> 0xFFFFFFFF then Some (V4 (word_of_nat v))
                          else map_option unwrap_mapped (ip_address cleaned)
              | None \<Rightarrow> map_option unwrap_mapped (ip_address cleaned))"

subsection \<open>The guard\<close>

record network_guard =
  ng_mode :: egress_mode
  ng_destinations :: "destination list"
  ng_allow_unix_sockets :: bool
  ng_allow_bind :: bool
  ng_active :: bool

definition new_network_guard :: "egress_mode \<Rightarrow> destination list \<Rightarrow> bool \<Rightarrow> bool \<Rightarrow> network_guard" where
  "new_network_guard mode dests unix bnd =
     \<lparr>ng_mode = mode, ng_destinations = dests, ng_allow_unix_sockets = unix, ng_allow_bind = bnd, ng_active = False\<rparr>"

definition allowed_ports :: "network_guard \<Rightarrow> int set" where
  "allowed_ports g = set (map nd_port (ng_destinations g))"

definition allowed_hosts :: "network_guard \<Rightarrow> string set" where
  "allowed_hosts g = set (map (\<lambda>d. casefold (nd_host d)) (ng_destinations g))"

definition net_activate :: "network_guard \<Rightarrow> network_guard" where
  "net_activate g = g\<lparr>ng_active := True\<rparr>"

definition net_deactivate :: "network_guard \<Rightarrow> network_guard" where
  "net_deactivate g = g\<lparr>ng_active := False\<rparr>"

datatype dns_result = Resolved "string list" | GaiError | OsError

type_synonym dns = "string \<Rightarrow> int \<Rightarrow> dns_result"

definition resolves_to :: "dns \<Rightarrow> string \<Rightarrow> int \<Rightarrow> ip \<Rightarrow> bool" where
  "resolves_to dns host port i \<longleftrightarrow>
     (case dns host port of
        Resolved addrs \<Rightarrow> (\<exists>a\<in>set addrs. parse_and_normalize_ip a = Some i)
      | _ \<Rightarrow> False)"

definition check_hostname :: "dns \<Rightarrow> network_guard \<Rightarrow> string \<Rightarrow> int \<Rightarrow> unit res" where
  "check_hostname dns g host_or_ip port =
     (let host_lower = casefold (strip host_or_ip)
      in if host_lower \<notin> allowed_hosts g then Inl PermissionError
         else case dns host_lower port of
                GaiError \<Rightarrow> Inl PermissionError
              | OsError \<Rightarrow> Inl (OtherError ''OSError'')
              | Resolved addrs \<Rightarrow>
                  if \<exists>a\<in>set addrs. \<exists>i. parse_and_normalize_ip a = Some i \<and> is_restricted_or_internal_ip i
                  then Inl PermissionError else Inr ())"

definition check_destination :: "dns \<Rightarrow> network_guard \<Rightarrow> string \<Rightarrow> int \<Rightarrow> unit res" where
  "check_destination dns g host_or_ip port =
     (if \<not> ng_active g then Inr ()
      else if ng_mode g = EGRESS_DISABLED then Inl PermissionError
      else case parse_and_normalize_ip host_or_ip of
             Some i \<Rightarrow>
               if is_restricted_or_internal_ip i then Inl PermissionError
               else if port \<notin> allowed_ports g then Inl PermissionError
               else if ip_text i \<in> allowed_hosts g then Inr ()
               else if \<exists>h\<in>allowed_hosts g. resolves_to dns h port i then Inr ()
               else Inl PermissionError
           | None \<Rightarrow>
               if port \<notin> allowed_ports g then Inl PermissionError
               else check_hostname dns g host_or_ip port)"

definition check_unix_socket :: "network_guard \<Rightarrow> unit res" where
  "check_unix_socket g =
     (if \<not> ng_active g then Inr () else if \<not> ng_allow_unix_sockets g then Inl PermissionError else Inr ())"

definition check_bind :: "network_guard \<Rightarrow> unit res" where
  "check_bind g =
     (if \<not> ng_active g then Inr () else if \<not> ng_allow_bind g then Inl PermissionError else Inr ())"

text \<open>
  The address argument of an audit event: absent, a text or path, a tuple with a host and a port
  (\<open>None\<close> when \<^verbatim>\<open>int\<close> refuses the port), or anything else.
\<close>

datatype sock_address = AddrNone | AddrText | AddrInet string "int option" | AddrOther

definition net_audit_hook :: "dns \<Rightarrow> network_guard \<Rightarrow> string \<Rightarrow> bool \<Rightarrow> sock_address \<Rightarrow> unit res" where
  "net_audit_hook dns g event family_is_unix address =
     (if \<not> ng_active g then Inr ()
      else if event \<in> {''socket.connect'', ''socket.sendto'', ''socket.sendmsg''} then
        (if address = AddrNone then Inr ()
         else if family_is_unix \<or> address = AddrText then check_unix_socket g
         else case address of
                AddrInet host port \<Rightarrow>
                  (case port of None \<Rightarrow> Inl PermissionError | Some p \<Rightarrow> check_destination dns g host p)
              | _ \<Rightarrow> Inr ())
      else if event = ''socket.bind'' then check_bind g
      else Inr ())"

text \<open>The serialised capability the child process builds its guard from.\<close>

record network_data =
  dt_mode :: "string option"
  dt_destinations :: "destination_input list"
  dt_allowed_destinations :: "destination_input list option"
  dt_allow_unix_sockets :: bool
  dt_allow_bind :: bool

definition egress_of_text :: "string \<Rightarrow> egress_mode res" where
  "egress_of_text s =
     (if s = ''disabled'' then Inr EGRESS_DISABLED
      else if s = ''allowlist'' then Inr EGRESS_ALLOWLIST else Inl ValueError)"

fun data_destinations :: "destination_input list \<Rightarrow> destination list res" where
  "data_destinations [] = Inr []"
| "data_destinations (DestObject d # ds) = res_bind (data_destinations ds) (\<lambda>xs. Inr (d # xs))"
| "data_destinations (DestDict h p # ds) =
     res_bind (make_destination h p) (\<lambda>d. res_bind (data_destinations ds) (\<lambda>xs. Inr (d # xs)))"
| "data_destinations (_ # ds) = data_destinations ds"

fun data_allowed :: "destination_input list \<Rightarrow> destination list res" where
  "data_allowed [] = Inr []"
| "data_allowed (DestText s # ds) =
     res_bind (parse_allowed s) (\<lambda>d. res_bind (data_allowed ds) (\<lambda>xs. Inr (d # xs)))"
| "data_allowed (_ # ds) = data_allowed ds"

definition net_from_dict :: "network_data \<Rightarrow> network_guard res" where
  "net_from_dict data =
     res_bind (egress_of_text (case dt_mode data of None \<Rightarrow> ''disabled'' | Some m \<Rightarrow> m)) (\<lambda>mode.
     res_bind (if dt_destinations data \<noteq> [] then data_destinations (dt_destinations data)
               else case dt_allowed_destinations data of None \<Rightarrow> Inr [] | Some items \<Rightarrow> data_allowed items) (\<lambda>ds.
     Inr (new_network_guard mode ds (dt_allow_unix_sockets data) (dt_allow_bind data))))"

subsection \<open>Encodings of one address\<close>

lemma not_digits [simp]: "\<not> is_digit CHR ''.''" "\<not> is_digit CHR '':''" "\<not> is_digit CHR ''x''" "\<not> is_digit CHR ''f''"
  by (simp_all add: is_digit_def)

lemma digit_is_digit: "n < 10 \<Longrightarrow> is_digit (digit n)"
  by (simp add: is_digit_def digit_def)

lemma decimal_digits: "list_all is_digit (decimal n)"
proof (induction n rule: decimal.induct)
  case (1 n)
  then show ?case by (subst decimal.simps) (simp add: digit_is_digit)
qed

lemma decimal_nonempty [simp]: "decimal n \<noteq> []"
  by (subst decimal.simps) simp

lemma digit_zero: "n < 10 \<Longrightarrow> digit n = CHR ''0'' \<longleftrightarrow> n = 0"
  by (simp add: digit_def char_of_eq_iff take_bit_eq_mod)

lemma decimal_1: "n < 10 \<Longrightarrow> decimal n = [digit n]"
  by (simp add: decimal.simps)

lemma decimal_2: "10 \<le> n \<Longrightarrow> n < 100 \<Longrightarrow> decimal n = [digit (n div 10), digit (n mod 10)]"
  by (subst decimal.simps) (simp add: decimal_1)

lemma decimal_3: "100 \<le> n \<Longrightarrow> n < 1000 \<Longrightarrow> decimal n = [digit (n div 100), digit (n div 10 mod 10), digit (n mod 10)]"
  by (subst decimal.simps) (simp add: decimal_2 flip: div_mult2_eq)

lemma octet_round_trip:
  assumes "n < 256"
  shows "parse_octet (decimal n) = Some n"
proof -
  consider "n < 10" | "10 \<le> n" "n < 100" | "100 \<le> n" by linarith
  then have "length (decimal n) \<le> 3 \<and> (decimal n \<noteq> ''0'' \<longrightarrow> hd (decimal n) \<noteq> CHR ''0'')"
    using assms by cases (simp_all add: decimal_1 decimal_2 decimal_3 digit_zero)
  then show ?thesis
    using assms decimal_digits [of n] by (auto simp: parse_octet_def not_less)
qed

definition octets :: "32 word \<Rightarrow> nat list" where
  "octets w = [unat w div 2 ^ 24, unat w div 2 ^ 16 mod 256, unat w div 2 ^ 8 mod 256, unat w mod 256]"

lemma dotted_octets: "dotted w = join ''.'' (map decimal (octets w))"
  by (simp add: dotted_def octets_def)

lemma unat_bound: "unat (w :: 32 word) < 2 ^ 32"
  using unsigned_less [of w] by simp

lemma octets_small: "n \<in> set (octets w) \<Longrightarrow> n < 256"
proof -
  have "unat w div 2 ^ 24 < 256"
    using unat_bound [of w] by (intro less_mult_imp_div_less) simp
  then show "n \<in> set (octets w) \<Longrightarrow> n < 256" by (auto simp: octets_def)
qed

lemma octets_value: "ipv4_value (n div 2 ^ 24) (n div 2 ^ 16 mod 256) (n div 2 ^ 8 mod 256) (n mod 256) = n"
proof -
  have "n div 2 ^ 24 = n div 2 ^ 16 div 256" "n div 2 ^ 16 = n div 2 ^ 8 div 256" "n div 2 ^ 8 = n div 256"
    by (simp_all flip: div_mult2_eq)
  then show ?thesis by (simp only: ipv4_value_def div_mult_mod_eq)
qed

lemma parse_dotted: "parse_ipv4 (dotted w) = Some (unat w)"
proof -
  have nodot: "CHR ''.'' \<notin> set (decimal n)" for n
    using decimal_digits [of n] by (auto simp: list_all_iff)
  have "split_on CHR ''.'' (dotted w) = map decimal (octets w)"
    unfolding dotted_octets by (rule split_on_join) (auto simp: octets_def nodot)
  then have "map parse_octet (split_on CHR ''.'' (dotted w)) = map Some (octets w)"
    using octets_small [of _ w] by (auto simp: octet_round_trip)
  then show ?thesis
    using octets_value [of "unat w"] by (simp add: parse_ipv4_def octets_def)
qed

lemma dotted_chars: "c \<in> set (dotted w) \<Longrightarrow> is_digit c \<or> c = CHR ''.''"
proof -
  have "set (join ''.'' xs) \<subseteq> insert CHR ''.'' (\<Union> (set ` set xs))" for xs
    by (induction "''.''" xs rule: join.induct) auto
  moreover assume "c \<in> set (dotted w)"
  ultimately show ?thesis
    using decimal_digits by (fastforce simp: dotted_octets list_all_iff)
qed

lemma dotted_has_dot: "CHR ''.'' \<in> set (dotted w)"
  by (simp add: dotted_octets octets_def)

text \<open>Trimming leaves a text alone whose characters are neither white space nor brackets.\<close>

definition plain_char :: "char \<Rightarrow> bool" where
  "plain_char c \<longleftrightarrow> \<not> is_space c \<and> c \<notin> {CHR ''['', CHR '']''}"

lemma dropWhile_none: "(\<And>c. c \<in> set s \<Longrightarrow> \<not> P c) \<Longrightarrow> dropWhile P s = s"
  by (cases s) auto

lemma strip_plain: "list_all plain_char s \<Longrightarrow> strip s = s \<and> strip_chars {CHR ''['', CHR '']''} s = s"
proof -
  assume a: "list_all plain_char s"
  then have "\<And>c. c \<in> set s \<Longrightarrow> \<not> is_space c" "\<And>c. c \<in> set s \<Longrightarrow> \<not> c \<in> {CHR ''['', CHR '']''}"
    by (auto simp: list_all_iff plain_char_def)
  then have "dropWhile is_space s = s" "dropWhile is_space (rev s) = rev s"
    "dropWhile (\<lambda>c. c \<in> {CHR ''['', CHR '']''}) s = s" "dropWhile (\<lambda>c. c \<in> {CHR ''['', CHR '']''}) (rev s) = rev s"
    by (intro dropWhile_none; simp)+
  then show ?thesis unfolding strip_def strip_chars_def by simp
qed

lemma digit_plain: "is_digit c \<Longrightarrow> plain_char c"
  by (auto simp: is_digit_def plain_char_def is_space_def)

lemma parse_decimal: "parse_and_normalize_ip (decimal (unat (w :: 32 word))) = Some (V4 w)"
proof -
  have "list_all plain_char (decimal (unat w))"
    using decimal_digits [of "unat w"] by (auto simp: list_all_iff digit_plain)
  note st = strip_plain [OF this]
  have "unat w \<le> 0xFFFFFFFF" using unat_bound [of w] by simp
  then show ?thesis
    using decimal_digits [of "unat w"] by (simp add: parse_and_normalize_ip_def st Let_def)
qed

lemma not_hex_prefix: "(\<And>c. c \<in> set s \<Longrightarrow> is_digit c \<or> c \<in> {CHR ''.'', CHR '':'', CHR ''f''}) \<Longrightarrow> \<not> prefix ''0x'' (casefold s)"
proof
  assume chars: "\<And>c. c \<in> set s \<Longrightarrow> is_digit c \<or> c \<in> {CHR ''.'', CHR '':'', CHR ''f''}" and "prefix ''0x'' (casefold s)"
  then have "CHR ''x'' \<in> set (casefold s)"
    by (auto dest!: set_mono_prefix)
  then obtain c where "c \<in> set s" "lower_char c = CHR ''x''"
    by (auto simp: casefold_def)
  then show False using chars [of c] by (auto simp: lower_char_def is_digit_def split: if_splits)
qed

lemma parse_dotted_ip: "parse_and_normalize_ip (dotted w) = Some (V4 w)"
proof -
  have "list_all plain_char (dotted w)"
    using dotted_chars [of _ w] digit_plain by (fastforce simp: list_all_iff plain_char_def is_space_def)
  note st = strip_plain [OF this]
  have ne: "dotted w \<noteq> []" using dotted_has_dot [of w] by auto
  have nd: "\<not> list_all is_digit (dotted w)"
    using dotted_has_dot [of w] not_digits(1) by (auto simp only: list_all_iff)
  have nx: "\<not> prefix ''0x'' (casefold (dotted w))"
    by (rule not_hex_prefix) (use dotted_chars in blast)
  show ?thesis
    by (simp add: parse_and_normalize_ip_def st Let_def ne nd nx ip_address_def parse_dotted unwrap_mapped_def)
qed

lemma hex_char_value: "n < 16 \<Longrightarrow> hex_digit_value (hex_char n) = Some n"
proof (cases "n < 10")
  case True
  then show ?thesis by (simp add: hex_char_def hex_digit_value_def digit_is_digit of_char_digit Let_def)
next
  case False
  moreover assume "n < 16"
  ultimately show ?thesis
    by (simp add: hex_char_def hex_digit_value_def is_digit_def lower_char_def Let_def)
qed

lemma read_hex_snoc:
  assumes "\<forall>c\<in>set xs. hex_digit_value c \<noteq> None" and "d < 16"
  shows "read_hex acc e True (xs @ [hex_char d]) =
    Some (16 * foldl (\<lambda>n c. 16 * n + the (hex_digit_value c)) acc xs + d)"
  using assms by (induction xs arbitrary: acc e) (auto simp: hex_char_value)

lemma hex_text_digits: "\<forall>c\<in>set (hex_text n). hex_digit_value c \<noteq> None"
proof (induction n rule: hex_text.induct)
  case (1 n)
  then show ?case by (subst hex_text.simps) (auto simp: hex_char_value)
qed

lemma hex_text_value: "foldl (\<lambda>n c. 16 * n + the (hex_digit_value c)) 0 (hex_text n) = n"
proof (induction n rule: hex_text.induct)
  case (1 n)
  then show ?case by (subst hex_text.simps) (simp add: hex_char_value)
qed

lemma read_hex_text: "read_hex 0 False True (hex_text n) = Some n"
proof (cases "n < 16")
  case True
  then show ?thesis by (simp add: hex_text.simps hex_char_value)
next
  case False
  then have "hex_text n = hex_text (n div 16) @ [hex_char (n mod 16)]" by (simp add: hex_text.simps [of n])
  then show ?thesis by (simp add: read_hex_snoc hex_text_digits hex_text_value)
qed

lemma hex_plain: "hex_digit_value c \<noteq> None \<Longrightarrow> plain_char c"
  by (auto simp: hex_digit_value_def plain_char_def is_space_def is_digit_def lower_char_def Let_def split: if_splits)

lemma parse_hex_ip: "parse_and_normalize_ip (''0x'' @ hex_text (unat (w :: 32 word))) = Some (V4 w)"
proof -
  let ?s = "''0x'' @ hex_text (unat w)"
  have "list_all plain_char ?s"
    using hex_text_digits [of "unat w"] by (auto simp: list_all_iff hex_plain, auto simp: plain_char_def is_space_def)
  then have st: "strip_chars {CHR ''['', CHR '']''} (strip ?s) = ?s" by (simp only: strip_plain)
  have "\<not> list_all is_digit ?s" "prefix ''0x'' (casefold ?s)" "drop 2 ?s = hex_text (unat w)"
    by (simp_all add: casefold_def lower_char_def)
  moreover have "unat w \<le> 0xFFFFFFFF" using unat_bound [of w] by simp
  ultimately show ?thesis
    unfolding parse_and_normalize_ip_def Let_def st by (simp only: read_hex_text if_True if_False) simp
qed

lemma mapped_fields:
  "ipv6_fields (split_on CHR '':'' (''::ffff:'' @ dotted w))
     = Some [None, None, Some 65535, Some (unat w div 65536), Some (unat w mod 65536)]"
proof -
  have "CHR '':'' \<notin> set (dotted w)" using dotted_chars [of "CHR '':''" w] by auto
  then have "split_on CHR '':'' (''::ffff:'' @ dotted w) = [[], [], ''ffff'', dotted w]"
    by (simp add: split_on_none)
  then show ?thesis
    by (simp add: ipv6_fields_def dotted_has_dot parse_dotted parse_hextet_def hex_digit_value_def hex_value_def
        lower_char_def Let_def)
qed

lemma mapped_expand:
  "expand_fields [None, None, Some x, Some a, Some b] = Some [0, 0, 0, 0, 0, x, a, b]"
proof -
  have "[1..<4] = [1, 2, 3 :: nat]" by (simp add: upt_rec)
  then show ?thesis by (simp add: expand_fields_def Let_def nth_Cons' numeral_3_eq_3 eval_nat_numeral)
qed

lemma mapped_word:
  "ipv4_mapped (word_of_nat (fields_value [0, 0, 0, 0, 0, 65535, unat w div 65536, unat w mod 65536])) = Some w"
proof -
  define n where "n = 65535 * 2 ^ 32 + unat w"
  have v: "fields_value [0, 0, 0, 0, 0, 65535, unat w div 65536, unat w mod 65536] = n"
    by (simp add: fields_value_def n_def)
  have small: "n < 2 ^ 128" and hi: "n div 2 ^ 32 = 65535"
    using unat_bound [of w] by (simp_all add: n_def)
  have lo: "n mod 2 ^ 32 = unat w"
    unfolding n_def by (simp only: mod_mult_self3 mod_less unat_bound)
  have tb: "take_bit 128 n = n" using small by (rule take_bit_nat_eq_self)
  have n: "unat (word_of_nat n :: 128 word) = n"
    by (simp add: unsigned_of_nat tb)
  have "unat (drop_bit 32 (word_of_nat n :: 128 word)) = unat (0xFFFF :: 128 word)"
    by (simp only: unsigned_drop_bit_eq n) (simp add: drop_bit_eq_div hi [simplified] tb)
  then have d: "drop_bit 32 (word_of_nat n :: 128 word) = 0xFFFF" by (simp only: unsigned_word_eqI)
  have "unat (ucast (word_of_nat n :: 128 word) :: 32 word) = unat w"
    by (simp only: unsigned_ucast_eq n) (simp add: take_bit_eq_mod lo [simplified])
  then have "(ucast (word_of_nat n :: 128 word) :: 32 word) = w" by (simp only: unsigned_word_eqI)
  with d show ?thesis by (simp add: v ipv4_mapped_def)
qed

lemma parse_mapped_ip: "parse_and_normalize_ip (''::ffff:'' @ dotted w) = Some (V4 w)"
proof -
  let ?s = "''::ffff:'' @ dotted w"
  have chars: "is_digit c \<or> c \<in> {CHR ''.'', CHR '':'', CHR ''f''}" if "c \<in> set ?s" for c
    using that dotted_chars [of c w] by auto
  have "plain_char c" if "c \<in> set ?s" for c
    using chars [OF that]
  proof
    assume "c \<in> {CHR ''.'', CHR '':'', CHR ''f''}"
    then show ?thesis by (auto simp: plain_char_def is_space_def)
  qed (rule digit_plain)
  then have "list_all plain_char ?s" unfolding list_all_iff by blast
  then have st: "strip_chars {CHR ''['', CHR '']''} (strip ?s) = ?s" by (simp only: strip_plain)
  have nd: "\<not> list_all is_digit ?s" by simp
  have nx: "\<not> prefix ''0x'' (casefold ?s)" by (rule not_hex_prefix) (rule chars)
  have "parse_octet (hd (split_on CHR ''.'' ?s)) = None"
  proof -
    have "\<exists>t. hd (split_on CHR ''.'' ?s) = CHR '':'' # t"
      by (auto split: list.splits)
    then show ?thesis by (auto simp: parse_octet_def)
  qed
  then have v4: "parse_ipv4 ?s = None"
    by (cases "split_on CHR ''.'' ?s") (auto simp: parse_ipv4_def split: list.splits option.splits)
  have none: "CHR ''/'' \<notin> set ?s" "CHR ''%'' \<notin> set ?s"
    using chars [of "CHR ''/''"] chars [of "CHR ''%''"] by (auto simp: is_digit_def)
  have "takeWhile (\<lambda>c. c \<noteq> CHR ''%'') ?s = ?s"
    unfolding takeWhile_eq_all_conv using none(2) by metis
  moreover have "dropWhile (\<lambda>c. c \<noteq> CHR ''%'') ?s = []"
    unfolding dropWhile_eq_Nil_conv using none(2) by metis
  ultimately have "parse_ipv6 ?s = Some (V6 (word_of_nat (fields_value [0, 0, 0, 0, 0, 65535, unat w div 65536, unat w mod 65536])) None)"
    unfolding parse_ipv6_def Let_def using none(1) by (simp only: mapped_fields mapped_expand option.case) simp
  then have "ip_address ?s = Some (V6 (word_of_nat (fields_value [0, 0, 0, 0, 0, 65535, unat w div 65536, unat w mod 65536])) None)"
    by (simp only: ip_address_def v4 option.case)
  then show ?thesis
    unfolding parse_and_normalize_ip_def Let_def st using nd nx
    by (simp only: unwrap_mapped_def mapped_word option.map ip.case option.case if_False) simp
qed

definition ex_guard :: network_guard where
  "ex_guard = net_activate (new_network_guard EGRESS_ALLOWLIST
     [\<lparr>nd_host = ''a'', nd_port = 443\<rparr>, \<lparr>nd_host = ''b'', nd_port = 22\<rparr>] False False)"

definition ex_dns :: dns where
  "ex_dns host port = Resolved [''8.8.8.8'']"

text \<open>
  Every encoding of an IPv4 address the guard knows is the same destination to it: the dotted
  notation, the decimal and the hexadecimal number, and the IPv4-mapped IPv6 notation of an address
  all parse to that address, so a connection is judged alike in all four, and an address the
  capability forbids cannot be reached by writing it differently.
\<close>

theorem encodings_judged_alike:
  fixes w :: "32 word"
  shows "parse_and_normalize_ip (dotted w) = Some (V4 w)
     \<and> (\<forall>e\<in>{decimal (unat w), ''0x'' @ hex_text (unat w), ''::ffff:'' @ dotted w}.
          parse_and_normalize_ip e = Some (V4 w)
          \<and> check_destination dns g e port = check_destination dns g (dotted w) port)"
  by (simp add: check_destination_def parse_dotted_ip parse_decimal parse_hex_ip [simplified] parse_mapped_ip [simplified])

theorem encodings_judged_alike_witness:
  "check_destination ex_dns ex_guard (decimal (unat (0x7F000001 :: 32 word))) 443
     = check_destination ex_dns ex_guard (dotted 0x7F000001) 443"
  using encodings_judged_alike [of "0x7F000001"] by blast

subsection \<open>What the guard lets through\<close>


lemma ex_public: "parse_and_normalize_ip ''8.8.8.8'' = Some (V4 0x08080808)" "\<not> is_restricted_or_internal_ip (V4 0x08080808)"
proof -
  have d: "dotted 0x08080808 = ''8.8.8.8''" by (simp add: dotted_def decimal.simps digit_def char_of_eq_iff)
  show "parse_and_normalize_ip ''8.8.8.8'' = Some (V4 0x08080808)"
    using parse_dotted_ip [of "0x08080808"] by (simp add: d)
  show "\<not> is_restricted_or_internal_ip (V4 0x08080808)"
    by (simp add: is_restricted_or_internal_ip_def in_net4_def ip_text_def d)
qed


text \<open>
  Two things the source text promises and the code does not do. Host and port are looked up in
  separate sets, so the allow-list means every pair of an allowed host with an allowed port. And the
  restricted ranges, described as including the private ones, do not include them.
\<close>

lemma allowlist_is_a_product: "check_destination ex_dns ex_guard ''a'' 22 = Inr ()"
proof -
  have "parse_and_normalize_ip ''a'' = None" by code_simp
  then show ?thesis
    using ex_public by (simp add: check_destination_def check_hostname_def ex_dns_def ex_guard_def net_activate_def
        new_network_guard_def allowed_ports_def allowed_hosts_def casefold_def lower_char_def strip_def is_space_def)
qed

lemma private_addresses_not_restricted: "\<not> is_restricted_or_internal_ip (V4 0x0A000001)"
proof -
  have "dotted 0x0A000001 = ''10.0.0.1''"
    by (simp add: dotted_def decimal_1 decimal_2 digit_def char_of_eq_iff)
  then show ?thesis by (simp add: is_restricted_or_internal_ip_def in_net4_def ip_text_def)
qed

end
