(* ===== verification/Process_Sandbox.thy ===== *)
theory Process_Sandbox
  imports Executor Filesystem_Identity Network_Guard
begin

section \<open>The process sandbox\<close>

text \<open>
  \<^verbatim>\<open>app/runtime/sandbox/process_sandbox.py\<close>, \<^verbatim>\<open>resource_controls.py\<close> and \<^verbatim>\<open>descriptor.py\<close>: what the parent does around
  the child process. What the child does is in \<open>Sandbox_Runner\<close>.
  The operating system is the record \<open>host\<close>: which limits \<^verbatim>\<open>setrlimit\<close> accepts, whether a process can be started,
  and, for a descriptor and an environment, what each turn of the supervision loop observes. The loop has no bound of
  its own, so it is a \<open>partial_function\<close> and \<open>None\<close> is a run that never ends. \<^verbatim>\<open>json.loads\<close> on the child's output is
  the parameter \<open>ho_loads\<close>. Error messages, their redaction and the descriptive resource usage are not modelled.
\<close>

subsection \<open>Resource controls\<close>

datatype control_outcome = ENFORCED | UNSUPPORTED | CONTROL_FAILED

record assessment =
  ca_control :: string
  ca_outcome :: control_outcome

record tick =
  tk_now :: instant
  tk_out :: string
  tk_err :: string
  tk_exited :: bool
  tk_rest_out :: string
  tk_rest_err :: string

record exec_descriptor =
  ed_tool_id :: string
  ed_tool_version :: string
  ed_implementation_id :: string
  ed_parameters :: raw_parameters
  ed_provenance :: provenance
  ed_filesystem :: filesystem_capability
  ed_scratch_dir :: "string option"
  ed_network :: network_capability

record 'o payload =
  pl_success :: bool
  pl_output :: "'o option"
  pl_error_type :: "string option"

datatype 'o decoded = Decoded "'o payload" | NotAnObject | Undecodable

record 'o host =
  ho_posix :: bool
  ho_has_memory_limit :: bool
  ho_has_cpu_limit :: bool
  ho_accepts_memory :: "nat \<Rightarrow> bool"
  ho_accepts_cpu :: "int \<Rightarrow> bool"
  ho_probe_runs :: bool
  ho_path :: "string option"
  ho_exists :: "string \<Rightarrow> bool"
  ho_scratch :: string
  ho_starts :: bool
  ho_accepts_input :: bool
  ho_start :: instant
  ho_ticks :: "exec_descriptor \<Rightarrow> (string, string) dict \<Rightarrow> nat \<Rightarrow> tick"
  ho_end :: instant
  ho_loads :: "string \<Rightarrow> 'o decoded"
  ho_digest :: "'o \<Rightarrow> string"

definition generous_memory :: nat where
  "generous_memory = 64 * 1024 * 1024 * 1024"

definition cpu_ceiling :: "duration \<Rightarrow> int" where
  "cpu_ceiling d = d div 1000000 + 1"

text \<open>The probe runs in a process of its own; its second attempt only follows a first that was refused.\<close>

definition probe_memory :: "'o host \<Rightarrow> nat \<Rightarrow> control_outcome" where
  "probe_memory h m =
     (if \<not> ho_has_memory_limit h then UNSUPPORTED
      else if ho_accepts_memory h m then ENFORCED
      else if ho_accepts_memory h generous_memory then CONTROL_FAILED else UNSUPPORTED)"

definition probe_cpu :: "'o host \<Rightarrow> duration \<Rightarrow> control_outcome" where
  "probe_cpu h c =
     (if \<not> ho_has_cpu_limit h then UNSUPPORTED
      else if ho_accepts_cpu h (cpu_ceiling c) then ENFORCED else CONTROL_FAILED)"

definition assess_fresh :: "'o host \<Rightarrow> nat \<Rightarrow> duration \<Rightarrow> assessment list" where
  "assess_fresh h m c =
     (if \<not> ho_posix h then [\<lparr>ca_control = ''memory'', ca_outcome = UNSUPPORTED\<rparr>, \<lparr>ca_control = ''cpu'', ca_outcome = UNSUPPORTED\<rparr>]
      else if \<not> ho_probe_runs h
        then [\<lparr>ca_control = ''memory'', ca_outcome = CONTROL_FAILED\<rparr>, \<lparr>ca_control = ''cpu'', ca_outcome = CONTROL_FAILED\<rparr>]
      else [\<lparr>ca_control = ''memory'', ca_outcome = probe_memory h m\<rparr>, \<lparr>ca_control = ''cpu'', ca_outcome = probe_cpu h c\<rparr>])"

record sandbox_state =
  sb_cache :: "(nat \<times> duration, assessment list) dict"
  sb_scratch :: "string list"

definition assess_resource_controls :: "'o host \<Rightarrow> nat \<Rightarrow> duration \<Rightarrow> sandbox_state \<Rightarrow> assessment list \<times> sandbox_state" where
  "assess_resource_controls h m c s =
     (case dget (sb_cache s) (m, c) of
        Some cached \<Rightarrow> (cached, s)
      | None \<Rightarrow> let r = assess_fresh h m c in (r, s\<lparr>sb_cache := dset (m, c) r (sb_cache s)\<rparr>))"

definition blocking :: "string list \<Rightarrow> assessment list \<Rightarrow> assessment list" where
  "blocking required as =
     filter (\<lambda>a. ca_outcome a = CONTROL_FAILED \<or> ca_outcome a = UNSUPPORTED \<and> ca_control a \<in> set required) as"

definition enforced_controls :: "assessment list \<Rightarrow> string list" where
  "enforced_controls as = map ca_control (filter (\<lambda>a. ca_outcome a = ENFORCED) as)"

text \<open>In the forked child, before \<^verbatim>\<open>exec\<close>; a zero excludes the control.\<close>

definition apply_resource_controls :: "'o host \<Rightarrow> nat \<Rightarrow> duration \<Rightarrow> unit res" where
  "apply_resource_controls h m c =
     (if ho_has_memory_limit h \<and> 0 < m \<and> \<not> ho_accepts_memory h m
         \<or> ho_has_cpu_limit h \<and> 0 < c \<and> \<not> ho_accepts_cpu h (cpu_ceiling c)
      then Inl (OtherError ''RuntimeError'') else Inr ())"

subsection \<open>Environment and supervision\<close>

record sandbox_config =
  sg_platform_root :: string
  sg_testing_handlers :: bool

definition blocked_proxy :: "string set" where
  "blocked_proxy = {''http_proxy'', ''https_proxy'', ''all_proxy'', ''no_proxy''}"

fun add_variables :: "(string, string) dict \<Rightarrow> (string, string) dict \<Rightarrow> (string, string) dict" where
  "add_variables [] env = env"
| "add_variables ((k, v) # rest) env =
     add_variables rest (if map lower_char k \<in> blocked_proxy then env else dset k v env)"

definition child_environment :: "sandbox_config \<Rightarrow> 'o host \<Rightarrow> (string, string) dict \<Rightarrow> (string, string) dict" where
  "child_environment cfg h vars =
     add_variables vars
       ([(''PATH'', case ho_path h of Some p \<Rightarrow> p | None \<Rightarrow> ''/usr/bin:/bin:/usr/sbin:/sbin''), (''PYTHONUNBUFFERED'', ''1''),
         (''PYTHONPATH'', sg_platform_root cfg)]
        @ (if sg_testing_handlers cfg then [(''EASP_SANDBOX_TESTING_HANDLERS'', ''1'')] else []))"

text \<open>The loop that collects output. (The parent kills the process group on every way out of it, which changes no state of this model.)\<close>

partial_function (option) supervise ::
  "(nat \<Rightarrow> tick) \<Rightarrow> instant \<Rightarrow> nat \<Rightarrow> nat \<Rightarrow> string \<Rightarrow> string \<Rightarrow> nat \<Rightarrow> (string \<times> string \<times> nat) res option" where
  "supervise ticks deadline limit n out err acc =
     (let t = ticks n
      in if deadline - tk_now t \<le> 0 then Some (Inl SandboxTimeoutError)
         else let out' = out @ tk_out t; err' = err @ tk_err t; acc' = acc + length (tk_out t) + length (tk_err t)
         in if acc' > limit then Some (Inl SandboxResourceExhaustedError)
         else if tk_exited t then
           (let acc'' = acc' + length (tk_rest_out t) + length (tk_rest_err t)
            in if acc'' > limit then Some (Inl SandboxResourceExhaustedError)
               else Some (Inr (out' @ tk_rest_out t, err' @ tk_rest_err t, acc'')))
         else supervise ticks deadline limit (Suc n) out' err' acc')"

definition failed_result :: "int \<Rightarrow> string \<Rightarrow> 'o sandbox_result" where
  "failed_result ms name = \<lparr>sx_success = False, sx_output = None, sx_output_digest = None, sx_duration_ms = nat ms,
     sx_error_type = Some name\<rparr>"

definition parse_result :: "'o host \<Rightarrow> int \<Rightarrow> string \<Rightarrow> 'o sandbox_result res" where
  "parse_result h ms out =
     (if strip out = [] then Inr (failed_result ms ''EmptyOutputError'')
      else case ho_loads h (strip out) of
             Undecodable \<Rightarrow> Inr (failed_result ms ''JSONDecodeError'')
           | NotAnObject \<Rightarrow> Inl (OtherError ''AttributeError'')
           | Decoded p \<Rightarrow> Inr \<lparr>sx_success = pl_success p, sx_output = pl_output p,
               sx_output_digest = map_option (ho_digest h) (pl_output p), sx_duration_ms = nat ms, sx_error_type = pl_error_type p\<rparr>)"

definition descriptor_for :: "sandbox_call \<Rightarrow> string option \<Rightarrow> exec_descriptor res" where
  "descriptor_for call scratch =
     (case bt_metadata (sc_tool call) of
        None \<Rightarrow> Inl (OtherError ''AttributeError'')
      | Some md \<Rightarrow>
          if ti_tool_id (md_identity md) = [] then Inl ValueError
          else Inr \<lparr>ed_tool_id = ti_tool_id (md_identity md), ed_tool_version = sc_tool_version call,
                    ed_implementation_id = sc_implementation_id call, ed_parameters = sc_parameters call,
                    ed_provenance = sc_provenance call, ed_filesystem = cp_filesystem (sc_capabilities call),
                    ed_scratch_dir = scratch, ed_network = cp_network (sc_capabilities call)\<rparr>)"

definition supervised ::
  "'o host \<Rightarrow> resource_limits \<Rightarrow> exec_descriptor \<Rightarrow> (string, string) dict \<Rightarrow> 'o sandbox_result res option" where
  "supervised h lim d env =
     (if \<not> ho_accepts_input h then Some (Inl (OtherError ''BrokenPipeError''))
      else map_option (\<lambda>r. res_bind r (\<lambda>(out, err, n). parse_result h ((ho_end h - ho_start h) div 1000) out))
             (supervise (ho_ticks h d env) (ho_start h + lim_wall_clock lim) (lim_max_output_bytes lim) 0 [] [] 0))"

definition execute_process ::
  "sandbox_config \<Rightarrow> 'o host \<Rightarrow> sandbox_call \<Rightarrow> string option \<Rightarrow> sandbox_state \<Rightarrow> ('o sandbox_result res \<times> sandbox_state) option" where
  "execute_process cfg h call scratch s =
     (case descriptor_for call scratch of
        Inl e \<Rightarrow> Some (Inl e, s)
      | Inr d \<Rightarrow>
          let c = sc_capabilities call; lim = cp_resources c; env = child_environment cfg h (cp_environment c);
              (as, s1) = assess_resource_controls h (lim_max_memory_bytes lim) (lim_max_cpu lim) s;
              mem = (if ''memory'' \<in> set (enforced_controls as) then lim_max_memory_bytes lim else 0);
              cpu = (if ''cpu'' \<in> set (enforced_controls as) then lim_max_cpu lim else 0)
          in if blocking (lim_required_controls lim) as \<noteq> [] then Some (Inl SandboxUnavailableError, s1)
             else if \<not> ho_starts h \<or> ho_posix h \<and> apply_resource_controls h mem cpu \<noteq> Inr ()
               then Some (Inl SandboxUnavailableError, s1)
             else map_option (\<lambda>r. (r, s1)) (supervised h lim d env))"

definition process_execute ::
  "sandbox_config \<Rightarrow> 'o host \<Rightarrow> sandbox_call \<Rightarrow> sandbox_state \<Rightarrow> ('o sandbox_result res \<times> sandbox_state) option" where
  "process_execute cfg h call s =
     (if sc_implementation_id call = [] then Some (Inl SandboxUnavailableError, s)
      else if \<not> ho_exists h (fc_workspace_root (cp_filesystem (sc_capabilities call))) then Some (Inl SandboxUnavailableError, s)
      else if fc_allow_temp_writes (cp_filesystem (sc_capabilities call))
        then map_option (\<lambda>(r, s'). (r, s'\<lparr>sb_scratch := filter (\<lambda>x. x \<noteq> ho_scratch h) (sb_scratch s')\<rparr>))
               (execute_process cfg h call (Some (ho_scratch h)) (s\<lparr>sb_scratch := sb_scratch s @ [ho_scratch h]\<rparr>))
      else execute_process cfg h call None s)"

subsection \<open>The supervision loop ends\<close>

definition observed :: "(tick \<Rightarrow> string) \<Rightarrow> (nat \<Rightarrow> tick) \<Rightarrow> nat \<Rightarrow> nat \<Rightarrow> string" where
  "observed f ticks n k = concat (map (\<lambda>i. f (ticks i)) [n..<k])"

lemma observed_Suc: "n \<le> k \<Longrightarrow> observed f ticks n (Suc k) = observed f ticks n k @ f (ticks k)"
  by (simp add: observed_def)

lemma observed_Cons: "n < k \<Longrightarrow> observed f ticks n k = f (ticks n) @ observed f ticks (Suc n) k"
  by (simp add: observed_def upt_conv_Cons)

lemma observed_self [simp]: "observed f ticks n n = []"
  by (simp add: observed_def)

text \<open>
  \<open>verdict\<close> is what the loop reports at a turn where it stops, with \<open>out\<close> and \<open>err\<close> collected by then.
  \<open>stops_at\<close> says that turn \<open>k\<close> is the first at which the deadline has passed, the limit is exceeded or the child has exited.
\<close>

definition verdict :: "tick \<Rightarrow> instant \<Rightarrow> nat \<Rightarrow> string \<Rightarrow> string \<Rightarrow> (string \<times> string \<times> nat) res" where
  "verdict t deadline limit out err =
     (if deadline \<le> tk_now t then Inl SandboxTimeoutError
      else if limit < length out + length err then Inl SandboxResourceExhaustedError
      else let o2 = out @ tk_rest_out t; e2 = err @ tk_rest_err t
           in if limit < length o2 + length e2 then Inl SandboxResourceExhaustedError
              else Inr (o2, e2, length o2 + length e2))"

definition stop_turn :: "(nat \<Rightarrow> tick) \<Rightarrow> instant \<Rightarrow> nat \<Rightarrow> nat \<Rightarrow> string \<Rightarrow> string \<Rightarrow> nat \<Rightarrow> bool" where
  "stop_turn ticks deadline limit n out err k \<longleftrightarrow>
     deadline \<le> tk_now (ticks k) \<or> tk_exited (ticks k)
     \<or> limit < length (out @ observed tk_out ticks n (Suc k)) + length (err @ observed tk_err ticks n (Suc k))"

definition loop_outcome ::
  "(nat \<Rightarrow> tick) \<Rightarrow> instant \<Rightarrow> nat \<Rightarrow> nat \<Rightarrow> string \<Rightarrow> string \<Rightarrow> nat \<Rightarrow> (string \<times> string \<times> nat) res \<Rightarrow> bool" where
  "loop_outcome ticks deadline limit n out err k r \<longleftrightarrow>
     stop_turn ticks deadline limit n out err k \<and> (\<forall>i\<in>{n..<k}. \<not> stop_turn ticks deadline limit n out err i)
     \<and> r = verdict (ticks k) deadline limit (out @ observed tk_out ticks n (Suc k)) (err @ observed tk_err ticks n (Suc k))"

lemma supervise_turn:
  assumes "c = length out + length err"
  shows "supervise ticks deadline limit n out err c =
     (if stop_turn ticks deadline limit n out err n
      then Some (verdict (ticks n) deadline limit (out @ tk_out (ticks n)) (err @ tk_err (ticks n)))
      else supervise ticks deadline limit (Suc n) (out @ tk_out (ticks n)) (err @ tk_err (ticks n))
        (length (out @ tk_out (ticks n)) + length (err @ tk_err (ticks n))))"
proof -
  have here: "observed f ticks n (Suc n) = f (ticks n)" for f by (simp add: observed_def)
  have len: "c + length (tk_out (ticks n)) + length (tk_err (ticks n))
      = length (out @ tk_out (ticks n)) + length (err @ tk_err (ticks n))" by (simp add: assms)
  show ?thesis
    unfolding supervise.simps [of ticks deadline limit n] Let_def len stop_turn_def here verdict_def
    by (simp add: add.commute add.left_commute)
qed

lemma stop_turn_later:
  assumes "n < k"
  shows "stop_turn ticks deadline limit n out err k
     \<longleftrightarrow> stop_turn ticks deadline limit (Suc n) (out @ tk_out (ticks n)) (err @ tk_err (ticks n)) k"
  using assms by (simp add: stop_turn_def observed_Cons [of n])

lemma supervise_ends:
  assumes "deadline \<le> tk_now (ticks m)" and "n \<le> m"
  shows "\<exists>r k. supervise ticks deadline limit n out err (length out + length err) = Some r \<and> n \<le> k \<and> k \<le> m
    \<and> loop_outcome ticks deadline limit n out err k r"
  using assms(2)
proof (induction "m - n" arbitrary: n out err)
  case 0
  then have "n = m" by simp
  with assms(1) show ?case
    by (auto simp: supervise_turn [OF refl] loop_outcome_def stop_turn_def observed_def)
next
  case (Suc d)
  let ?o = "out @ tk_out (ticks n)" and ?e = "err @ tk_err (ticks n)"
  show ?case
  proof (cases "stop_turn ticks deadline limit n out err n")
    case True
    then show ?thesis
      using Suc.prems by (intro exI [of _ "verdict (ticks n) deadline limit ?o ?e"] exI [of _ n])
        (simp add: supervise_turn [OF refl, of ticks deadline limit n] loop_outcome_def observed_def)
  next
    case False
    obtain r k where r: "supervise ticks deadline limit (Suc n) ?o ?e (length ?o + length ?e) = Some r" "Suc n \<le> k" "k \<le> m"
      "loop_outcome ticks deadline limit (Suc n) ?o ?e k r"
    proof -
      have "d = m - Suc n" "Suc n \<le> m" using Suc.hyps(2) by simp_all
      from Suc.hyps(1) [OF this, of ?o ?e] show thesis using that by blast
    qed
    have split: "{n..<k} = insert n {Suc n..<k}" using r(2) by auto
    have all: "out @ observed tk_out ticks n (Suc k) = ?o @ observed tk_out ticks (Suc n) (Suc k)"
      "err @ observed tk_err ticks n (Suc k) = ?e @ observed tk_err ticks (Suc n) (Suc k)"
      using r(2) by (simp_all add: observed_Cons [of n])
    have "loop_outcome ticks deadline limit n out err k r"
      using r(2,4) False unfolding loop_outcome_def split all by (auto simp: stop_turn_later)
    moreover have "supervise ticks deadline limit n out err (length out + length err) = Some r"
      using False r(1) by (simp add: supervise_turn [OF refl, of ticks deadline limit n])
    ultimately show ?thesis using r(2,3) by (meson Suc_leD)
  qed
qed

lemma verdict_within:
  "verdict t deadline limit out err = Inr (o2, e2, n) \<Longrightarrow>
     tk_now t < deadline \<and> n = length o2 + length e2 \<and> n \<le> limit \<and> o2 = out @ tk_rest_out t \<and> e2 = err @ tk_rest_err t"
  by (auto simp: verdict_def Let_def split: if_splits)

text \<open>The clock the host shows the loop reaches the deadline, whatever the child does.\<close>

definition clock_advances :: "'o host \<Rightarrow> resource_limits \<Rightarrow> bool" where
  "clock_advances h lim \<longleftrightarrow> (\<forall>d env. \<exists>m. ho_start h + lim_wall_clock lim \<le> tk_now (ho_ticks h d env m))"

lemma supervised_returns:
  assumes "clock_advances h lim"
  shows "\<exists>r. supervised h lim d env = Some r"
proof -
  obtain m where "ho_start h + lim_wall_clock lim \<le> tk_now (ho_ticks h d env m)"
    using assms by (auto simp: clock_advances_def)
  from supervise_ends [where ticks = "ho_ticks h d env", OF this, of 0 "lim_max_output_bytes lim" "[]" "[]"] show ?thesis by (auto simp: supervised_def)
qed

lemma assess_scratch [simp]: "assess_resource_controls h m c s = (as, s') \<Longrightarrow> sb_scratch s' = sb_scratch s"
  by (auto simp: assess_resource_controls_def Let_def split: option.splits)

lemma execute_process_returns:
  assumes "clock_advances h (cp_resources (sc_capabilities call))"
  shows "\<exists>r s'. execute_process cfg h call scratch s = Some (r, s') \<and> sb_scratch s' = sb_scratch s"
proof (cases "descriptor_for call scratch")
  case (Inr d)
  let ?lim = "cp_resources (sc_capabilities call)"
  obtain as s1 where a: "assess_resource_controls h (lim_max_memory_bytes ?lim) (lim_max_cpu ?lim) s = (as, s1)" by fastforce
  obtain r where "supervised h ?lim d (child_environment cfg h (cp_environment (sc_capabilities call))) = Some r"
    using supervised_returns [OF assms] by blast
  with Inr a assess_scratch [OF a] show ?thesis by (auto simp: execute_process_def Let_def)
qed (auto simp: execute_process_def)


definition ex_host :: "string host" where
  "ex_host = \<lparr>ho_posix = True, ho_has_memory_limit = True, ho_has_cpu_limit = True, ho_accepts_memory = (\<lambda>m. 512 \<le> m),
     ho_accepts_cpu = (\<lambda>c. True), ho_probe_runs = True, ho_path = None, ho_exists = (\<lambda>p. True), ho_scratch = ''/tmp/x'',
     ho_starts = True, ho_accepts_input = True, ho_start = 0,
     ho_ticks = (\<lambda>d env n. \<lparr>tk_now = int n * 1000000, tk_out = ed_implementation_id d, tk_err = [], tk_exited = (n = 1),
                             tk_rest_out = [], tk_rest_err = []\<rparr>),
     ho_end = 2000, ho_loads = (\<lambda>t. Decoded \<lparr>pl_success = True, pl_output = Some t, pl_error_type = None\<rparr>), ho_digest = (\<lambda>t. t)\<rparr>"

definition ex_call :: sandbox_call where
  "ex_call = \<lparr>sc_tool = fst (ex_tool ''1.0''), sc_parameters = Params [], sc_capabilities = ex_caps,
     sc_provenance = \<lparr>pv_grant_id = ''g'', pv_agent_id = ''a'', pv_session_id = ''s'', pv_request_id = ''q'', pv_tool_id = ''file_read'',
       pv_tool_version = ''1.0'', pv_implementation_id = ''i''\<rparr>, sc_implementation_id = ''i'', sc_tool_version = ''1.0''\<rparr>"

definition fresh_sandbox :: sandbox_state where
  "fresh_sandbox = \<lparr>sb_cache = [], sb_scratch = []\<rparr>"

lemma ex_clock: "clock_advances ex_host (cp_resources (sc_capabilities ex_call))"
  unfolding clock_advances_def by (intro allI exI [of _ 10]) (simp add: ex_host_def ex_call_def ex_caps_def ex_limits_def)


subsection \<open>Controls before the workload\<close>

definition cache_sound :: "'o host \<Rightarrow> sandbox_state \<Rightarrow> bool" where
  "cache_sound h s \<longleftrightarrow> (\<forall>m c as. dget (sb_cache s) (m, c) = Some as \<longrightarrow> as = assess_fresh h m c)"

lemma assess_sound:
  assumes "cache_sound h s" and "assess_resource_controls h m c s = (as, s')"
  shows "as = assess_fresh h m c \<and> cache_sound h s'"
  using assms by (auto simp: assess_resource_controls_def cache_sound_def Let_def split: option.splits if_splits)

text \<open>A workload that was started: what had been established by then.\<close>

definition limits_in_force :: "'o host \<Rightarrow> resource_limits \<Rightarrow> bool" where
  "limits_in_force h lim \<longleftrightarrow>
     (''memory'' \<in> set (lim_required_controls lim) \<longrightarrow> ho_has_memory_limit h \<and> ho_accepts_memory h (lim_max_memory_bytes lim))
     \<and> (''cpu'' \<in> set (lim_required_controls lim) \<longrightarrow> ho_has_cpu_limit h \<and> ho_accepts_cpu h (cpu_ceiling (lim_max_cpu lim)))"

lemma nothing_blocks:
  assumes "ho_posix h" and "blocking required (assess_fresh h m c) = []"
  shows "ho_probe_runs h" "probe_memory h m \<noteq> CONTROL_FAILED" "probe_cpu h c \<noteq> CONTROL_FAILED"
    "''memory'' \<in> set required \<Longrightarrow> probe_memory h m = ENFORCED" "''cpu'' \<in> set required \<Longrightarrow> probe_cpu h c = ENFORCED"
  using assms by (auto simp: blocking_def assess_fresh_def split: if_splits) (metis control_outcome.exhaust)+

lemma started_controls:
  assumes "execute_process cfg h call scratch s = Some (Inr q, s')" and "cache_sound h s" and "ho_posix h"
  shows "limits_in_force h (cp_resources (sc_capabilities call)) \<and> cache_sound h s'"
proof -
  let ?lim = "cp_resources (sc_capabilities call)"
  obtain d where d: "descriptor_for call scratch = Inr d"
    using assms(1) by (cases "descriptor_for call scratch") (simp_all add: execute_process_def)
  obtain as s1 where a: "assess_resource_controls h (lim_max_memory_bytes ?lim) (lim_max_cpu ?lim) s = (as, s1)" by fastforce
  note as = assess_sound [OF assms(2) a]
  have "blocking (lim_required_controls ?lim) as = []" "s' = s1"
    using assms(1) d a by (auto simp: execute_process_def Let_def split: if_splits)
  with as nothing_blocks [OF assms(3), of "lim_required_controls ?lim" "lim_max_memory_bytes ?lim" "lim_max_cpu ?lim"] show ?thesis
    by (auto simp: limits_in_force_def probe_memory_def probe_cpu_def split: if_splits)
qed



text \<open>
  The environment of the child is not an allowlist: a capability may set the search path of the interpreter, which the
  sandbox relies on to find its own runner, and the switch of the verification handlers.
\<close>

lemma environment_overrides_platform:
  "dget (child_environment cfg h [(''PYTHONPATH'', v), (''EASP_SANDBOX_TESTING_HANDLERS'', ''1'')]) ''PYTHONPATH'' = Some v"
  "dget (child_environment cfg h [(''PYTHONPATH'', v), (''EASP_SANDBOX_TESTING_HANDLERS'', ''1'')]) ''EASP_SANDBOX_TESTING_HANDLERS'' = Some ''1''"
  "\<not> blocked_key ''PYTHONPATH'' \<and> \<not> blocked_key ''EASP_SANDBOX_TESTING_HANDLERS''"
proof -
  have low: "map lower_char ''PYTHONPATH'' = ''pythonpath''" "map lower_char ''EASP_SANDBOX_TESTING_HANDLERS'' = ''easp_sandbox_testing_handlers''"
    by code_simp+
  show "dget (child_environment cfg h [(''PYTHONPATH'', v), (''EASP_SANDBOX_TESTING_HANDLERS'', ''1'')]) ''PYTHONPATH'' = Some v"
    "dget (child_environment cfg h [(''PYTHONPATH'', v), (''EASP_SANDBOX_TESTING_HANDLERS'', ''1'')]) ''EASP_SANDBOX_TESTING_HANDLERS'' = Some ''1''"
    unfolding child_environment_def add_variables.simps low by (simp_all add: blocked_proxy_def)
  show "\<not> blocked_key ''PYTHONPATH'' \<and> \<not> blocked_key ''EASP_SANDBOX_TESTING_HANDLERS''" by code_simp
qed

end
