(* ===== verification/Sandbox_Runner.thy ===== *)
theory Sandbox_Runner
  imports Process_Sandbox
begin

section \<open>Inside the sandbox\<close>

text \<open>
  \<^verbatim>\<open>app/runtime/sandbox/runner.py\<close> and \<^verbatim>\<open>registry.py\<close> with \<^verbatim>\<open>app/tools/file_read_tool.py\<close> and
  \<^verbatim>\<open>directory_list_tool.py\<close>: what the child process does with a descriptor. The disk is a parameter: the file system of
  \<open>Filesystem_Identity\<close>, path resolution, and what reading a file or listing a directory gives. The active guard sees the
  audited calls of a tool: opening a file, and every directory listing, those of the path resolver included. An
  implementation outside the default registry (the verification handlers the environment can switch on) is the argument
  \<open>extra\<close>. \<open>Inl\<close> of \<open>run_headless\<close> is a runner that dies without writing a result. The tools open no connection, so the network
  guard has nothing to judge here.
\<close>

datatype tool_output = TextOutput string | NamesOutput "string list"

record disk =
  dk_fs :: fsys
  dk_realpath :: realpath
  dk_is_file :: "path \<Rightarrow> bool"
  dk_read :: "path \<Rightarrow> string res"
  dk_list :: "path \<Rightarrow> string list res"

definition readable :: "disk \<Rightarrow> filesystem_guard \<Rightarrow> path \<Rightarrow> bool" where
  "readable k g p \<longleftrightarrow> check_access (dk_realpath k) g (TargetText (path_text p)) False = Inr ()"

definition guarded_fs :: "disk \<Rightarrow> filesystem_guard \<Rightarrow> fsys" where
  "guarded_fs k g = (dk_fs k)\<lparr>fy_scandir := (\<lambda>p. if readable k g p then fy_scandir (dk_fs k) p else None)\<rparr>"

definition target_path :: "disk \<Rightarrow> filesystem_guard \<Rightarrow> path \<Rightarrow> py_value \<Rightarrow> path res" where
  "target_path k g root v = (case v of PyStr s \<Rightarrow> resolve_for_execution (guarded_fs k g) root s | PyOther \<Rightarrow> identity_error)"

definition read_tool :: "disk \<Rightarrow> filesystem_guard \<Rightarrow> path \<Rightarrow> py_value \<Rightarrow> tool_output res" where
  "read_tool k g root v =
     res_bind (target_path k g root v) (\<lambda>p.
       if \<not> fy_exists (dk_fs k) p then Inl (OtherError ''FileNotFoundError'')
       else if \<not> dk_is_file k p then Inl ValueError
       else if \<not> readable k g p then Inl PermissionError
       else res_bind (dk_read k p) (\<lambda>t. Inr (TextOutput t)))"

definition list_tool :: "disk \<Rightarrow> filesystem_guard \<Rightarrow> path \<Rightarrow> py_value \<Rightarrow> tool_output res" where
  "list_tool k g root v =
     res_bind (target_path k g root v) (\<lambda>p.
       if \<not> fy_exists (dk_fs k) p then Inl (OtherError ''FileNotFoundError'')
       else if \<not> fy_is_dir (dk_fs k) p then Inl ValueError
       else if \<not> readable k g p then Inl PermissionError
       else res_bind (dk_list k p) (\<lambda>names. Inr (NamesOutput (sort names))))"

definition path_argument :: "raw_parameters \<Rightarrow> py_value res" where
  "path_argument ps =
     (case ps of
        Params l \<Rightarrow> (case dget l (PyStr ''path'') of Some v \<Rightarrow> Inr v | None \<Rightarrow> Inl KeyError)
      | _ \<Rightarrow> Inl KeyError)"

definition require_workspace_root :: "string \<Rightarrow> string res" where
  "require_workspace_root w = (if w = [] then Inl PermissionError else Inr w)"

type_synonym implementation = "disk \<Rightarrow> filesystem_guard \<Rightarrow> string \<Rightarrow> raw_parameters \<Rightarrow> tool_output res"

definition run_file_read :: implementation where
  "run_file_read k g w ps =
     res_bind (require_workspace_root w) (\<lambda>workspace.
     res_bind (new_resolver (guarded_fs k g) workspace) (\<lambda>root.
     res_bind (path_argument ps) (read_tool k g root)))"

definition run_directory_list :: implementation where
  "run_directory_list k g w ps =
     res_bind (require_workspace_root w) (\<lambda>workspace.
     res_bind (new_resolver (guarded_fs k g) workspace) (\<lambda>root.
     res_bind (path_argument ps) (list_tool k g root)))"

definition default_execution_registry :: "(string, implementation) dict" where
  "default_execution_registry = [(''file_read_v1'', run_file_read), (''directory_list_v1'', run_directory_list)]"

definition registry_register :: "string \<Rightarrow> implementation \<Rightarrow> (string, implementation) dict \<Rightarrow> (string, implementation) dict" where
  "registry_register i f reg = dset i f reg"

definition registry_resolve :: "(string, implementation) dict \<Rightarrow> string \<Rightarrow> implementation res" where
  "registry_resolve reg i = (case dget reg i of Some f \<Rightarrow> Inr f | None \<Rightarrow> Inl KeyError)"

definition has_implementation :: "(string, implementation) dict \<Rightarrow> string \<Rightarrow> bool" where
  "has_implementation reg i \<longleftrightarrow> dget reg i \<noteq> None"

datatype child_input = EmptyInput | MalformedInput | Received exec_descriptor

fun class_name :: "exn \<Rightarrow> string" where
  "class_name ValueError = ''ValueError''"
| "class_name KeyError = ''KeyError''"
| "class_name PermissionError = ''PermissionError''"
| "class_name FilesystemResourceIdentityError = ''FilesystemResourceIdentityError''"
| "class_name (OtherError n) = n"
| "class_name _ = ''Exception''"

definition error_payload :: "string \<Rightarrow> tool_output payload" where
  "error_payload name = \<lparr>pl_success = False, pl_output = None, pl_error_type = Some name\<rparr>"

definition guard_for :: "disk \<Rightarrow> string list \<Rightarrow> exec_descriptor \<Rightarrow> filesystem_guard res" where
  "guard_for k interpreter_dirs d =
     (let fc = ed_filesystem d
      in new_filesystem_guard (dk_realpath k) interpreter_dirs (fc_workspace_root fc) (fc_allowed_subpaths fc) (fc_read_only fc)
           (fc_allow_temp_writes fc) (ed_scratch_dir d) None)"

definition run_headless :: "disk \<Rightarrow> string list \<Rightarrow> (string, implementation) dict \<Rightarrow> child_input \<Rightarrow> tool_output payload res" where
  "run_headless k interpreter_dirs extra inp =
     (case inp of
        EmptyInput \<Rightarrow> Inr (error_payload ''EmptyInputError'')
      | MalformedInput \<Rightarrow> Inr (error_payload ''DescriptorParseError'')
      | Received d \<Rightarrow>
          (case registry_resolve (fold (\<lambda>(i, f). registry_register i f) extra default_execution_registry) (ed_implementation_id d) of
             Inl _ \<Rightarrow> Inr (error_payload ''ImplementationNotFoundError'')
           | Inr f \<Rightarrow>
               res_bind (guard_for k interpreter_dirs d) (\<lambda>g.
                 case f k (fs_activate g) (fc_workspace_root (ed_filesystem d)) (ed_parameters d) of
                   Inl e \<Rightarrow> Inr (error_payload (class_name e))
                 | Inr out \<Rightarrow> Inr \<lparr>pl_success = True, pl_output = Some out, pl_error_type = None\<rparr>)))"

subsection \<open>Confinement\<close>

lemma guarded_listings: "listings_ok (dk_fs k) \<Longrightarrow> listings_ok (guarded_fs k g)"
  by (auto simp: listings_ok_def guarded_fs_def split: if_splits)

lemma guarded_resolver:
  "new_resolver (guarded_fs k g) w = Inr root \<longleftrightarrow> fy_resolve (dk_fs k) (posix_parts w) = Some root \<and> fy_is_dir (dk_fs k) root"
  by (auto simp: new_resolver_def guarded_fs_def split: option.splits if_splits)

lemma target_below:
  assumes "listings_ok (dk_fs k)" and "target_path k g root v = Inr p"
  shows "below root p"
proof (cases v)
  case (PyStr s)
  then have "resolve_existing (guarded_fs k g) root (root @ path_parts s) = Inr p"
    using assms(2) by (auto simp: target_path_def resolve_for_execution_def res_bind_Inr split: if_splits)
  with resolve_existing_below [OF guarded_listings [OF assms(1)]] show ?thesis by blast
qed (use assms(2) in \<open>simp add: target_path_def\<close>)

text \<open>What a tool may hand out: the content of a readable file, or the names in a readable directory, of the workspace.\<close>

definition confined_output :: "disk \<Rightarrow> filesystem_guard \<Rightarrow> string \<Rightarrow> tool_output \<Rightarrow> bool" where
  "confined_output k g w out \<longleftrightarrow>
     (\<exists>root p. fy_resolve (dk_fs k) (posix_parts w) = Some root \<and> below root p \<and> readable k g p
        \<and> (case out of TextOutput t \<Rightarrow> dk_is_file k p \<and> dk_read k p = Inr t
           | NamesOutput ns \<Rightarrow> fy_is_dir (dk_fs k) p \<and> (\<exists>l. dk_list k p = Inr l \<and> ns = sort l)))"

lemma tools_confined:
  assumes "listings_ok (dk_fs k)" and "new_resolver (guarded_fs k g) w = Inr root"
  shows "read_tool k g root v = Inr out \<Longrightarrow> confined_output k g w out" "list_tool k g root v = Inr out \<Longrightarrow> confined_output k g w out"
proof -
  assume "read_tool k g root v = Inr out"
  then obtain p t where "target_path k g root v = Inr p" "dk_is_file k p" "readable k g p" "dk_read k p = Inr t" "out = TextOutput t"
    by (auto simp: read_tool_def res_bind_Inr split: if_splits)
  with target_below [OF assms(1)] assms(2) show "confined_output k g w out"
    by (force simp: confined_output_def guarded_resolver)
next
  assume "list_tool k g root v = Inr out"
  then obtain p l where "target_path k g root v = Inr p" "fy_is_dir (dk_fs k) p" "readable k g p" "dk_list k p = Inr l" "out = NamesOutput (sort l)"
    by (auto simp: list_tool_def res_bind_Inr split: if_splits)
  with target_below [OF assms(1)] assms(2) show "confined_output k g w out"
    by (force simp: confined_output_def guarded_resolver)
qed

lemma default_confined:
  assumes "registry_resolve default_execution_registry i = Inr f" and "listings_ok (dk_fs k)" and "f k g w ps = Inr out"
  shows "confined_output k g w out"
  using assms tools_confined [OF assms(2)]
  by (auto simp: registry_resolve_def default_execution_registry_def run_file_read_def run_directory_list_def res_bind_Inr
      require_workspace_root_def split: if_splits)

text \<open>
  (C8) What leaves the sandbox comes from the workspace. With the default registry, whatever descriptor the runner receives, a
  successful result is the content of a file, or the sorted names of a directory, that lies inside the resolved workspace root of the
  descriptor's own capability, and that the active guard of the capability lets the tool read. Everything else is an error
  result without output.
\<close>

theorem output_comes_from_workspace:
  assumes "run_headless k dirs [] inp = Inr pl" and "listings_ok (dk_fs k)"
  shows "if pl_success pl
    then \<exists>d g out. inp = Received d \<and> guard_for k dirs d = Inr g \<and> pl_output pl = Some out
      \<and> ed_implementation_id d \<in> {''file_read_v1'', ''directory_list_v1''}
      \<and> confined_output k (fs_activate g) (fc_workspace_root (ed_filesystem d)) out
    else pl_output pl = None \<and> pl_error_type pl \<noteq> None"
proof (cases inp)
  case (Received d)
  show ?thesis
  proof (cases "registry_resolve default_execution_registry (ed_implementation_id d)")
    case (Inl e)
    with assms(1) Received show ?thesis by (auto simp: run_headless_def error_payload_def)
  next
    case (Inr f)
    then have i: "ed_implementation_id d \<in> {''file_read_v1'', ''directory_list_v1''}"
      by (auto simp: registry_resolve_def default_execution_registry_def split: if_splits)
    obtain g where g: "guard_for k dirs d = Inr g"
      using assms(1) Received Inr by (auto simp: run_headless_def res_bind_Inr)
    show ?thesis
    proof (cases "f k (fs_activate g) (fc_workspace_root (ed_filesystem d)) (ed_parameters d)")
      case (Inl e)
      with assms(1) Received Inr g show ?thesis by (auto simp: run_headless_def error_payload_def)
    next
      case out: (Inr out)
      with default_confined [OF Inr assms(2) out] assms(1) Received Inr g i show ?thesis by (auto simp: run_headless_def)
    qed
  qed
qed (use assms(1) in \<open>auto simp: run_headless_def error_payload_def\<close>)

definition ex_disk :: disk where
  "ex_disk = \<lparr>dk_fs = ex_fsys, dk_realpath = ex_realpath, dk_is_file = (\<lambda>p. p = [''/'', ''w'', ''a'']),
     dk_read = (\<lambda>p. Inr ''text''), dk_list = (\<lambda>p. Inr [])\<rparr>"

definition ex_received :: exec_descriptor where
  "ex_received = \<lparr>ed_tool_id = ''file_read'', ed_tool_version = ''1.0'', ed_implementation_id = ''file_read_v1'',
     ed_parameters = Params [(PyStr ''path'', PyStr ''a'')], ed_provenance = sc_provenance ex_call,
     ed_filesystem = ex_fs\<lparr>fc_allowed_subpaths := []\<rparr>, ed_scratch_dir = None, ed_network = ex_net\<rparr>"

theorem output_comes_from_workspace_witness:
  "\<exists>g. guard_for ex_disk [] ex_received = Inr g \<and> confined_output ex_disk (fs_activate g) ''/w'' (TextOutput ''text'')"
proof -
  have "map_sum id (\<lambda>pl. (pl_success pl, pl_output pl)) (run_headless ex_disk [] [] (Received ex_received)) = Inr (True, Some (TextOutput ''text''))"
    by code_simp
  then obtain pl where pl: "run_headless ex_disk [] [] (Received ex_received) = Inr pl" "pl_success pl" "pl_output pl = Some (TextOutput ''text'')"
    by (cases "run_headless ex_disk [] [] (Received ex_received)") auto
  have "listings_ok (dk_fs ex_disk)" using ex_listings(1) by (simp add: ex_disk_def)
  from output_comes_from_workspace [OF pl(1) this] pl(2,3) show ?thesis by (auto simp: ex_received_def ex_fs_def)
qed

end
