(* ===== verification/Coordinator.thy ===== *)
theory Coordinator
  imports Platform
begin

section \<open>Recovery from containment\<close>

text \<open>
  \<^verbatim>\<open>app/services/enforcement_coordinator.py\<close>: \<open>reinstate\<close> and \<open>repair\<close>, each run under the agent's
  coordination lock (\<^verbatim>\<open>app/services/agent_lock_manager.py\<close>) and therefore one step with respect to
  the other operations on that agent. \<open>wiring\<close> says which optional collaborators the coordinator
  was given.
\<close>

record wiring =
  wi_findings :: bool
  wi_risk :: bool
  wi_sessions :: bool

record recovery_env =
  rv_baseline_at :: instant
  rv_agent_env :: env
  rv_risk_now :: instant

definition capture_watermark :: "wiring \<Rightarrow> recovery_env \<Rightarrow> string \<Rightarrow> platform \<Rightarrow> watermark" where
  "capture_watermark w v aid p =
     \<lparr>wm_agent_id = aid, wm_baseline_at = Some (rv_baseline_at v),
      wm_evidence_sequence =
        (if wi_findings w then capture_evidence_baseline_sequence (pf_findings p) aid (rv_baseline_at v) else 0),
      wm_agent_sequence = (if wi_sessions w then current_agent_sequence (pf_sessions p) aid else 0)\<rparr>"

definition reset_projection :: "wiring \<Rightarrow> instant \<Rightarrow> watermark \<Rightarrow> (platform, unit) eff" where
  "reset_projection w now wm =
     (if wi_risk w then and_then (on_risk (aggregator_reset_to_baseline now wm)) (\<lambda>_. ok ()) else ok ())"

definition reopen :: "string \<Rightarrow> platform \<Rightarrow> platform" where
  "reopen aid p = p\<lparr>pf_authority := resume_issuance aid PLANE_ENFORCEMENT (pf_authority p)\<rparr>"

definition reinstate :: "wiring \<Rightarrow> recovery_env \<Rightarrow> string \<Rightarrow> string \<Rightarrow> string \<Rightarrow> (platform, agent) eff" where
  "reinstate w v aid act reason p0 =
     (let wm = capture_watermark w v aid p0
      in and_then (on_agents (reinstate_agent (rv_agent_env v) aid act reason (Some wm))) (\<lambda>a.
         and_then (reset_projection w (rv_risk_now v) wm) (\<lambda>_ p.
         let p1 = reopen aid p
         in case get_enforcement_state (pf_agents p1) aid of
              Inl e \<Rightarrow> (Inl e, p1)
            | Inr st \<Rightarrow>
                if es_suspended_at st \<noteq> None \<or> PLANE_ENFORCEMENT \<in> issuance_closed_planes (pf_authority p1) aid
                then (Inl ReinstatementIncompleteError, p1)
                else (Inr a, p1))) p0)"

definition repair :: "wiring \<Rightarrow> recovery_env \<Rightarrow> string \<Rightarrow> (platform, agent) eff" where
  "repair w v aid p0 =
     (case get_agent (pf_agents p0) aid of
        Inl e \<Rightarrow> (Inl e, p0)
      | Inr a \<Rightarrow>
          (case get_enforcement_state (pf_agents p0) aid of
             Inl e \<Rightarrow> (Inl e, p0)
           | Inr st \<Rightarrow>
               if es_suspended_at st \<noteq> None then (Inl ReinstatementIncompleteError, p0)
               else and_then (reset_projection w (rv_risk_now v)
                        \<lparr>wm_agent_id = aid, wm_baseline_at = es_baseline_at st,
                         wm_evidence_sequence = es_baseline_evidence_sequence st,
                         wm_agent_sequence = es_baseline_agent_sequence st\<rparr>)
                      (\<lambda>_ p. let p1 = reopen aid p
                             in if issuance_suspended (pf_authority p1) aid
                                then (Inl ReinstatementIncompleteError, p1) else (Inr a, p1)) p0))"

subsection \<open>What recovery does to each store\<close>

definition fresh_posture :: "watermark \<Rightarrow> posture \<Rightarrow> bool" where
  "fresh_posture wm po \<longleftrightarrow> po_state po = HEALTHY \<and> po_risk_score po = 0 \<and> po_risk_level po = RL_LOW
     \<and> po_finding_count po = 0 \<and> po_baseline_at po = wm_baseline_at wm
     \<and> po_baseline_sequence po = wm_evidence_sequence wm \<and> po_last_applied po = wm_evidence_sequence wm"

lemma aggregator_reset:
  obtains po g where "aggregator_reset_to_baseline now wm g0 = (Inr po, g)" "fresh_posture wm po"
    "\<And>t. get_posture t g (wm_agent_id wm) = Inr po"
proof -
  obtain a g1 where e: "ensure_projection now (wm_agent_id wm) wm g0 = (Inr a, g1)"
    by (cases "dget (ra_projections g0) (wm_agent_id wm)")
      (auto simp: ensure_projection_def new_aggregate_def assert_cursor_invariant_def Let_def)
  let ?a = "snd (reset_to_baseline now wm a)"
  let ?g = "g1\<lparr>ra_projections := dset (wm_agent_id wm) ?a (ra_projections g1)\<rparr>"
  obtain po where po: "snapshot ?a = Inr po" "fresh_posture wm po"
    by (simp add: snapshot_def reset_to_baseline_def assert_cursor_invariant_def fresh_posture_def Let_def)
  have "fst (reset_to_baseline now wm a) = Inr ()"
    using aggregate_inv_reset [of now wm a] by (metis prod.collapse)
  then have "aggregator_reset_to_baseline now wm g0 = (Inr po, ?g)"
    using e po(1) by (simp add: aggregator_reset_to_baseline_def and_then_def Let_def split_beta)
  then show ?thesis by (rule that) (simp_all add: po get_posture_def)
qed

lemma reset_projection_run:
  obtains g where "reset_projection w now wm p = (Inr (), p\<lparr>pf_risk := g\<rparr>)"
    "wi_risk w \<Longrightarrow> \<exists>po. fresh_posture wm po \<and> (\<forall>t. get_posture t g (wm_agent_id wm) = Inr po)"
proof (cases "wi_risk w")
  case True
  obtain po g where g: "aggregator_reset_to_baseline now wm (pf_risk p) = (Inr po, g)" "fresh_posture wm po"
    "\<And>t. get_posture t g (wm_agent_id wm) = Inr po"
    by (rule aggregator_reset) blast
  show ?thesis
  proof (rule that [of g])
    show "reset_projection w now wm p = (Inr (), p\<lparr>pf_risk := g\<rparr>)"
      using True g(1) by (simp add: reset_projection_def and_then_def on_risk_def)
  qed (use g in blast)
next
  case False
  then show ?thesis by (intro that [of "pf_risk p"]) (simp_all add: reset_projection_def)
qed

lemma reopen_planes:
  "issuance_closed_planes (pf_authority (reopen aid p)) aid = issuance_closed_planes (pf_authority p) aid - {PLANE_ENFORCEMENT}"
  by (auto simp: reopen_def resume_closed)

lemma reopen_agents [simp]: "pf_agents (reopen aid p) = pf_agents p" "pf_risk (reopen aid p) = pf_risk p"
  by (simp_all add: reopen_def)

lemma enforcement_after_commit:
  assumes "enforcement_record_transition t ns e r = (Inr True, q)" and "er_fault r = None"
  shows "enforcement_get_state q (et_agent_id t) = Inr (Some ns)"
    and "k \<noteq> et_agent_id t \<Longrightarrow> enforcement_get_state q k = enforcement_get_state r k"
  using assms by (auto simp: enforcement_record_transition_def enforcement_get_state_def Let_def split: if_splits)


definition ex_stores :: "agent_service \<Rightarrow> platform" where
  "ex_stores s = \<lparr>pf_agents = s, pf_authority = snd (suspend_issuance ''a'' PLANE_ENFORCEMENT ex_authority),
     pf_findings = ex_store, pf_risk = \<lparr>ra_projections = [], ra_vocabulary = default_rule_vocabulary\<rparr>,
     pf_sessions = empty_session_repo, pf_tools = [], pf_registry = [], pf_profiles = [],
     pf_evidence = sample_store, pf_audit = []\<rparr>"

definition full_wiring :: wiring where
  "full_wiring = \<lparr>wi_findings = True, wi_risk = True, wi_sessions = True\<rparr>"

definition ex_recovery :: recovery_env where
  "ex_recovery = \<lparr>rv_baseline_at = 20, rv_agent_env = ex_env, rv_risk_now = 21\<rparr>"


subsection \<open>Repair\<close>

text \<open>
  Repair reads the stored baseline and resets the projection to it: the posture it leaves carries no risk at all,
  whatever findings the store holds for the agent after that baseline, and the store itself is not changed.
\<close>

lemma repair_run:
  assumes "repair w v aid p = (Inr a, p')"
  shows "get_agent (pf_agents p) aid = Inr a \<and> pf_agents p' = pf_agents p \<and> pf_findings p' = pf_findings p
    \<and> issuance_closed_planes (pf_authority p') aid = {}
    \<and> (\<exists>wm. get_current_baseline (pf_agents p) aid = Inr wm
         \<and> (wi_risk w \<longrightarrow> (\<exists>po. fresh_posture wm po \<and> (\<forall>t. get_posture t (pf_risk p') aid = Inr po))))"
proof -
  obtain b st where b: "get_agent (pf_agents p) aid = Inr b" and st: "get_enforcement_state (pf_agents p) aid = Inr st"
    "es_suspended_at st = None"
    using assms by (auto simp: repair_def split: sum.splits if_splits)
  define wm where "wm = \<lparr>wm_agent_id = aid, wm_baseline_at = es_baseline_at st,
    wm_evidence_sequence = es_baseline_evidence_sequence st, wm_agent_sequence = es_baseline_agent_sequence st\<rparr>"
  have base: "get_current_baseline (pf_agents p) aid = Inr wm" using st by (simp add: get_current_baseline_def wm_def)
  obtain g where g: "reset_projection w (rv_risk_now v) wm p = (Inr (), p\<lparr>pf_risk := g\<rparr>)"
    "wi_risk w \<Longrightarrow> \<exists>po. fresh_posture wm po \<and> (\<forall>t. get_posture t g (wm_agent_id wm) = Inr po)"
    by (rule reset_projection_run [of w "rv_risk_now v" wm p]) simp
  have "(if issuance_suspended (pf_authority (reopen aid (p\<lparr>pf_risk := g\<rparr>))) aid
         then (Inl ReinstatementIncompleteError, reopen aid (p\<lparr>pf_risk := g\<rparr>))
         else (Inr b, reopen aid (p\<lparr>pf_risk := g\<rparr>))) = (Inr a, p')"
    using assms b st g(1) by (simp add: repair_def and_then_def Let_def wm_def [symmetric])
  then have p': "\<not> issuance_suspended (pf_authority p') aid" "p' = reopen aid (p\<lparr>pf_risk := g\<rparr>)" "a = b"
    by (auto split: if_splits)
  have "wm_agent_id wm = aid" by (simp add: wm_def)
  with p' b base g(2) show ?thesis by (auto simp: issuance_suspended_def reopen_def)
qed

text \<open>
  Repair loses evidence. The findings of this agent after its baseline amount to a \<open>CRITICAL\<close> posture, which is
  what reconciliation computes from the store; after a repair that reports success the posture is healthy
  with score 0, so the next request is assessed as if those findings had not been recorded.
\<close>

theorem repair_forgets_evidence:
  "\<exists>p. service_inv (pf_agents p)
     \<and> map_sum id (\<lambda>po. (po_state po, po_risk_level po))
          (fst (reconcile_agent 30 ''a'' (dvals (fs_findings (pf_findings p)))
             (projr (get_current_baseline (pf_agents p) ''a'')) (pf_risk p))) = Inr (HEALTHY, RL_CRITICAL)
     \<and> (\<exists>a p'. repair full_wiring ex_recovery ''a'' p = (Inr a, p') \<and> pf_findings p' = pf_findings p
          \<and> map_sum id (\<lambda>po. (po_state po, po_risk_score po)) (get_posture 31 (pf_risk p') ''a'') = Inr (HEALTHY, 0))"
proof (intro exI conjI)
  let ?p = "ex_stores ex_active"
  show "service_inv (pf_agents ?p)"
    using service_inv_reachable [OF ex_reachable(1)] by (simp add: ex_stores_def)
  show "map_sum id (\<lambda>po. (po_state po, po_risk_level po))
          (fst (reconcile_agent 30 ''a'' (dvals (fs_findings (pf_findings ?p)))
             (projr (get_current_baseline (pf_agents ?p) ''a'')) (pf_risk ?p))) = Inr (HEALTHY, RL_CRITICAL)"
    by code_simp
  have "isl (fst (repair full_wiring ex_recovery ''a'' ?p)) = False" by code_simp
  then show run: "repair full_wiring ex_recovery ''a'' ?p =
      (Inr (projr (fst (repair full_wiring ex_recovery ''a'' ?p))), snd (repair full_wiring ex_recovery ''a'' ?p))"
    by (metis prod.collapse sum.collapse(2))
  show "pf_findings (snd (repair full_wiring ex_recovery ''a'' ?p)) = pf_findings ?p"
    using repair_run [OF run] by simp
  show "map_sum id (\<lambda>po. (po_state po, po_risk_score po))
      (get_posture 31 (pf_risk (snd (repair full_wiring ex_recovery ''a'' ?p))) ''a'') = Inr (HEALTHY, 0)"
    by code_simp
qed

text \<open>An agent whose administrative plane is closed cannot be repaired, although only the enforcement plane is its business.\<close>

lemma repair_blocked_by_other_plane:
  assumes "PLANE_ADMINISTRATIVE \<in> issuance_closed_planes (pf_authority p) aid"
  shows "fst (repair w v aid p) \<noteq> Inr a"
proof
  assume "fst (repair w v aid p) = Inr a"
  then obtain p' where run: "repair w v aid p = (Inr a, p')" by (metis prod.collapse)
  obtain st where st: "get_agent (pf_agents p) aid = Inr a" "get_enforcement_state (pf_agents p) aid = Inr st"
    "es_suspended_at st = None"
    using run repair_run [OF run] by (auto simp: repair_def split: sum.splits if_splits)
  obtain g where g: "reset_projection w (rv_risk_now v) \<lparr>wm_agent_id = aid, wm_baseline_at = es_baseline_at st,
      wm_evidence_sequence = es_baseline_evidence_sequence st, wm_agent_sequence = es_baseline_agent_sequence st\<rparr> p
      = (Inr (), p\<lparr>pf_risk := g\<rparr>)"
    by (rule reset_projection_run [of w "rv_risk_now v"])
  have "PLANE_ADMINISTRATIVE \<in> issuance_closed_planes (pf_authority (reopen aid (p\<lparr>pf_risk := g\<rparr>))) aid"
    using assms by (simp add: reopen_planes)
  then have "issuance_suspended (pf_authority (reopen aid (p\<lparr>pf_risk := g\<rparr>))) aid"
    by (auto simp: issuance_suspended_def)
  with run st g show False by (simp add: repair_def and_then_def Let_def)
qed

end
