(* ===== verification/Policy.thy ===== *)
theory Policy
  imports Agent_Service Tools
begin

section \<open>Policy and authorization\<close>

text \<open>
  \<^verbatim>\<open>app/policy/policy_engine.py\<close> and \<^verbatim>\<open>app/auth/authorization_service.py\<close> with the check and
  result records of \<^verbatim>\<open>app/models/authorization_result.py\<close>. The human readable reasons are not
  modelled; the status, the code and the details of every check are.
\<close>

subsection \<open>Checks and results\<close>

datatype check_status = CK_PASSED | CK_FAILED | CK_NOT_EVALUATED

record authorization_check =
  ck_status :: check_status
  ck_code :: "lifecycle_refusal_code option"
  ck_details :: "(string, string) dict"

definition passed :: "(string, string) dict \<Rightarrow> authorization_check" where
  "passed d = \<lparr>ck_status = CK_PASSED, ck_code = None, ck_details = d\<rparr>"

definition failed :: "(string, string) dict \<Rightarrow> authorization_check" where
  "failed d = \<lparr>ck_status = CK_FAILED, ck_code = None, ck_details = d\<rparr>"

definition not_evaluated_check :: "string \<Rightarrow> authorization_check" where
  "not_evaluated_check after = \<lparr>ck_status = CK_NOT_EVALUATED, ck_code = None, ck_details = [(''skipped_after'', after)]\<rparr>"

record authorization_result =
  az_decision :: decision
  az_agent_id :: string
  az_tool_id :: string
  az_resource :: "string option"
  az_agent_check :: authorization_check
  az_tool_check :: authorization_check
  az_approved_tool_check :: authorization_check
  az_status_check :: authorization_check
  az_risk_tier_check :: authorization_check
  az_resource_check :: authorization_check

fun refusal_value :: "lifecycle_refusal_code \<Rightarrow> string" where
  "refusal_value ADMINISTRATIVE_STATE_UNAVAILABLE = ''ADMINISTRATIVE_STATE_UNAVAILABLE''"
| "refusal_value ENFORCEMENT_STATE_UNAVAILABLE = ''ENFORCEMENT_STATE_UNAVAILABLE''"
| "refusal_value AGENT_DISABLED = ''AGENT_DISABLED''"
| "refusal_value AGENT_NOT_ACTIVE = ''AGENT_NOT_ACTIVE''"
| "refusal_value AGENT_SUSPENDED = ''AGENT_SUSPENDED''"

fun risk_tier_value :: "risk_tier \<Rightarrow> string" where
  "risk_tier_value RT_LOW = ''LOW''"
| "risk_tier_value RT_MEDIUM = ''MEDIUM''"
| "risk_tier_value RT_HIGH = ''HIGH''"
| "risk_tier_value RT_CRITICAL = ''CRITICAL''"

fun tool_risk_value :: "tool_risk_level \<Rightarrow> string" where
  "tool_risk_value TR_LOW = ''LOW''"
| "tool_risk_value TR_MEDIUM = ''MEDIUM''"
| "tool_risk_value TR_HIGH = ''HIGH''"
| "tool_risk_value TR_CRITICAL = ''CRITICAL''"

subsection \<open>The policy engine\<close>

record policy_result =
  pr_decision :: decision
  pr_status_check :: authorization_check
  pr_risk_tier_check :: authorization_check
  pr_resource_check :: authorization_check

definition protected_resources :: "string set" where
  "protected_resources = {''secrets.txt''}"

definition evaluate_policy ::
  "agent \<Rightarrow> tool_family_governance \<Rightarrow> string option \<Rightarrow> lifecycle_refusal_code option \<Rightarrow> policy_result" where
  "evaluate_policy a tool resource refusal =
     (case refusal of
        Some code \<Rightarrow>
          \<lparr>pr_decision = DENY,
           pr_status_check = \<lparr>ck_status = CK_FAILED, ck_code = Some code,
             ck_details = [(''agent_id'', ag_id a), (''lifecycle_refusal'', refusal_value code)]\<rparr>,
           pr_risk_tier_check = not_evaluated_check ''status_check'',
           pr_resource_check = not_evaluated_check ''status_check''\<rparr>
      | None \<Rightarrow>
          let status_check = passed [(''agent_id'', ag_id a)];
              tier_details = [(''risk_tier'', risk_tier_value (ag_risk_tier a)),
                              (''tool_risk_level'', tool_risk_value (fg_risk_level tool))]
          in if ag_risk_tier a = RT_LOW \<and> fg_risk_level tool \<in> {TR_HIGH, TR_CRITICAL}
             then \<lparr>pr_decision = DENY, pr_status_check = status_check,
                   pr_risk_tier_check = failed tier_details,
                   pr_resource_check = not_evaluated_check ''risk_tier_check''\<rparr>
             else if fg_tool_id tool = ''file_read'' \<and> (\<exists>x\<in>protected_resources. resource = Some x)
             then \<lparr>pr_decision = DENY, pr_status_check = status_check,
                   pr_risk_tier_check = passed tier_details,
                   pr_resource_check = failed [(''resource'', the resource), (''tool_id'', fg_tool_id tool)]\<rparr>
             else \<lparr>pr_decision = (if fg_risk_level tool = TR_CRITICAL then APPROVAL_REQUIRED else ALLOW),
                   pr_status_check = status_check, pr_risk_tier_check = passed tier_details,
                   pr_resource_check = passed (case resource of Some x \<Rightarrow> [(''resource'', x)] | None \<Rightarrow> [])\<rparr>)"

subsection \<open>The authorization service\<close>

definition refused_at_agent ::
  "string \<Rightarrow> string \<Rightarrow> string option \<Rightarrow> authorization_result" where
  "refused_at_agent aid tid resource =
     \<lparr>az_decision = DENY, az_agent_id = aid, az_tool_id = tid, az_resource = resource,
      az_agent_check = failed [(''agent_id'', aid)],
      az_tool_check = not_evaluated_check ''agent_check'',
      az_approved_tool_check = not_evaluated_check ''agent_check'',
      az_status_check = not_evaluated_check ''agent_check'',
      az_risk_tier_check = not_evaluated_check ''agent_check'',
      az_resource_check = not_evaluated_check ''agent_check''\<rparr>"

definition evaluate :: "agent_service \<Rightarrow> tool_repo \<Rightarrow> string \<Rightarrow> string \<Rightarrow> string option \<Rightarrow> authorization_result res" where
  "evaluate s tools aid tid resource =
     (case get_agent s aid of
        Inl e \<Rightarrow>
          if e = AgentNotFoundError \<or> e = EnforcementStateUnavailableError
          then Inr (refused_at_agent aid tid resource) else Inl e
      | Inr a \<Rightarrow>
          let agent_check = passed [(''agent_id'', aid)]
          in if \<not> family_exists tools tid
             then Inr \<lparr>az_decision = DENY, az_agent_id = aid, az_tool_id = tid, az_resource = resource,
                       az_agent_check = agent_check,
                       az_tool_check = failed [(''tool_id'', tid)],
                       az_approved_tool_check = not_evaluated_check ''tool_check'',
                       az_status_check = not_evaluated_check ''tool_check'',
                       az_risk_tier_check = not_evaluated_check ''tool_check'',
                       az_resource_check = not_evaluated_check ''tool_check''\<rparr>
             else if tid \<notin> set (ag_approved_tools a)
             then Inr \<lparr>az_decision = DENY, az_agent_id = aid, az_tool_id = tid, az_resource = resource,
                       az_agent_check = agent_check, az_tool_check = passed [(''tool_id'', tid)],
                       az_approved_tool_check = failed [(''tool_id'', tid), (''agent_id'', aid)],
                       az_status_check = not_evaluated_check ''approved_tool_check'',
                       az_risk_tier_check = not_evaluated_check ''approved_tool_check'',
                       az_resource_check = not_evaluated_check ''approved_tool_check''\<rparr>
             else res_bind (get_family_governance tools tid) (\<lambda>g.
                  let p = evaluate_policy a g resource (lifecycle_refusal s aid)
                  in Inr \<lparr>az_decision = pr_decision p, az_agent_id = aid, az_tool_id = tid,
                          az_resource = resource, az_agent_check = agent_check,
                          az_tool_check = passed [(''tool_id'', tid)],
                          az_approved_tool_check = passed [(''tool_id'', tid), (''agent_id'', aid)],
                          az_status_check = pr_status_check p,
                          az_risk_tier_check = pr_risk_tier_check p,
                          az_resource_check = pr_resource_check p\<rparr>))"

definition authorize :: "agent_service \<Rightarrow> tool_repo \<Rightarrow> string \<Rightarrow> string \<Rightarrow> string option \<Rightarrow> decision res" where
  "authorize s tools aid tid resource =
     res_bind (evaluate s tools aid tid resource) (\<lambda>r. Inr (az_decision r))"

subsection \<open>Correctness\<close>

lemmas check_defs = passed_def failed_def not_evaluated_check_def

definition authorization_checks :: "authorization_result \<Rightarrow> authorization_check list" where
  "authorization_checks r =
     [az_agent_check r, az_tool_check r, az_approved_tool_check r, az_status_check r,
      az_risk_tier_check r, az_resource_check r]"

definition tier_permits :: "risk_tier \<Rightarrow> tool_risk_level \<Rightarrow> bool" where
  "tier_permits tier lvl \<longleftrightarrow> \<not> (tier = RT_LOW \<and> tool_severity TR_HIGH \<le> tool_severity lvl)"

lemma tier_permits_iff: "tier_permits tier lvl \<longleftrightarrow> \<not> (tier = RT_LOW \<and> lvl \<in> {TR_HIGH, TR_CRITICAL})"
  by (cases lvl) (simp_all add: tier_permits_def)

text \<open>What a request needs to get past every denial.\<close>

definition requestable ::
  "agent_service \<Rightarrow> tool_repo \<Rightarrow> string \<Rightarrow> string \<Rightarrow> string option \<Rightarrow> tool_family_governance \<Rightarrow> bool" where
  "requestable s tools aid tid resource g \<longleftrightarrow>
     (\<exists>a. get_agent s aid = Inr a \<and> tid \<in> set (ag_approved_tools a)
        \<and> get_family_governance tools tid = Inr g
        \<and> lifecycle_refusal s aid = None
        \<and> tier_permits (ag_risk_tier a) (fg_risk_level g)
        \<and> \<not> (tid = ''file_read'' \<and> resource = Some ''secrets.txt''))"

lemma governance_id: "get_family_governance tools tid = Inr g \<Longrightarrow> fg_tool_id g = tid"
  using family_risk_spec by blast

lemma evaluate_cases:
  assumes "evaluate s tools aid tid resource = Inr r"
  obtains (agent) "r = refused_at_agent aid tid resource" "\<And>a. get_agent s aid \<noteq> Inr a"
  | (family) a where "get_agent s aid = Inr a" "\<not> family_exists tools tid"
      "az_decision r = DENY" "map ck_status (authorization_checks r)
        = [CK_PASSED, CK_FAILED, CK_NOT_EVALUATED, CK_NOT_EVALUATED, CK_NOT_EVALUATED, CK_NOT_EVALUATED]"
  | (approved) a where "get_agent s aid = Inr a" "tid \<notin> set (ag_approved_tools a)"
      "az_decision r = DENY" "map ck_status (authorization_checks r)
        = [CK_PASSED, CK_PASSED, CK_FAILED, CK_NOT_EVALUATED, CK_NOT_EVALUATED, CK_NOT_EVALUATED]"
  | (policy) a g p where "get_agent s aid = Inr a" "tid \<in> set (ag_approved_tools a)"
      "get_family_governance tools tid = Inr g" "fg_tool_id g = tid"
      "p = evaluate_policy a g resource (lifecycle_refusal s aid)" "az_decision r = pr_decision p"
      "map ck_status (authorization_checks r)
        = [CK_PASSED, CK_PASSED, CK_PASSED, ck_status (pr_status_check p),
           ck_status (pr_risk_tier_check p), ck_status (pr_resource_check p)]"
      "az_status_check r = pr_status_check p"
proof (cases "get_agent s aid")
  case (Inl e)
  with assms show ?thesis by (intro agent) (auto simp: evaluate_def split: if_splits)
next
  case a: (Inr a)
  note run = assms [unfolded evaluate_def a, simplified, unfolded Let_def]
  consider "\<not> family_exists tools tid" | "family_exists tools tid" "tid \<notin> set (ag_approved_tools a)"
    | "family_exists tools tid" "tid \<in> set (ag_approved_tools a)" by blast
  then show ?thesis
  proof cases
    case 1
    with a run show ?thesis by (intro family) (auto simp: authorization_checks_def check_defs)
  next
    case 2
    with a run show ?thesis by (intro approved) (auto simp: authorization_checks_def check_defs)
  next
    case 3
    then obtain g where g: "get_family_governance tools tid = Inr g"
      by (auto simp: family_governance_returns)
    with a 3 run show ?thesis
      by (intro policy [of a g]) (auto simp: authorization_checks_def check_defs governance_id)
  qed
qed

lemma policy_decision:
  "pr_decision (evaluate_policy a g resource refusal) =
     (if refusal = None \<and> tier_permits (ag_risk_tier a) (fg_risk_level g)
         \<and> \<not> (fg_tool_id g = ''file_read'' \<and> resource = Some ''secrets.txt'')
      then if fg_risk_level g = TR_CRITICAL then APPROVAL_REQUIRED else ALLOW
      else DENY)"
  by (auto simp: evaluate_policy_def tier_permits_iff protected_resources_def Let_def split: option.splits)

text \<open>
  (C19) The exact outcome of authorization. A request is allowed exactly when the agent is registered
  and readable, the tool family exists and is approved for it, neither lifecycle plane refuses, the
  agent's tier permits the family's projected risk, the resource is not a protected one and the
  family is not \<open>CRITICAL\<close>; with a \<open>CRITICAL\<close> family and all the rest it waits for approval; every
  other request that is decided is denied. Nothing about a concrete version enters.
\<close>

theorem authorization_decision_exact:
  "(authorize s tools aid tid resource = Inr ALLOW \<longleftrightarrow>
      (\<exists>g. requestable s tools aid tid resource g \<and> fg_risk_level g \<noteq> TR_CRITICAL))
   \<and> (authorize s tools aid tid resource = Inr APPROVAL_REQUIRED \<longleftrightarrow>
      (\<exists>g. requestable s tools aid tid resource g \<and> fg_risk_level g = TR_CRITICAL))"
proof (cases "evaluate s tools aid tid resource")
  case (Inl e)
  then have "\<And>a. get_agent s aid = Inr a \<Longrightarrow> get_family_governance tools tid = Inr g \<Longrightarrow> False" for g
    using family_governance_returns by (fastforce simp: evaluate_def Let_def split: if_splits)
  with Inl show ?thesis by (auto simp: authorize_def requestable_def)
next
  case (Inr r)
  then have d: "authorize s tools aid tid resource = Inr (az_decision r)" by (simp add: authorize_def)
  show ?thesis
    using Inr
  proof (cases rule: evaluate_cases)
    case agent
    with d show ?thesis by (auto simp: requestable_def refused_at_agent_def)
  next
    case (family a)
    with d show ?thesis by (auto simp: requestable_def family_governance_returns)
  next
    case (approved a)
    with d show ?thesis by (auto simp: requestable_def)
  next
    case (policy a g p)
    with d show ?thesis by (auto simp: requestable_def policy_decision)
  qed
qed

text \<open>
  An authorization result is fail-closed evidence of its own decision. The six checks are evaluated
  in order: those before the first failure passed, those after it are recorded as not evaluated.
  The decision is DENY exactly when some check failed; otherwise all six passed.
\<close>

theorem authorization_result_fail_closed:
  assumes "evaluate s tools aid tid resource = Inr r"
  shows "(az_decision r = DENY \<longleftrightarrow> CK_FAILED \<in> set (map ck_status (authorization_checks r)))
   \<and> (if az_decision r = DENY
      then \<exists>n<6. map ck_status (authorization_checks r)
                 = replicate n CK_PASSED @ CK_FAILED # replicate (5 - n) CK_NOT_EVALUATED
      else map ck_status (authorization_checks r) = replicate 6 CK_PASSED)"
  using assms
proof (cases rule: evaluate_cases)
  case agent
  then show ?thesis
    by (auto simp: refused_at_agent_def authorization_checks_def check_defs numeral_eq_Suc intro!: exI [of _ 0])
next
  case (family a)
  then show ?thesis by (auto simp: numeral_eq_Suc intro!: exI [of _ 1])
next
  case (approved a)
  then show ?thesis by (auto simp: numeral_eq_Suc intro!: exI [of _ 2])
next
  case (policy a g p)
  consider (status) "az_decision r = DENY" "map ck_status (authorization_checks r)
        = [CK_PASSED, CK_PASSED, CK_PASSED, CK_FAILED, CK_NOT_EVALUATED, CK_NOT_EVALUATED]"
    | (tier) "az_decision r = DENY" "map ck_status (authorization_checks r)
        = [CK_PASSED, CK_PASSED, CK_PASSED, CK_PASSED, CK_FAILED, CK_NOT_EVALUATED]"
    | (resource) "az_decision r = DENY" "map ck_status (authorization_checks r)
        = [CK_PASSED, CK_PASSED, CK_PASSED, CK_PASSED, CK_PASSED, CK_FAILED]"
    | (pass) "az_decision r \<noteq> DENY" "map ck_status (authorization_checks r) = replicate 6 CK_PASSED"
    using policy(5-7)
    by (auto simp: evaluate_policy_def check_defs Let_def numeral_eq_Suc split: option.splits if_splits)
  then show ?thesis
  proof cases
    case status
    then show ?thesis by (auto simp: numeral_eq_Suc intro!: exI [of _ 3])
  next
    case tier
    then show ?thesis by (auto simp: numeral_eq_Suc intro!: exI [of _ 4])
  next
    case resource
    then show ?thesis by (auto simp: numeral_eq_Suc intro!: exI [of _ 5])
  next
    case pass
    then show ?thesis by simp
  qed
qed

theorem authorization_result_fail_closed_witness:
  "az_decision (refused_at_agent ''a'' ''t'' None) = DENY
   \<and> CK_FAILED \<in> set (map ck_status (authorization_checks (refused_at_agent ''a'' ''t'' None)))"
proof -
  have "evaluate empty_service [] ''a'' ''t'' None = Inr (refused_at_agent ''a'' ''t'' None)"
    by (simp add: evaluate_def empty_service_def get_agent_def)
  from authorization_result_fail_closed [OF this] show ?thesis
    by (simp add: refused_at_agent_def)
qed

end
