(* ===== verification/Runtime.thy ===== *)
theory Runtime
  imports Coordinator Policy Detection Filesystem_Identity
begin

section \<open>The runtime security pipeline\<close>

text \<open>
  \<^verbatim>\<open>RuntimeService.execute\<close> of \<^verbatim>\<open>app/services/runtime_service.py\<close> over the stores of one composition root, stage by stage
  in the order of the code: resolve the implementation, canonicalise the operation, bind the session, authorize,
  snapshot the enforcement state, record the event, detect, record and project the findings, assess the posture,
  choose the response, issue the grant, record the final decision, contain, and audit. An exception the method does not
  catch leaves with the state it has reached. Clock and uuid readings, an unavailable detection horizon and an evidence
  store that fails after accepting some findings are in \<open>runtime_env\<close>. Telemetry and the parameter hash it carries
  are not modelled. A parameter value is \<open>None\<close> where Python's is.
\<close>

subsection \<open>Data\<close>

record runtime =
  rw_mac :: mac
  rw_sha :: sha
  rw_uuid5 :: uuid5
  rw_fs :: fsys
  rw_rules :: "detection_rule list"
  rw_window :: duration
  rw_retention :: "retention_policy option"
  rw_authority :: bool
  rw_tool_service :: bool
  rw_registry :: bool

record runtime_env =
  re_bind_now :: instant
  re_event_now :: instant
  re_record_now :: instant
  re_assess_now :: instant
  re_issue_now :: instant
  re_audit_now :: instant
  re_agent_env :: env
  re_audit_uuid :: string
  re_grant_uuid :: string
  re_horizon_fault :: bool
  re_write_fault :: "nat option"

type_synonym parameters = "(py_value, py_value option) dict"

record request =
  rq_session_id :: string
  rq_agent_id :: string
  rq_tool_id :: string
  rq_resource :: "string option"
  rq_user_prompt :: string
  rq_model_output :: string
  rq_tool_output :: string
  rq_parameters :: parameters

datatype refusal = SESSION_BINDING_INVALID | POSTURE_RECONCILIATION_FAILED | HORIZON_UNAVAILABLE | EVIDENCE_RECORDING_FAILED

record runtime_result =
  rr_event :: session_event
  rr_findings :: "finding list"
  rr_risk_assessment :: "risk_assessment option"
  rr_enforcement_posture :: "posture option"
  rr_response_action :: "response_action option"
  rr_refusal_reason :: "refusal option"
  rr_authorization :: "grant option"
  rr_authorization_result :: "authorization_result option"
  rr_audit_event_id :: string

subsection \<open>Resolving and binding the operation\<close>

definition version_is_enabled :: "runtime \<Rightarrow> platform \<Rightarrow> string \<Rightarrow> string \<Rightarrow> bool" where
  "version_is_enabled w p tid ver =
     (if \<not> rw_tool_service w then False
      else case get_tool (pf_tools p) tid ver of Inl _ \<Rightarrow> False | Inr t \<Rightarrow> tool_enabled t)"

definition resolve_implementation :: "runtime \<Rightarrow> platform \<Rightarrow> string \<Rightarrow> descriptor option \<times> string option" where
  "resolve_implementation w p tid =
     (if \<not> rw_registry w then (None, None)
      else case resolve (pf_registry p) tid None of
             Inl _ \<Rightarrow> (None, None)
           | Inr d \<Rightarrow> (Some d, if version_is_enabled w p tid (td_version d) then Some (td_version d) else None))"

definition profile_for :: "string \<Rightarrow> string" where
  "profile_for tid = ''profile-'' @ tid"

definition path_key :: py_value where
  "path_key = PyStr ''path''"

definition canonicalize_value :: "fsys \<Rightarrow> path \<Rightarrow> py_value \<Rightarrow> string res" where
  "canonicalize_value fy root v = (case v of PyStr s \<Rightarrow> canonicalize fy root s | PyOther \<Rightarrow> identity_error)"

definition canonicalize_optional :: "('a \<Rightarrow> string res) \<Rightarrow> 'a option \<Rightarrow> string option res" where
  "canonicalize_optional f x = (case x of None \<Rightarrow> Inr None | Some y \<Rightarrow> res_bind (f y) (\<lambda>s. Inr (Some s)))"

definition canonicalize_operation ::
  "fsys \<Rightarrow> profile_registry \<Rightarrow> string \<Rightarrow> string option \<Rightarrow> parameters \<Rightarrow> (string option \<times> parameters) res" where
  "canonicalize_operation fy profiles tid resource ps =
     (case dget profiles (profile_for tid) of
        None \<Rightarrow> identity_error
      | Some c \<Rightarrow>
          res_bind (new_resolver fy (fc_workspace_root (cp_filesystem c))) (\<lambda>root.
          res_bind (canonicalize_optional (canonicalize_value fy root) (Option.bind (dget ps path_key) id)) (\<lambda>by_parameter.
          res_bind (canonicalize_optional (canonicalize fy root) resource) (\<lambda>by_resource.
            if by_parameter \<noteq> None \<and> by_resource \<noteq> None \<and> by_parameter \<noteq> by_resource then identity_error
            else case (if by_parameter = None \<or> by_parameter = Some [] then by_resource else by_parameter) of
                   None \<Rightarrow> Inr (resource, ps)
                 | Some t \<Rightarrow>
                     Inr (Some t, if dget ps path_key \<noteq> None then dset path_key (Some (PyStr t)) ps else ps)))))"

definition raw_of :: "parameters \<Rightarrow> raw_parameters" where
  "raw_of ps = Params (map (\<lambda>(k, v). (k, case v of None \<Rightarrow> PyOther | Some x \<Rightarrow> x)) ps)"

record operation =
  op_tool_version :: "string option"
  op_binding :: "binding option"
  op_resource :: "string option"
  op_malformed :: bool

definition is_filesystem_tool :: "string \<Rightarrow> descriptor option \<Rightarrow> bool" where
  "is_filesystem_tool tid d \<longleftrightarrow>
     (case d of None \<Rightarrow> False | Some x \<Rightarrow> tc_category (md_capability (td_metadata x)) = ''filesystem'')
     \<or> tid \<in> {''file_read'', ''directory_list''}"

definition needs_identity :: "platform \<Rightarrow> request \<Rightarrow> descriptor option \<Rightarrow> string option \<Rightarrow> bool" where
  "needs_identity p q d version \<longleftrightarrow>
     is_filesystem_tool (rq_tool_id q) d
     \<and> (rq_resource q \<noteq> None \<or> dget (rq_parameters q) path_key \<noteq> None)
     \<and> (version \<noteq> None \<or> profile_exists (pf_profiles p) (profile_for (rq_tool_id q)))"

definition bind_operation :: "request \<Rightarrow> string option \<Rightarrow> string option \<Rightarrow> parameters \<Rightarrow> operation" where
  "bind_operation q version resource ps =
     (case version of
        None \<Rightarrow> \<lparr>op_tool_version = None, op_binding = None, op_resource = resource, op_malformed = False\<rparr>
      | Some ver \<Rightarrow>
          (case from_operation (rq_tool_id q) ver (raw_of ps) resource of
             Inl _ \<Rightarrow> \<lparr>op_tool_version = Some ver, op_binding = None, op_resource = resource, op_malformed = True\<rparr>
           | Inr b \<Rightarrow> \<lparr>op_tool_version = Some ver, op_binding = Some b, op_resource = b_resource b, op_malformed = False\<rparr>))"

definition prepare_operation :: "runtime \<Rightarrow> platform \<Rightarrow> request \<Rightarrow> operation" where
  "prepare_operation w p q =
     (let (d, version) = resolve_implementation w p (rq_tool_id q)
      in if needs_identity p q d version then
           (case canonicalize_operation (rw_fs w) (pf_profiles p) (rq_tool_id q) (rq_resource q) (rq_parameters q) of
              Inl _ \<Rightarrow> \<lparr>op_tool_version = version, op_binding = None, op_resource = rq_resource q, op_malformed = True\<rparr>
            | Inr (resource, ps) \<Rightarrow> bind_operation q version resource ps)
         else bind_operation q version (rq_resource q) (rq_parameters q))"

subsection \<open>Records of an outcome\<close>

definition record_audit ::
  "runtime_env \<Rightarrow> request \<Rightarrow> string option \<Rightarrow> string option \<Rightarrow> decision \<Rightarrow> platform \<Rightarrow> platform" where
  "record_audit v q tool version d p =
     p\<lparr>pf_audit := snd (audit_record_event
         \<lparr>ae_event_id = ''evt-'' @ re_audit_uuid v, ae_session_id = rq_session_id q, ae_agent_id = rq_agent_id q,
          ae_requested_tool_id = rq_tool_id q, ae_tool_id = tool, ae_tool_version = version, ae_decision = d,
          ae_timestamp = re_audit_now v\<rparr> (pf_audit p))\<rparr>"

definition new_event :: "runtime_env \<Rightarrow> request \<Rightarrow> string option \<Rightarrow> decision \<Rightarrow> decision option \<Rightarrow> session_event" where
  "new_event v q version d final =
     \<lparr>se_session_id = rq_session_id q, se_agent_id = rq_agent_id q, se_tool_id = rq_tool_id q, se_tool_version = version,
      se_decision = d, se_sequence_number = 0, se_agent_sequence = 0, se_final_decision = final,
      se_timestamp = re_event_now v\<rparr>"

definition refused :: "runtime_env \<Rightarrow> session_event \<Rightarrow> finding list \<Rightarrow> refusal \<Rightarrow> runtime_result" where
  "refused v e fs reason =
     \<lparr>rr_event = e, rr_findings = fs, rr_risk_assessment = None, rr_enforcement_posture = None, rr_response_action = None,
      rr_refusal_reason = Some reason, rr_authorization = None, rr_authorization_result = None,
      rr_audit_event_id = ''evt-'' @ re_audit_uuid v\<rparr>"

definition refuse_session_binding :: "runtime_env \<Rightarrow> request \<Rightarrow> (platform, runtime_result) eff" where
  "refuse_session_binding v q p =
     (Inr (refused v (new_event v q None DENY (Some DENY)) [] SESSION_BINDING_INVALID), record_audit v q None None DENY p)"

definition finalize_refused_event :: "session_event \<Rightarrow> (platform, session_event) eff" where
  "finalize_refused_event e =
     and_then (on_sessions (update_event_final_decision (se_session_id e) (se_sequence_number e) DENY))
       (\<lambda>_. ok (e\<lparr>se_final_decision := Some DENY\<rparr>))"

definition refuse_recorded ::
  "runtime_env \<Rightarrow> request \<Rightarrow> session_event \<Rightarrow> string option \<Rightarrow> finding list \<Rightarrow> refusal \<Rightarrow> (platform, runtime_result) eff" where
  "refuse_recorded v q e tool fs reason =
     and_then (finalize_refused_event e) (\<lambda>e' p.
       (Inr (refused v e' fs reason), record_audit v q tool (se_tool_version e) DENY p))"

subsection \<open>Posture\<close>

definition assess_agent_posture :: "instant \<Rightarrow> string \<Rightarrow> (platform, posture) eff" where
  "assess_agent_posture now aid p =
     (case get_posture now (pf_risk p) aid of
        Inl e \<Rightarrow> (Inl PostureReconciliationError, p)
      | Inr po \<Rightarrow>
          if po_state po = HEALTHY then (Inr po, p)
          else
            (case (case get_current_baseline (pf_agents p) aid of
                     Inl e \<Rightarrow> if e = AgentNotFoundError
                             then Inr \<lparr>wm_agent_id = aid, wm_baseline_at = None, wm_evidence_sequence = 0, wm_agent_sequence = 0\<rparr>
                             else Inl e
                   | Inr wm \<Rightarrow> Inr wm) of
               Inl e \<Rightarrow> (Inl e, p)
             | Inr wm \<Rightarrow>
                 (case on_risk (reconcile_agent now aid
                          (list_findings \<lparr>ff_session_id = None, ff_agent_id = Some aid, ff_severity = None, ff_category = None,
                             ff_status = None, ff_rule_id = None, ff_recorded_after = None\<rparr> (pf_findings p)) wm) p of
                    (Inl _, p') \<Rightarrow> (Inl PostureReconciliationError, p')
                  | (Inr po', p') \<Rightarrow>
                      if po_state po' \<noteq> HEALTHY then (Inl PostureReconciliationError, p') else (Inr po', p'))))"

subsection \<open>Decision, issuance and containment\<close>

definition escalated :: "decision \<Rightarrow> response_type \<Rightarrow> decision" where
  "escalated d r = (if d = ALLOW then (case r of SUSPEND_AGENT \<Rightarrow> DENY | REQUIRE_APPROVAL \<Rightarrow> APPROVAL_REQUIRED | _ \<Rightarrow> d) else d)"

definition deny_if_allowed :: "decision \<Rightarrow> decision" where
  "deny_if_allowed d = (if d = ALLOW then DENY else d)"

text \<open>
  The enforcement store the authority compares epochs with: the constructor gives it that of the agent service.
\<close>

definition authority_repository :: "platform \<Rightarrow> enforcement_repo option" where
  "authority_repository p = Some (sv_enf (pf_agents p))"

definition issue_grant ::
  "runtime \<Rightarrow> runtime_env \<Rightarrow> request \<Rightarrow> operation \<Rightarrow> nat \<Rightarrow> decision \<Rightarrow> (platform, decision \<times> grant option) eff" where
  "issue_grant w v q op epoch d p =
     (if \<not> rw_authority w then (Inr (d, None), p)
      else case op_binding op of
        None \<Rightarrow> (Inr (deny_if_allowed d, None), p)
      | Some b \<Rightarrow>
          (case dget (pf_profiles p) (profile_for (rq_tool_id q)) of
             None \<Rightarrow> (Inr (deny_if_allowed d, None), p)
           | Some c \<Rightarrow>
               and_then (on_authority (issue (rw_mac w) (re_issue_now v) (re_grant_uuid v) (authority_repository p)
                 \<lparr>iq_binding = b, iq_decision = d, iq_agent_id = rq_agent_id q, iq_session_id = rq_session_id q,
                  iq_expected_epoch = Some epoch, iq_capability_profile_id = Some (cp_profile_id c),
                  iq_capability_digest = Some (compute_digest (rw_sha w) c)\<rparr>))
               (\<lambda>g. ok (if g = None then deny_if_allowed d else d, g)) p))"

definition contain :: "runtime \<Rightarrow> runtime_env \<Rightarrow> request \<Rightarrow> posture \<Rightarrow> finding list \<Rightarrow> (platform, unit) eff" where
  "contain w v q po fs p =
     (let p1 = (if rw_authority w
                then p\<lparr>pf_authority := snd (suspend_issuance (rq_agent_id q) PLANE_ENFORCEMENT (pf_authority p))\<rparr> else p);
          trigger = \<lparr>tg_session_id = Some (rq_session_id q), tg_risk_level = Some (po_risk_level po),
                     tg_risk_score = Some (po_risk_score po), tg_finding_ids = map f_id fs\<rparr>
      in case on_agents (suspend_agent (re_agent_env v) (rq_agent_id q) ''Runtime enforcement: risk posture requires suspension''
                           (Some trigger)) p1 of
           (Inl e, p2) \<Rightarrow> if e = AgentNotFoundError then (Inr (), p2) else (Inl e, p2)
         | (Inr _, p2) \<Rightarrow> (Inr (), p2))"

subsection \<open>The pipeline\<close>

definition authorize_request :: "platform \<Rightarrow> request \<Rightarrow> operation \<Rightarrow> authorization_result option res" where
  "authorize_request p q op =
     (if op_malformed op then Inr None
      else res_bind (evaluate (pf_agents p) (pf_tools p) (rq_agent_id q) (rq_tool_id q) (op_resource op)) (\<lambda>r. Inr (Some r)))"

definition authorized_decision :: "authorization_result option \<Rightarrow> decision" where
  "authorized_decision az = (case az of None \<Rightarrow> DENY | Some r \<Rightarrow> az_decision r)"

definition enforcement_snapshot :: "platform \<Rightarrow> string \<Rightarrow> enforcement_state option res" where
  "enforcement_snapshot p aid =
     (case get_enforcement_state (pf_agents p) aid of
        Inl e \<Rightarrow> if e = AgentNotFoundError then Inr None else Inl e
      | Inr st \<Rightarrow> Inr (Some st))"

definition resolved_tool :: "request \<Rightarrow> operation \<Rightarrow> authorization_result option \<Rightarrow> string option" where
  "resolved_tool q op az =
     (if op_tool_version op \<noteq> None \<or> (case az of None \<Rightarrow> False | Some r \<Rightarrow> ck_status (az_tool_check r) = CK_PASSED)
      then Some (rq_tool_id q) else None)"

definition session_filter :: "request \<Rightarrow> finding_filter" where
  "session_filter q = \<lparr>ff_session_id = Some (rq_session_id q), ff_agent_id = Some (rq_agent_id q), ff_severity = None,
     ff_category = None, ff_status = None, ff_rule_id = None, ff_recorded_after = None\<rparr>"

definition content_findings :: "runtime \<Rightarrow> request \<Rightarrow> operation \<Rightarrow> session_event \<Rightarrow> finding list" where
  "content_findings w q op e =
     engine_evaluate (rw_rules w)
       \<lparr>dc_session_id = rq_session_id q, dc_agent_id = rq_agent_id q, dc_user_prompt = rq_user_prompt q,
        dc_model_output = rq_model_output q, dc_tool_output = rq_tool_output q,
        dc_triggering_event_sequence = se_sequence_number e,
        dc_metadata = [(''tool_id'', rq_tool_id q), (''resource'', case op_resource op of None \<Rightarrow> [] | Some r \<Rightarrow> r)]\<rparr>"

definition horizon_events ::
  "runtime \<Rightarrow> runtime_env \<Rightarrow> request \<Rightarrow> enforcement_state option \<Rightarrow> session_event \<Rightarrow> platform \<Rightarrow> session_event list res" where
  "horizon_events w v q st e p =
     res_bind (get_rule_descriptor (rw_window w) excessive_denials) (\<lambda>rd.
     res_bind (validate_scope_parameters
         \<lparr>hq_agent_id = rq_agent_id q, hq_scope = rd_scope rd,
          hq_session_id = (if rd_scope rd = SCOPE_SESSION then Some (rq_session_id q) else None),
          hq_window = rd_horizon rd, hq_evaluation_time = se_timestamp e,
          hq_baseline_agent_sequence = (case st of None \<Rightarrow> 0 | Some x \<Rightarrow> es_baseline_agent_sequence x)\<rparr>) (\<lambda>hq.
     if re_horizon_fault v then Inl SessionRepositoryError else Inr (list_eligible_events hq (pf_sessions p))))"

fun ingest_all :: "instant \<Rightarrow> string \<Rightarrow> finding list \<Rightarrow> aggregator \<Rightarrow> aggregator" where
  "ingest_all now aid [] r = r"
| "ingest_all now aid (f # fs) r =
     ingest_all now aid fs
       (case ingest_finding now f r of (Inl _, r') \<Rightarrow> aggregator_mark_stale now aid r' | (Inr _, r') \<Rightarrow> r')"

definition conclude ::
  "runtime \<Rightarrow> runtime_env \<Rightarrow> request \<Rightarrow> operation \<Rightarrow> authorization_result option \<Rightarrow> enforcement_state option \<Rightarrow> session_event
     \<Rightarrow> finding list \<Rightarrow> risk_assessment \<Rightarrow> posture \<Rightarrow> (platform, runtime_result) eff" where
  "conclude w v q op az st e fs risk po =
     (let response = recommend_for_level (po_risk_level po) (rq_session_id q) (rq_agent_id q)
      in and_then (issue_grant w v q op (case st of None \<Rightarrow> 0 | Some x \<Rightarrow> es_epoch x)
                     (escalated (se_decision e) (rs_response_type response))) (\<lambda>(final, g).
         and_then (on_sessions (update_event_final_decision (rq_session_id q) (se_sequence_number e) final)) (\<lambda>_.
         and_then (if rs_response_type response = SUSPEND_AGENT then contain w v q po fs else ok ()) (\<lambda>_ p.
           (Inr \<lparr>rr_event = e\<lparr>se_final_decision := Some final\<rparr>, rr_findings = fs, rr_risk_assessment = Some risk,
                 rr_enforcement_posture = Some po, rr_response_action = Some response, rr_refusal_reason = None,
                 rr_authorization = g, rr_authorization_result = az, rr_audit_event_id = ''evt-'' @ re_audit_uuid v\<rparr>,
            record_audit v q (resolved_tool q op az) (op_tool_version op) final p)))))"

definition assess_and_conclude ::
  "runtime \<Rightarrow> runtime_env \<Rightarrow> request \<Rightarrow> operation \<Rightarrow> authorization_result option \<Rightarrow> enforcement_state option \<Rightarrow> session_event
     \<Rightarrow> finding list \<Rightarrow> (platform, runtime_result) eff" where
  "assess_and_conclude w v q op az st e fs p =
     (case assess_session (re_assess_now v) (rq_session_id q) (rq_agent_id q) (list_findings (session_filter q) (pf_findings p)) of
        Inl x \<Rightarrow> (Inl x, p)
      | Inr risk \<Rightarrow>
          (case assess_agent_posture (re_assess_now v) (rq_agent_id q) p of
             (Inl x, p1) \<Rightarrow>
               if x = PostureReconciliationError
               then refuse_recorded v q e (resolved_tool q op az) fs POSTURE_RECONCILIATION_FAILED p1
               else (Inl x, p1)
           | (Inr po, p1) \<Rightarrow> conclude w v q op az st e fs risk po p1))"

definition detect_and_assess ::
  "runtime \<Rightarrow> runtime_env \<Rightarrow> request \<Rightarrow> operation \<Rightarrow> authorization_result option \<Rightarrow> enforcement_state option \<Rightarrow> session_event
     \<Rightarrow> (platform, runtime_result) eff" where
  "detect_and_assess w v q op az st e p =
     (case horizon_events w v q st e p of
        Inl x \<Rightarrow>
          if x = SessionRepositoryError
          then refuse_recorded v q e (resolved_tool q op az) [] HORIZON_UNAVAILABLE p else (Inl x, p)
      | Inr events \<Rightarrow>
          let detected = content_findings w q op e
                @ detect_excessive_denials (rw_uuid5 w) (re_record_now v) (rw_window w) events (se_timestamp e)
                    (list_findings (session_filter q) (pf_findings p))
                    (case st of None \<Rightarrow> 0 | Some x \<Rightarrow> es_recovery_generation x)
          in case re_write_fault v of
               Some k \<Rightarrow>
                 refuse_recorded v q e (resolved_tool q op az) [] EVIDENCE_RECORDING_FAILED
                   (p\<lparr>pf_findings := snd (record_new_findings (re_record_now v) (take k detected) (pf_findings p))\<rparr>)
             | None \<Rightarrow>
                 let (fs, store) = record_new_findings (re_record_now v) detected (pf_findings p)
                 in assess_and_conclude w v q op az st e fs
                      (p\<lparr>pf_findings := store, pf_risk := ingest_all (re_record_now v) (rq_agent_id q) fs (pf_risk p)\<rparr>))"

definition runtime_execute :: "runtime \<Rightarrow> runtime_env \<Rightarrow> request \<Rightarrow> (platform, runtime_result) eff" where
  "runtime_execute w v q p =
     (let op = prepare_operation w p q
      in case on_sessions (bind_or_create_session (rq_session_id q) (rq_agent_id q) (re_bind_now v)) p of
           (Inl e, p1) \<Rightarrow> if is_SessionBindingError e then refuse_session_binding v q p1 else (Inl e, p1)
         | (Inr _, p1) \<Rightarrow>
             (case authorize_request p1 q op of
                Inl e \<Rightarrow> (Inl e, p1)
              | Inr az \<Rightarrow>
                  (case enforcement_snapshot p1 (rq_agent_id q) of
                     Inl e \<Rightarrow> (Inl e, p1)
                   | Inr st \<Rightarrow>
                       and_then (on_sessions (record_event (rw_retention w)
                         (new_event v q (op_tool_version op) (authorized_decision az) None)))
                         (\<lambda>e. detect_and_assess w v q op az st e) p1)))"

end
