(* ===== verification/Runtime_Guarantees.thy ===== *)
theory Runtime_Guarantees
  imports Runtime
begin

section \<open>What the runtime pipeline guarantees\<close>

text \<open>
  The stages of \<open>runtime_execute\<close> leave most stores alone; \<open>same_control\<close> names the stores a decision rests on.
  \<open>execute_cases\<close> splits a returned request into the three ways the method returns, and the properties of the
  pipeline follow from these two and the lemmas of the component theories.
\<close>

subsection \<open>Stages\<close>

definition same_control :: "platform \<Rightarrow> platform \<Rightarrow> bool" where
  "same_control p p' \<longleftrightarrow>
     pf_agents p' = pf_agents p \<and> pf_authority p' = pf_authority p \<and> pf_tools p' = pf_tools p
     \<and> pf_registry p' = pf_registry p \<and> pf_profiles p' = pf_profiles p \<and> pf_evidence p' = pf_evidence p
     \<and> pf_audit p' = pf_audit p"

lemma same_control_refl [simp, intro]: "same_control p p"
  by (simp add: same_control_def)

lemma same_control_trans: "same_control p p' \<Longrightarrow> same_control p' p'' \<Longrightarrow> same_control p p''"
  by (simp add: same_control_def)

lemma same_control_updates [simp]:
  "same_control p (p'\<lparr>pf_sessions := s\<rparr>) = same_control p p'"
  "same_control p (p'\<lparr>pf_findings := f\<rparr>) = same_control p p'"
  "same_control p (p'\<lparr>pf_risk := r\<rparr>) = same_control p p'"
  by (simp_all add: same_control_def)

lemma on_sessions_control: "on_sessions m p = (r, p') \<Longrightarrow> same_control p p'"
  by (auto simp: on_sessions_iff)

lemma on_risk_control: "on_risk m p = (r, p') \<Longrightarrow> same_control p p'"
  by (auto simp: on_risk_iff)

lemma record_audit_fields [simp]:
  "pf_agents (record_audit v q t ver d p) = pf_agents p" "pf_authority (record_audit v q t ver d p) = pf_authority p"
  "pf_tools (record_audit v q t ver d p) = pf_tools p" "pf_registry (record_audit v q t ver d p) = pf_registry p"
  "pf_profiles (record_audit v q t ver d p) = pf_profiles p" "pf_evidence (record_audit v q t ver d p) = pf_evidence p"
  "pf_sessions (record_audit v q t ver d p) = pf_sessions p" "pf_findings (record_audit v q t ver d p) = pf_findings p"
  "pf_risk (record_audit v q t ver d p) = pf_risk p"
  by (simp_all add: record_audit_def)

lemma assess_agent_posture_control:
  "assess_agent_posture now aid p = (r, p') \<Longrightarrow> same_control p p' \<and> pf_sessions p' = pf_sessions p"
  by (auto simp: assess_agent_posture_def on_risk_iff split: sum.splits if_splits prod.splits)

lemma assess_agent_posture_healthy: "assess_agent_posture now aid p = (Inr po, p') \<Longrightarrow> po_state po = HEALTHY"
  by (auto simp: assess_agent_posture_def split: sum.splits if_splits prod.splits)

text \<open>Recording the final decision of an event.\<close>

definition event_final :: "string \<Rightarrow> nat \<Rightarrow> decision \<Rightarrow> session_repo \<Rightarrow> bool" where
  "event_final sid n d r \<longleftrightarrow>
     (\<exists>e\<in>set (sr_events r). se_session_id e = sid \<and> se_sequence_number e = n \<and> se_final_decision e = Some d)"

lemma finalize_first_final:
  "finalize_first sid n d es = Inr es' \<Longrightarrow>
   \<exists>e\<in>set es'. se_session_id e = sid \<and> se_sequence_number e = n \<and> se_final_decision e = Some d"
  by (induction es arbitrary: es') (auto simp: res_bind_Inr split: if_splits)

lemma finalized:
  "update_event_final_decision sid n d r = (Inr (), r') \<Longrightarrow> event_final sid n d r'"
  by (auto simp: update_event_final_decision_def event_final_def split: if_splits sum.splits dest: finalize_first_final)

lemma recorded_event:
  "record_event policy e r = (Inr x, r') \<Longrightarrow>
   \<exists>n k. x = e\<lparr>se_sequence_number := n, se_agent_sequence := k\<rparr>"
  by (auto simp: record_event_def repo_record_event_def Let_def split: prod.splits sum.splits option.splits if_splits)

lemma bind_refused: "bind_or_create_session sid aid now r = (Inl e, r') \<Longrightarrow> r' = r"
  by (auto simp: bind_or_create_session_def Let_def split: option.splits if_splits)

lemma bind_owner:
  "bind_or_create_session sid aid now r = (Inr s, r') \<Longrightarrow> session_owner r' sid = Some aid"
  by (auto simp: bind_or_create_session_def session_owner_def Let_def split: option.splits if_splits)

lemma refuse_recorded_run:
  assumes "refuse_recorded v q e tool fs reason p = (Inr rr, p')"
  obtains r where "update_event_final_decision (se_session_id e) (se_sequence_number e) DENY (pf_sessions p) = (Inr (), r)"
    "rr = refused v (e\<lparr>se_final_decision := Some DENY\<rparr>) fs reason"
    "p' = record_audit v q tool (se_tool_version e) DENY (p\<lparr>pf_sessions := r\<rparr>)"
  using assms
  by (auto simp: refuse_recorded_def finalize_refused_event_def and_then_returns on_sessions_iff)

lemma refuse_recorded_raise:
  "refuse_recorded v q e tool fs reason p = (Inl x, p') \<Longrightarrow> same_control p p'"
  by (auto simp: refuse_recorded_def finalize_refused_event_def and_then_def split: sum.splits prod.splits
      dest: on_sessions_control)

subsection \<open>Issuance and containment\<close>

text \<open>The request the pipeline makes of the authority.\<close>

definition grant_request :: "runtime \<Rightarrow> request \<Rightarrow> binding \<Rightarrow> capabilities \<Rightarrow> nat \<Rightarrow> decision \<Rightarrow> issue_request" where
  "grant_request w q b c epoch d =
     \<lparr>iq_binding = b, iq_decision = d, iq_agent_id = rq_agent_id q, iq_session_id = rq_session_id q,
      iq_expected_epoch = Some epoch, iq_capability_profile_id = Some (cp_profile_id c),
      iq_capability_digest = Some (compute_digest (rw_sha w) c)\<rparr>"

lemma issue_closed: "au_issuance_closed (snd (issue mac now uuid repo q a)) = au_issuance_closed a"
proof (cases "may_issue repo q a")
  case True
  then show ?thesis by (auto simp: issue_allowed and_then_def create_for_def create_grant_def Let_def)
next
  case False
  then show ?thesis using issue_refused [OF False, of mac now uuid] by auto
qed

lemma issue_grant_state:
  assumes "issue_grant w v q op epoch d p = (r, p')"
  obtains a where "p' = p\<lparr>pf_authority := a\<rparr>"
    "issuance_closed_planes a = issuance_closed_planes (pf_authority p)"
    "authority_inv (pf_authority p) \<Longrightarrow> authority_inv a"
proof (cases "rw_authority w \<and> op_binding op \<noteq> None \<and> dget (pf_profiles p) (profile_for (rq_tool_id q)) \<noteq> None")
  case True
  then obtain b c where b: "op_binding op = Some b" "dget (pf_profiles p) (profile_for (rq_tool_id q)) = Some c" by auto
  obtain x a where run: "issue (rw_mac w) (re_issue_now v) (re_grant_uuid v) (authority_repository p)
      (grant_request w q b c epoch d) (pf_authority p) = (x, a)" by fastforce
  then have "p' = p\<lparr>pf_authority := a\<rparr>"
    using assms True b
    by (auto simp: issue_grant_def and_then_def on_authority_def grant_request_def split: sum.splits)
  moreover have "issuance_closed_planes a = issuance_closed_planes (pf_authority p)"
    using issue_closed [of "rw_mac w" "re_issue_now v" "re_grant_uuid v" "authority_repository p"
        "grant_request w q b c epoch d" "pf_authority p"] run by (auto simp: issuance_closed_planes_def)
  ultimately show thesis using run by (auto intro: that issue_inv)
next
  case False
  with assms have "p' = p\<lparr>pf_authority := pf_authority p\<rparr>"
    by (auto simp: issue_grant_def split: if_splits option.splits)
  then show thesis by (rule that) simp_all
qed

lemma issue_grant_none:
  assumes "issue_grant w v q op epoch d p = (Inr (final, None), p')"
  shows "pf_authority p' = pf_authority p" "rw_authority w \<Longrightarrow> final = deny_if_allowed d"
proof -
  have *: "a = pf_authority p" if "issue mac now uuid repo rq (pf_authority p) = (Inr None, a)" for mac now uuid repo rq a
  proof (cases "may_issue repo rq (pf_authority p)")
    case True
    with that show ?thesis by (auto simp: issue_allowed and_then_returns)
  next
    case False
    with that issue_refused [OF False, of mac now uuid] show ?thesis by auto
  qed
  show "pf_authority p' = pf_authority p" "rw_authority w \<Longrightarrow> final = deny_if_allowed d"
    using assms by (auto simp: issue_grant_def and_then_returns on_authority_iff dest: * split: if_splits option.splits)
qed

lemma issue_grant_some:
  assumes "issue_grant w v q op epoch d p = (Inr (final, Some g), p')"
  obtains b c a where "rw_authority w" "op_binding op = Some b" "dget (pf_profiles p) (profile_for (rq_tool_id q)) = Some c"
    "issue (rw_mac w) (re_issue_now v) (re_grant_uuid v) (authority_repository p)
       (grant_request w q b c epoch d) (pf_authority p) = (Inr (Some g), a)"
    "p' = p\<lparr>pf_authority := a\<rparr>" "d = ALLOW" "final = ALLOW"
proof -
  have a: "rw_authority w" using assms by (cases "rw_authority w") (simp_all add: issue_grant_def)
  then obtain b where b: "op_binding op = Some b" using assms by (cases "op_binding op") (auto simp: issue_grant_def)
  obtain c where c: "dget (pf_profiles p) (profile_for (rq_tool_id q)) = Some c"
    using assms a b by (cases "dget (pf_profiles p) (profile_for (rq_tool_id q))") (auto simp: issue_grant_def)
  obtain x au where run: "issue (rw_mac w) (re_issue_now v) (re_grant_uuid v) (authority_repository p)
       (grant_request w q b c epoch d) (pf_authority p) = (x, au)" by fastforce
  have "(case x of Inl e \<Rightarrow> (Inl e, p\<lparr>pf_authority := au\<rparr>)
    | Inr h \<Rightarrow> (Inr (if h = None then deny_if_allowed d else d, h), p\<lparr>pf_authority := au\<rparr>)) = (Inr (final, Some g), p')"
    using assms a b c run by (simp add: issue_grant_def and_then_def on_authority_def grant_request_def split: sum.splits)
  then have r: "rw_authority w" "op_binding op = Some b"
    "dget (pf_profiles p) (profile_for (rq_tool_id q)) = Some c"
    "issue (rw_mac w) (re_issue_now v) (re_grant_uuid v) (authority_repository p)
       (grant_request w q b c epoch d) (pf_authority p) = (Inr (Some g), au)"
    "p' = p\<lparr>pf_authority := au\<rparr>" "final = d"
    using a b c run by (auto split: sum.splits)
  from issued_grant(1) [OF r(4)] have "d = ALLOW" by (simp add: may_issue_def grant_request_def)
  with r show thesis by (intro that) simp_all
qed

lemma issue_grant_agree:
  assumes "issue_grant w v q op epoch d p = (Inr (final, g), p')" and "rw_authority w"
  shows "g \<noteq> None \<longleftrightarrow> final = ALLOW"
proof (cases g)
  case None
  with issue_grant_none(2) [OF assms(1) [unfolded None] assms(2)] show ?thesis by (simp add: deny_if_allowed_def)
next
  case (Some h)
  with assms(1) show ?thesis by (auto elim: issue_grant_some)
qed

lemma contain_run:
  assumes "contain w v q po fs p = (r, p')"
  shows "pf_authority p' = (if rw_authority w then snd (suspend_issuance (rq_agent_id q) PLANE_ENFORCEMENT (pf_authority p))
           else pf_authority p)
    \<and> pf_tools p' = pf_tools p \<and> pf_registry p' = pf_registry p \<and> pf_profiles p' = pf_profiles p
    \<and> pf_evidence p' = pf_evidence p \<and> pf_audit p' = pf_audit p \<and> pf_sessions p' = pf_sessions p
    \<and> (\<exists>trig. pf_agents p' = snd (suspend_agent (re_agent_env v) (rq_agent_id q)
           ''Runtime enforcement: risk posture requires suspension'' trig (pf_agents p)))"
proof -
  define p1 where "p1 = (if rw_authority w
    then p\<lparr>pf_authority := snd (suspend_issuance (rq_agent_id q) PLANE_ENFORCEMENT (pf_authority p))\<rparr> else p)"
  define trig where "trig = \<lparr>tg_session_id = Some (rq_session_id q), tg_risk_level = Some (po_risk_level po),
    tg_risk_score = Some (po_risk_score po), tg_finding_ids = map f_id fs\<rparr>"
  obtain x s where run: "suspend_agent (re_agent_env v) (rq_agent_id q)
      ''Runtime enforcement: risk posture requires suspension'' (Some trig) (pf_agents p1) = (x, s)" by fastforce
  have "p' = p1\<lparr>pf_agents := s\<rparr>"
    using assms run
    by (simp add: contain_def p1_def [symmetric] trig_def [symmetric] Let_def on_agents_def split: sum.splits if_splits)
  moreover have "s = snd (suspend_agent (re_agent_env v) (rq_agent_id q)
      ''Runtime enforcement: risk posture requires suspension'' (Some trig) (pf_agents p))"
    using run by (simp add: p1_def split: if_splits)
  ultimately show ?thesis
    by (auto simp: p1_def)
qed

lemma contain_planes:
  "contain w v q po fs p = (r, p') \<Longrightarrow>
     issuance_closed_planes (pf_authority p) k \<subseteq> issuance_closed_planes (pf_authority p') k"
  using contain_run [of w v q po fs p r p'] by (auto simp: suspend_closed)

subsection \<open>The ways a request ends\<close>

text \<open>
  \<open>concluded\<close> is what a request that reaches the end of the pipeline has gone through: \<open>p2\<close> is the state when the
  posture has been assessed, \<open>p3\<close> the one after issuance, \<open>p4\<close> after the final decision was recorded and \<open>p5\<close> after
  containment.
\<close>

definition concluded ::
  "runtime \<Rightarrow> runtime_env \<Rightarrow> request \<Rightarrow> operation \<Rightarrow> authorization_result option \<Rightarrow> enforcement_state option \<Rightarrow> session_event
     \<Rightarrow> posture \<Rightarrow> decision \<Rightarrow> grant option \<Rightarrow> platform \<Rightarrow> platform \<Rightarrow> platform \<Rightarrow> platform \<Rightarrow> runtime_result \<Rightarrow> platform \<Rightarrow> bool" where
  "concluded w v q op az st e po final g p2 p3 p4 p5 rr p' \<longleftrightarrow>
     issue_grant w v q op (case st of None \<Rightarrow> 0 | Some x \<Rightarrow> es_epoch x)
       (escalated (se_decision e) (response_types (po_risk_level po))) p2 = (Inr (final, g), p3)
     \<and> (\<exists>r. update_event_final_decision (rq_session_id q) (se_sequence_number e) final (pf_sessions p3) = (Inr (), r)
          \<and> p4 = p3\<lparr>pf_sessions := r\<rparr>)
     \<and> (if response_types (po_risk_level po) = SUSPEND_AGENT then contain w v q po (rr_findings rr) p4 = (Inr (), p5) else p5 = p4)
     \<and> rr_event rr = e\<lparr>se_final_decision := Some final\<rparr> \<and> rr_enforcement_posture rr = Some po
     \<and> rr_response_action rr = Some (recommend_for_level (po_risk_level po) (rq_session_id q) (rq_agent_id q))
     \<and> rr_refusal_reason rr = None \<and> rr_authorization rr = g \<and> rr_authorization_result rr = az
     \<and> rr_audit_event_id rr = ''evt-'' @ re_audit_uuid v
     \<and> p' = record_audit v q (resolved_tool q op az) (op_tool_version op) final p5"

lemma conclude_returns:
  assumes "conclude w v q op az st e fs risk po p2 = (Inr rr, p')"
  shows "\<exists>final g p3 p4 p5. concluded w v q op az st e po final g p2 p3 p4 p5 rr p'"
proof -
  obtain final g p3 where i: "issue_grant w v q op (case st of None \<Rightarrow> 0 | Some x \<Rightarrow> es_epoch x)
       (escalated (se_decision e) (response_types (po_risk_level po))) p2 = (Inr (final, g), p3)"
    and rest: "and_then (on_sessions (update_event_final_decision (rq_session_id q) (se_sequence_number e) final)) (\<lambda>_.
         and_then (if response_types (po_risk_level po) = SUSPEND_AGENT then contain w v q po fs else ok ()) (\<lambda>_ p.
           (Inr \<lparr>rr_event = e\<lparr>se_final_decision := Some final\<rparr>, rr_findings = fs, rr_risk_assessment = Some risk,
                 rr_enforcement_posture = Some po,
                 rr_response_action = Some (recommend_for_level (po_risk_level po) (rq_session_id q) (rq_agent_id q)),
                 rr_refusal_reason = None, rr_authorization = g, rr_authorization_result = az,
                 rr_audit_event_id = ''evt-'' @ re_audit_uuid v\<rparr>,
            record_audit v q (resolved_tool q op az) (op_tool_version op) final p))) p3 = (Inr rr, p')"
    using assms by (auto simp: conclude_def Let_def and_then_returns recommend_for_level_def)
  from rest obtain r p5 where
    "update_event_final_decision (rq_session_id q) (se_sequence_number e) final (pf_sessions p3) = (Inr (), r)"
    "(if response_types (po_risk_level po) = SUSPEND_AGENT then contain w v q po fs else ok ()) (p3\<lparr>pf_sessions := r\<rparr>) = (Inr (), p5)"
    "rr_findings rr = fs" "rr_event rr = e\<lparr>se_final_decision := Some final\<rparr>" "rr_enforcement_posture rr = Some po"
    "rr_response_action rr = Some (recommend_for_level (po_risk_level po) (rq_session_id q) (rq_agent_id q))"
    "rr_refusal_reason rr = None" "rr_authorization rr = g" "rr_authorization_result rr = az"
    "rr_audit_event_id rr = ''evt-'' @ re_audit_uuid v"
    "p' = record_audit v q (resolved_tool q op az) (op_tool_version op) final p5"
    by (auto simp: and_then_returns on_sessions_iff)
  with i show ?thesis
    unfolding concluded_def
    by (intro exI [of _ final] exI [of _ g] exI [of _ p3] exI [of _ "p3\<lparr>pf_sessions := r\<rparr>"] exI [of _ p5])
       (auto split: if_splits)
qed

lemma recorded_owner:
  assumes "record_event policy e r = (Inr x, r')"
  shows "session_owner r' (se_session_id e) = Some (se_agent_id e)"
proof -
  obtain r1 where r1: "repo_record_event e r = (Inr x, r1)" "r' = snd (prune_events policy (se_timestamp x) r1)"
    using assms by (auto simp: record_event_def split: prod.splits sum.splits)
  have "sr_sessions r' = sr_sessions r1" by (simp add: r1)
  then show ?thesis
    using r1(1) by (auto simp: repo_record_event_def session_owner_def Let_def split: option.splits if_splits)
qed

lemma authorize_request_control: "same_control p p1 \<Longrightarrow> authorize_request p1 q op = authorize_request p q op"
  by (simp add: authorize_request_def same_control_def)

lemma enforcement_snapshot_control: "same_control p p1 \<Longrightarrow> enforcement_snapshot p1 aid = enforcement_snapshot p aid"
  by (simp add: enforcement_snapshot_def same_control_def)

text \<open>A refusal after the event was recorded: the event and the audit trail say DENY and nothing else has happened.\<close>

definition refused_recorded :: "runtime_env \<Rightarrow> request \<Rightarrow> platform \<Rightarrow> runtime_result \<Rightarrow> platform \<Rightarrow> bool" where
  "refused_recorded v q p rr p' \<longleftrightarrow>
     (\<exists>e tool fs reason p2 r. same_control p p2 \<and> se_session_id e = rq_session_id q
        \<and> update_event_final_decision (se_session_id e) (se_sequence_number e) DENY (pf_sessions p2) = (Inr (), r)
        \<and> reason \<noteq> SESSION_BINDING_INVALID \<and> rr = refused v (e\<lparr>se_final_decision := Some DENY\<rparr>) fs reason
        \<and> p' = record_audit v q tool (se_tool_version e) DENY (p2\<lparr>pf_sessions := r\<rparr>))"

lemma refused_recordedI:
  assumes "refuse_recorded v q e tool fs reason p2 = (Inr rr, p')" and "same_control p p2"
    and "se_session_id e = rq_session_id q" and "reason \<noteq> SESSION_BINDING_INVALID"
  shows "refused_recorded v q p rr p'"
  using assms(1)
proof (rule refuse_recorded_run)
  fix r assume "update_event_final_decision (se_session_id e) (se_sequence_number e) DENY (pf_sessions p2) = (Inr (), r)"
    "rr = refused v (e\<lparr>se_final_decision := Some DENY\<rparr>) fs reason"
    "p' = record_audit v q tool (se_tool_version e) DENY (p2\<lparr>pf_sessions := r\<rparr>)"
  with assms(2-4) show ?thesis unfolding refused_recorded_def by blast
qed

lemma assess_and_conclude_returns:
  assumes run: "assess_and_conclude w v q op az st e fs p1 = (Inr rr, p')"
    and e: "se_session_id e = rq_session_id q" and p1: "same_control p p1"
  shows "refused_recorded v q p rr p'
    \<or> (\<exists>po p2. same_control p p2 \<and> pf_sessions p2 = pf_sessions p1 \<and> po_state po = HEALTHY
        \<and> (\<exists>final g p3 p4 p5. concluded w v q op az st e po final g p2 p3 p4 p5 rr p'))"
proof -
  obtain x p2 where post: "assess_agent_posture (re_assess_now v) (rq_agent_id q) p1 = (x, p2)" by fastforce
  have p2: "same_control p p2" "pf_sessions p2 = pf_sessions p1"
    using assess_agent_posture_control [OF post] p1 by (auto intro: same_control_trans)
  show ?thesis
  proof (cases x)
    case (Inl y)
    with run post have "refuse_recorded v q e (resolved_tool q op az) fs POSTURE_RECONCILIATION_FAILED p2 = (Inr rr, p')"
      by (simp add: assess_and_conclude_def split: sum.splits if_splits)
    from refused_recordedI [OF this p2(1) e] show ?thesis by simp
  next
    case (Inr po)
    with run post obtain risk where "conclude w v q op az st e fs risk po p2 = (Inr rr, p')"
      by (simp add: assess_and_conclude_def split: sum.splits)
    from conclude_returns [OF this] assess_agent_posture_healthy [OF post [unfolded Inr]] p2 show ?thesis by blast
  qed
qed

lemma detect_and_assess_returns:
  assumes run: "detect_and_assess w v q op az st e p1 = (Inr rr, p')"
    and e: "se_session_id e = rq_session_id q" and p1: "same_control p p1"
  shows "refused_recorded v q p rr p'
    \<or> (\<exists>po p2. same_control p p2 \<and> pf_sessions p2 = pf_sessions p1 \<and> po_state po = HEALTHY
        \<and> (\<exists>final g p3 p4 p5. concluded w v q op az st e po final g p2 p3 p4 p5 rr p'))"
proof (cases "horizon_events w v q st e p1")
  case (Inl x)
  with run have "refuse_recorded v q e (resolved_tool q op az) [] HORIZON_UNAVAILABLE p1 = (Inr rr, p')"
    by (simp add: detect_and_assess_def split: if_splits)
  from refused_recordedI [OF this p1 e] show ?thesis by simp
next
  case (Inr events)
  define detected where "detected = content_findings w q op e
    @ detect_excessive_denials (rw_uuid5 w) (re_record_now v) (rw_window w) events (se_timestamp e)
        (list_findings (session_filter q) (pf_findings p1)) (case st of None \<Rightarrow> 0 | Some x \<Rightarrow> es_recovery_generation x)"
  note body = run [unfolded detect_and_assess_def Inr, simplified, folded detected_def, unfolded Let_def]
  show ?thesis
  proof (cases "re_write_fault v")
    case (Some k)
    with body have "refuse_recorded v q e (resolved_tool q op az) [] EVIDENCE_RECORDING_FAILED
        (p1\<lparr>pf_findings := snd (record_new_findings (re_record_now v) (take k detected) (pf_findings p1))\<rparr>) = (Inr rr, p')"
      by simp
    from refused_recordedI [OF this _ e] p1 show ?thesis by simp
  next
    case None
    obtain fs store where "record_new_findings (re_record_now v) detected (pf_findings p1) = (fs, store)" by fastforce
    with None body have "assess_and_conclude w v q op az st e fs
        (p1\<lparr>pf_findings := store, pf_risk := ingest_all (re_record_now v) (rq_agent_id q) fs (pf_risk p1)\<rparr>) = (Inr rr, p')"
      by simp
    from assess_and_conclude_returns [OF this e, of p] p1 show ?thesis by simp
  qed
qed

lemma execute_returns:
  assumes run: "runtime_execute w v q p = (Inr rr, p')"
  obtains (unbound) "rr = refused v (new_event v q None DENY (Some DENY)) [] SESSION_BINDING_INVALID"
      "p' = record_audit v q None None DENY p"
  | (recorded) "refused_recorded v q p rr p'"
  | (concluded) op az st e po final g p2 p3 p4 p5 where "op = prepare_operation w p q"
      "authorize_request p q op = Inr az" "enforcement_snapshot p (rq_agent_id q) = Inr st"
      "se_decision e = authorized_decision az" "se_session_id e = rq_session_id q" "se_agent_id e = rq_agent_id q"
      "se_tool_version e = op_tool_version op" "same_control p p2"
      "session_owner (pf_sessions p2) (rq_session_id q) = Some (rq_agent_id q)" "po_state po = HEALTHY"
      "concluded w v q op az st e po final g p2 p3 p4 p5 rr p'"
proof -
  define op where "op = prepare_operation w p q"
  obtain b p1 where bind: "on_sessions (bind_or_create_session (rq_session_id q) (rq_agent_id q) (re_bind_now v)) p = (b, p1)"
    by fastforce
  have p1: "same_control p p1" by (rule on_sessions_control [OF bind])
  note body = run [unfolded runtime_execute_def Let_def, folded op_def, unfolded bind]
  show thesis
  proof (cases b)
    case (Inl x)
    with bind have "p1 = p" by (auto simp: on_sessions_iff dest: bind_refused)
    with body Inl show thesis by (intro unbound) (auto simp: refuse_session_binding_def split: if_splits)
  next
    case (Inr s)
    with body obtain az st where az: "authorize_request p1 q op = Inr az" and st: "enforcement_snapshot p1 (rq_agent_id q) = Inr st"
      and rest: "and_then (on_sessions (record_event (rw_retention w)
         (new_event v q (op_tool_version op) (authorized_decision az) None))) (detect_and_assess w v q op az st) p1 = (Inr rr, p')"
      by (auto split: sum.splits)
    obtain e r where rec: "record_event (rw_retention w) (new_event v q (op_tool_version op) (authorized_decision az) None)
        (pf_sessions p1) = (Inr e, r)" and da: "detect_and_assess w v q op az st e (p1\<lparr>pf_sessions := r\<rparr>) = (Inr rr, p')"
      using rest by (auto simp: and_then_returns on_sessions_iff)
    have e: "se_decision e = authorized_decision az" "se_session_id e = rq_session_id q" "se_agent_id e = rq_agent_id q"
      "se_tool_version e = op_tool_version op"
      using recorded_event [OF rec] by (auto simp: new_event_def)
    have owner: "session_owner r (rq_session_id q) = Some (rq_agent_id q)"
      using recorded_owner [OF rec] by (simp add: new_event_def)
    have "same_control p (p1\<lparr>pf_sessions := r\<rparr>)" using p1 by simp
    from detect_and_assess_returns [OF da e(2) this] show thesis
    proof (elim disjE exE conjE)
      assume "refused_recorded v q p rr p'" then show thesis by (rule recorded)
    next
      fix po p2 final g p3 p4 p5
      assume "same_control p p2" "pf_sessions p2 = pf_sessions (p1\<lparr>pf_sessions := r\<rparr>)" "po_state po = HEALTHY"
        "concluded w v q op az st e po final g p2 p3 p4 p5 rr p'"
      with e owner az st show thesis
        by (intro concluded [OF op_def]) (simp_all add: authorize_request_control [OF p1] enforcement_snapshot_control [OF p1])
    qed
  qed
qed

subsection \<open>Requests that raise\<close>

definition planes_kept :: "platform \<Rightarrow> platform \<Rightarrow> bool" where
  "planes_kept p p' \<longleftrightarrow>
     (\<forall>k. issuance_closed_planes (pf_authority p) k \<subseteq> issuance_closed_planes (pf_authority p') k)
     \<and> (authority_inv (pf_authority p) \<longrightarrow> authority_inv (pf_authority p'))"

lemma planes_kept_trans: "planes_kept p p' \<Longrightarrow> planes_kept p' p'' \<Longrightarrow> planes_kept p p''"
  by (fastforce simp: planes_kept_def)

lemma control_planes: "same_control p p' \<Longrightarrow> planes_kept p p'"
  by (simp add: same_control_def planes_kept_def)

lemma authority_planes: "pf_authority p' = pf_authority p \<Longrightarrow> planes_kept p p'"
  by (simp add: planes_kept_def)

text \<open>What every stage keeps before the audit entry is written.\<close>

definition unaudited :: "platform \<Rightarrow> platform \<Rightarrow> bool" where
  "unaudited p p' \<longleftrightarrow> planes_kept p p' \<and> pf_audit p' = pf_audit p"

lemma unaudited_trans: "unaudited p p' \<Longrightarrow> unaudited p' p'' \<Longrightarrow> unaudited p p''"
  by (auto simp: unaudited_def intro: planes_kept_trans)

lemma unaudited_control: "same_control p p' \<Longrightarrow> unaudited p p'"
  by (simp add: unaudited_def control_planes) (simp add: same_control_def)

lemma issue_grant_unaudited: "issue_grant w v q op epoch d p = (r, p') \<Longrightarrow> unaudited p p'"
  by (erule issue_grant_state) (simp add: unaudited_def planes_kept_def)

lemma contain_unaudited: "contain w v q po fs p = (r, p') \<Longrightarrow> unaudited p p'"
  using contain_planes [of w v q po fs p r p'] contain_run [of w v q po fs p r p']
  by (auto simp: unaudited_def planes_kept_def suspend_inv)

lemma and_then_raises:
  assumes "and_then m f s = (Inl e, t)"
  obtains "m s = (Inl e, t)" | x s' where "m s = (Inr x, s')" "f x s' = (Inl e, t)"
  using assms by (auto simp: and_then_def split: prod.splits sum.splits)

lemma conclude_raises:
  assumes "conclude w v q op az st e fs risk po p = (Inl x, p')"
  shows "unaudited p p'"
  using assms [unfolded conclude_def Let_def]
proof (cases rule: and_then_raises)
  case 1
  then show ?thesis by (rule issue_grant_unaudited)
next
  case (2 y p1)
  obtain final g where y: "y = (final, g)" by (cases y)
  note p1 = issue_grant_unaudited [OF 2(1)]
  from 2(2) [unfolded y prod.case] show ?thesis
  proof (cases rule: and_then_raises)
    case 1
    then show ?thesis using unaudited_trans [OF p1 unaudited_control] on_sessions_control by blast
  next
    case (2 u p2)
    have p2: "unaudited p p2" by (rule unaudited_trans [OF p1 unaudited_control [OF on_sessions_control [OF 2(1)]]])
    from 2(2) show ?thesis
      by (rule and_then_raises) (auto split: if_splits intro: unaudited_trans [OF p2 contain_unaudited])
  qed
qed

lemma assess_and_conclude_raises:
  assumes "assess_and_conclude w v q op az st e fs p = (Inl x, p')"
  shows "unaudited p p'"
proof -
  obtain y p1 where post: "assess_agent_posture (re_assess_now v) (rq_agent_id q) p = (y, p1)" by fastforce
  have p1: "unaudited p p1" using assess_agent_posture_control [OF post] by (simp add: unaudited_control)
  from assms post consider "p' = p" | "p' = p1"
    | "refuse_recorded v q e (resolved_tool q op az) fs POSTURE_RECONCILIATION_FAILED p1 = (Inl x, p')"
    | risk po where "conclude w v q op az st e fs risk po p1 = (Inl x, p')"
    by (auto simp: assess_and_conclude_def split: sum.splits if_splits)
  then show ?thesis
    using p1 by cases (auto simp: unaudited_control intro: unaudited_trans dest: refuse_recorded_raise conclude_raises
        dest!: unaudited_control)
qed

lemma detect_and_assess_raises:
  assumes run: "detect_and_assess w v q op az st e p = (Inl x, p')"
  shows "unaudited p p'"
proof (cases "horizon_events w v q st e p")
  case (Inl y)
  with run consider "p' = p" | "refuse_recorded v q e (resolved_tool q op az) [] HORIZON_UNAVAILABLE p = (Inl x, p')"
    by (auto simp: detect_and_assess_def split: if_splits)
  then show ?thesis by cases (auto simp: unaudited_control dest: refuse_recorded_raise)
next
  case (Inr events)
  define detected where "detected = content_findings w q op e
    @ detect_excessive_denials (rw_uuid5 w) (re_record_now v) (rw_window w) events (se_timestamp e)
        (list_findings (session_filter q) (pf_findings p)) (case st of None \<Rightarrow> 0 | Some x \<Rightarrow> es_recovery_generation x)"
  note body = run [unfolded detect_and_assess_def Inr, simplified, folded detected_def, unfolded Let_def]
  show ?thesis
  proof (cases "re_write_fault v")
    case (Some k)
    define p1 where "p1 = p\<lparr>pf_findings := snd (record_new_findings (re_record_now v) (take k detected) (pf_findings p))\<rparr>"
    from Some body have "refuse_recorded v q e (resolved_tool q op az) [] EVIDENCE_RECORDING_FAILED p1 = (Inl x, p')"
      by (simp add: p1_def)
    then have "same_control p1 p'" by (rule refuse_recorded_raise)
    moreover have "same_control p p1" by (simp add: p1_def)
    ultimately show ?thesis by (blast intro: unaudited_control same_control_trans)
  next
    case None
    obtain fs store where new: "record_new_findings (re_record_now v) detected (pf_findings p) = (fs, store)" by fastforce
    define p1 where "p1 = p\<lparr>pf_findings := store, pf_risk := ingest_all (re_record_now v) (rq_agent_id q) fs (pf_risk p)\<rparr>"
    from None body new have "assess_and_conclude w v q op az st e fs p1 = (Inl x, p')"
      by (simp add: p1_def)
    then have "unaudited p1 p'" by (rule assess_and_conclude_raises)
    moreover have "same_control p p1" by (simp add: p1_def)
    ultimately show ?thesis by (blast intro: unaudited_control unaudited_trans)
  qed
qed

lemma execute_raises:
  assumes "runtime_execute w v q p = (Inl x, p')"
  shows "unaudited p p'"
proof -
  obtain b p1 where bind: "on_sessions (bind_or_create_session (rq_session_id q) (rq_agent_id q) (re_bind_now v)) p = (b, p1)"
    by fastforce
  have p1: "unaudited p p1" by (rule unaudited_control [OF on_sessions_control [OF bind]])
  from assms bind consider "p' = p1"
    | op az st ev where "and_then (on_sessions (record_event (rw_retention w) ev)) (\<lambda>e. detect_and_assess w v q op az st e) p1 = (Inl x, p')"
    by (auto simp: runtime_execute_def Let_def refuse_session_binding_def split: sum.splits if_splits)
  then show ?thesis
  proof cases
    case (2 op az st ev)
    from this show ?thesis
      by (rule and_then_raises)
         (blast intro: p1 unaudited_trans unaudited_control dest: on_sessions_control detect_and_assess_raises)+
  qed (simp add: p1)
qed

lemma execute_planes: "planes_kept p (snd (runtime_execute w v q p))"
proof -
  obtain x p' where run: "runtime_execute w v q p = (x, p')" by fastforce
  show ?thesis
  proof (cases x)
    case (Inl e)
    with execute_raises [of w v q p e p'] run show ?thesis by (simp add: unaudited_def)
  next
    case (Inr rr)
    with run have "runtime_execute w v q p = (Inr rr, p')" by simp
    then have "planes_kept p p'"
    proof (cases rule: execute_returns)
      case unbound
      then show ?thesis by (simp add: authority_planes)
    next
      case recorded
      then show ?thesis by (auto simp: refused_recorded_def same_control_def intro: authority_planes)
    next
      case (concluded op az st e po final g p2 p3 p4 p5)
      then have "planes_kept p p2" "planes_kept p2 p3" "planes_kept p3 p4" "planes_kept p4 p5" "planes_kept p5 p'"
        by (auto simp: concluded_def intro: control_planes authority_planes split: if_splits
            dest!: issue_grant_unaudited [unfolded unaudited_def] contain_unaudited [unfolded unaudited_def])
      then show ?thesis by (meson planes_kept_trans)
    qed
    with run show ?thesis by simp
  qed
qed

subsection \<open>The operation a decision is about\<close>

lemma from_operation_fields:
  "from_operation i ver ps r = Inr b \<Longrightarrow> b_tool_id b = i \<and> b_tool_version b = ver \<and> (r \<noteq> None \<longrightarrow> b_resource b = r)"
  by (auto simp: from_operation_def res_bind_Inr Let_def make_binding_Inr split: if_splits sum.splits)

lemma prepared_binding:
  assumes "op_binding (prepare_operation w p q) = Some b"
  shows "\<exists>d t. resolve (pf_registry p) (rq_tool_id q) None = Inr d \<and> b_tool_version b = td_version d
      \<and> get_tool (pf_tools p) (rq_tool_id q) (td_version d) = Inr t \<and> tool_enabled t"
    and "b_tool_id b = rq_tool_id q \<and> wf_binding b \<and> op_tool_version (prepare_operation w p q) = Some (b_tool_version b)
      \<and> op_resource (prepare_operation w p q) = b_resource b \<and> \<not> op_malformed (prepare_operation w p q)"
proof -
  obtain d version where res: "resolve_implementation w p (rq_tool_id q) = (d, version)" by fastforce
  obtain ver resource ps where ver: "version = Some ver" "prepare_operation w p q = bind_operation q version resource ps"
    "from_operation (rq_tool_id q) ver (raw_of ps) resource = Inr b"
    using assms by (auto simp: prepare_operation_def res bind_operation_def split: if_splits sum.splits option.splits prod.splits)
  then show "\<exists>d t. resolve (pf_registry p) (rq_tool_id q) None = Inr d \<and> b_tool_version b = td_version d
      \<and> get_tool (pf_tools p) (rq_tool_id q) (td_version d) = Inr t \<and> tool_enabled t"
    using res from_operation_fields [OF ver(3)]
    by (auto simp: resolve_implementation_def version_is_enabled_def split: if_splits sum.splits)
  from ver show "b_tool_id b = rq_tool_id q \<and> wf_binding b \<and> op_tool_version (prepare_operation w p q) = Some (b_tool_version b)
      \<and> op_resource (prepare_operation w p q) = b_resource b \<and> \<not> op_malformed (prepare_operation w p q)"
    using from_operation_fields [OF ver(3)] from_operation_wf [OF ver(3)] by (simp add: bind_operation_def)
qed

lemma escalated_allow: "escalated d (response_types l) = ALLOW \<longleftrightarrow> d = ALLOW \<and> l \<in> {RL_LOW, RL_MEDIUM}"
  by (cases l) (auto simp: escalated_def)

lemma authorize_allows_lifecycle:
  assumes "authorize s tools aid tid resource = Inr d" and "d \<noteq> DENY"
  shows "lifecycle_refusal s aid = None"
proof -
  obtain r where r: "evaluate s tools aid tid resource = Inr r" "az_decision r = d"
    using assms by (auto simp: authorize_def res_bind_Inr)
  from r(1) show ?thesis
    by (cases rule: evaluate_cases) (use r(2) assms(2) in \<open>auto simp: policy_decision refused_at_agent_def split: if_splits\<close>)
qed

text \<open>
  \<open>warranted\<close>: everything a grant for this request rests on, in the state in which the request arrived. \<open>d\<close> is the
  registered implementation, \<open>t\<close> its governance record, \<open>c\<close> its capability profile.
\<close>

definition warranted :: "runtime \<Rightarrow> request \<Rightarrow> platform \<Rightarrow> grant \<Rightarrow> descriptor \<Rightarrow> tool \<Rightarrow> capabilities \<Rightarrow> bool" where
  "warranted w q p g d t c \<longleftrightarrow>
     gr_agent_id g = rq_agent_id q \<and> gr_session_id g = rq_session_id q
     \<and> b_tool_id (gr_binding g) = rq_tool_id q \<and> b_tool_version (gr_binding g) = td_version d
     \<and> resolve (pf_registry p) (rq_tool_id q) None = Inr d
     \<and> get_tool (pf_tools p) (rq_tool_id q) (td_version d) = Inr t \<and> tool_enabled t
     \<and> authorize (pf_agents p) (pf_tools p) (rq_agent_id q) (rq_tool_id q) (b_resource (gr_binding g)) = Inr ALLOW
     \<and> lifecycle_refusal (pf_agents p) (rq_agent_id q) = None
     \<and> \<not> issuance_suspended (pf_authority p) (rq_agent_id q)
     \<and> dget (pf_profiles p) (profile_for (rq_tool_id q)) = Some c
     \<and> gr_capability_profile_id g = Some (cp_profile_id c)
     \<and> gr_capability_digest g = Some (compute_digest (rw_sha w) c)"

lemma new_grant_fields [simp]:
  "gr_agent_id (new_grant mac now uuid b aid sid pr dg a) = aid" "gr_session_id (new_grant mac now uuid b aid sid pr dg a) = sid"
  "gr_binding (new_grant mac now uuid b aid sid pr dg a) = b"
  "gr_capability_profile_id (new_grant mac now uuid b aid sid pr dg a) = pr"
  "gr_capability_digest (new_grant mac now uuid b aid sid pr dg a) = dg"
  by (simp_all add: new_grant_def Let_def)

lemma new_grant_authentic:
  "au_authority_id a' = au_authority_id a \<Longrightarrow>
   verify_authenticity mac a' (Presented (new_grant mac now uuid b aid sid pr dg a)) = Inr (new_grant mac now uuid b aid sid pr dg a)"
  by (simp add: authentic_iff new_grant_def Let_def)

lemma grant_request_fields [simp]:
  "iq_binding (grant_request w q b c n d) = b" "iq_decision (grant_request w q b c n d) = d"
  "iq_agent_id (grant_request w q b c n d) = rq_agent_id q" "iq_session_id (grant_request w q b c n d) = rq_session_id q"
  "iq_capability_profile_id (grant_request w q b c n d) = Some (cp_profile_id c)"
  "iq_capability_digest (grant_request w q b c n d) = Some (compute_digest (rw_sha w) c)"
  by (simp_all add: grant_request_def)

lemma concluded_grant:
  assumes c: "concluded w v q (prepare_operation w p q) az st e po final (Some g) p2 p3 p4 p5 rr p'"
    and az: "authorize_request p q (prepare_operation w p q) = Inr az" "se_decision e = authorized_decision az"
    and ctl: "same_control p p2"
  obtains d t cap where "warranted w q p g d t cap" "po_risk_level po \<in> {RL_LOW, RL_MEDIUM}" "p5 = p4" "wf_binding (gr_binding g)"
    "dget (au_outstanding (pf_authority p3)) (gr_grant_id g) =
       Some \<lparr>og_expires_at = gr_expires_at g, og_agent_id = rq_agent_id q, og_session_id = rq_session_id q\<rparr>"
    "verify_authenticity (rw_mac w) (pf_authority p3) (Presented g) = Inr g"
proof -
  let ?op = "prepare_operation w p q"
  from c have i: "issue_grant w v q ?op (case st of None \<Rightarrow> 0 | Some x \<Rightarrow> es_epoch x)
      (escalated (se_decision e) (response_types (po_risk_level po))) p2 = (Inr (final, Some g), p3)"
    by (simp add: concluded_def)
  from i obtain b cap a where b: "op_binding ?op = Some b" "dget (pf_profiles p2) (profile_for (rq_tool_id q)) = Some cap"
    and iss: "issue (rw_mac w) (re_issue_now v) (re_grant_uuid v) (authority_repository p2)
      (grant_request w q b cap (case st of None \<Rightarrow> 0 | Some x \<Rightarrow> es_epoch x) (escalated (se_decision e) (response_types (po_risk_level po))))
      (pf_authority p2) = (Inr (Some g), a)" and p3: "p3 = p2\<lparr>pf_authority := a\<rparr>"
    and allow: "escalated (se_decision e) (response_types (po_risk_level po)) = ALLOW"
    by (rule issue_grant_some) blast
  note op = prepared_binding(2) [OF b(1)] and g = issued_grant [OF iss]
  from allow have dec: "se_decision e = ALLOW" "po_risk_level po \<in> {RL_LOW, RL_MEDIUM}" by (simp_all add: escalated_allow)
  have "authorize (pf_agents p) (pf_tools p) (rq_agent_id q) (rq_tool_id q) (b_resource b) = Inr ALLOW"
    using az dec op by (auto simp: authorize_request_def authorized_decision_def authorize_def res_bind_Inr split: option.splits)
  moreover obtain d t where "resolve (pf_registry p) (rq_tool_id q) None = Inr d" "b_tool_version b = td_version d"
    "get_tool (pf_tools p) (rq_tool_id q) (td_version d) = Inr t" "tool_enabled t"
    using prepared_binding(1) [OF b(1)] by blast
  moreover have "dget (pf_profiles p) (profile_for (rq_tool_id q)) = Some cap" "pf_authority p2 = pf_authority p"
    using b(2) ctl by (simp_all add: same_control_def)
  ultimately have w: "warranted w q p g d t cap"
    using op g(1) by (auto simp: warranted_def g(2) may_issue_def dest: authorize_allows_lifecycle)
  have gb: "gr_binding g = b" by (simp add: g(2))
  have "p5 = p4" using c dec(2) by (auto simp: concluded_def)
  moreover have "verify_authenticity (rw_mac w) (pf_authority p3) (Presented g) = Inr g"
    unfolding g(2) by (rule new_grant_authentic) (simp add: g(4) p3)
  ultimately show thesis
    using w dec g(3) p3 op gb by (intro that) simp_all
qed

subsection \<open>A concrete composition\<close>

definition ex_runtime :: runtime where
  "ex_runtime = \<lparr>rw_mac = ex_mac, rw_sha = ex_sha, rw_uuid5 = ex_uuid, rw_fs = ex_fsys,
     rw_rules = [prompt_injection_rule ex_uuid, sensitive_file_access_rule ex_uuid, data_exfiltration_rule ex_uuid],
     rw_window = default_excessive_denials_window, rw_retention = None, rw_authority = True, rw_tool_service = True,
     rw_registry = True\<rparr>"

definition ex_runtime_env :: runtime_env where
  "ex_runtime_env = \<lparr>re_bind_now = 30, re_event_now = 31, re_record_now = 32, re_assess_now = 33, re_issue_now = 34,
     re_audit_now = 35, re_agent_env = ex_env, re_audit_uuid = ''1'', re_grant_uuid = ''g'', re_horizon_fault = False,
     re_write_fault = None\<rparr>"

definition ex_profile :: capabilities where
  "ex_profile = ex_caps\<lparr>cp_profile_id := ''profile-file_read''\<rparr>"

definition ex_platform :: "agent_service \<Rightarrow> findings_store \<Rightarrow> platform" where
  "ex_platform s f = (ex_stores s)\<lparr>pf_authority := ex_authority, pf_findings := f,
     pf_tools := snd (register_tool \<lparr>tl_metadata = ex_metadata ''file_read'' ''1.0'' TR_LOW\<rparr> []),
     pf_registry := register_all [ex_tool ''1.0''], pf_profiles := [(''profile-file_read'', ex_profile)]\<rparr>"

definition ex_read :: request where
  "ex_read = \<lparr>rq_session_id = ''s'', rq_agent_id = ''a'', rq_tool_id = ''file_read'', rq_resource = None,
     rq_user_prompt = ''read it'', rq_model_output = [], rq_tool_output = [], rq_parameters = [(path_key, Some (PyStr ''./a''))]\<rparr>"

definition ex_outcome :: "findings_store \<Rightarrow> runtime_result res \<times> platform" where
  "ex_outcome f = runtime_execute ex_runtime ex_runtime_env ex_read (ex_platform ex_active f)"

lemma ex_outcome_allowed:
  "map_sum id (\<lambda>rr. (rr_authorization rr \<noteq> None, se_final_decision (rr_event rr))) (fst (ex_outcome empty_findings))
     = Inr (True, Some ALLOW)"
  by code_simp

lemma ex_outcome_contained:
  "map_sum id (\<lambda>rr. (rr_authorization rr \<noteq> None, se_final_decision (rr_event rr), map_option rs_response_type (rr_response_action rr)))
     (fst (ex_outcome ex_store)) = Inr (False, Some DENY, Some SUSPEND_AGENT)"
  by code_simp

lemma ex_outcome_returns:
  assumes "map_sum id h (fst (ex_outcome f)) = Inr y"
  obtains rr p' where "runtime_execute ex_runtime ex_runtime_env ex_read (ex_platform ex_active f) = (Inr rr, p')" "h rr = y"
    "fst (ex_outcome f) = Inr rr" "p' = snd (ex_outcome f)"
  using assms by (cases "ex_outcome f"; cases "fst (ex_outcome f)") (auto simp: ex_outcome_def)

subsection \<open>Properties of the pipeline\<close>

text \<open>
  (C1) Every ALLOW that carries authority is warranted. When a request comes back with a grant, then in the state in which
  the request arrived the authorization service allowed exactly the bound operation with its canonical resource, neither lifecycle
  plane refused, issuance was open, the bound version is the one the registry resolved and its governance record is enabled,
  and the grant carries the agent and session of the request and the profile and digest of the tool's own capability set. The session
  belongs to the agent, and the posture the decision rests on is healthy with a level below \<open>HIGH\<close>.
\<close>

theorem allow_is_warranted:
  assumes "runtime_execute w v q p = (Inr rr, p')" and "rr_authorization rr = Some g"
  shows "\<exists>d t c po. warranted w q p g d t c
    \<and> session_owner (pf_sessions p') (rq_session_id q) = Some (rq_agent_id q)
    \<and> rr_enforcement_posture rr = Some po \<and> po_state po = HEALTHY \<and> po_risk_level po \<in> {RL_LOW, RL_MEDIUM}
    \<and> se_final_decision (rr_event rr) = Some ALLOW"
  using assms(1)
proof (cases rule: execute_returns)
  case (concluded op az st e po final h p2 p3 p4 p5)
  have h: "h = Some g" using concluded(11) assms(2) by (simp add: concluded_def)
  obtain d t c where w: "warranted w q p g d t c" "po_risk_level po \<in> {RL_LOW, RL_MEDIUM}" "p5 = p4"
    by (rule concluded_grant [OF concluded(11) [unfolded concluded(1) h] concluded(2) [unfolded concluded(1)] concluded(4,8)])
  have "issue_grant w v q op (case st of None \<Rightarrow> 0 | Some x \<Rightarrow> es_epoch x)
      (escalated (se_decision e) (response_types (po_risk_level po))) p2 = (Inr (final, Some g), p3)"
    using concluded(11) h by (simp add: concluded_def)
  then obtain a where i: "p3 = p2\<lparr>pf_authority := a\<rparr>" "final = ALLOW" by (rule issue_grant_some) blast
  obtain r where r: "update_event_final_decision (rq_session_id q) (se_sequence_number e) final (pf_sessions p3) = (Inr (), r)"
    "p4 = p3\<lparr>pf_sessions := r\<rparr>"
    using concluded(11) by (auto simp: concluded_def)
  have "sr_sessions r = sr_sessions (pf_sessions p3)" "sr_tombstones r = sr_tombstones (pf_sessions p3)"
    using finalize_keeps [of "rq_session_id q" "se_sequence_number e" final "pf_sessions p3"] unfolding r(1) by simp_all
  then have "session_owner r sid = session_owner (pf_sessions p3) sid" for sid
    by (simp only: session_owner_def)
  moreover have "pf_sessions p' = r" "pf_sessions p3 = pf_sessions p2"
    using concluded(11) i(1) r(2) w(3) by (simp_all add: concluded_def)
  ultimately have "session_owner (pf_sessions p') (rq_session_id q) = Some (rq_agent_id q)"
    using concluded(9) by simp
  with w i(2) concluded(10,11) show ?thesis by (auto simp: concluded_def)
qed (use assms(2) in \<open>auto simp: refused_def refused_recorded_def\<close>)

theorem allow_is_warranted_witness:
  "\<exists>rr g d t c. fst (ex_outcome empty_findings) = Inr rr \<and> rr_authorization rr = Some g
     \<and> warranted ex_runtime ex_read (ex_platform ex_active empty_findings) g d t c"
proof -
  obtain rr p' where run: "runtime_execute ex_runtime ex_runtime_env ex_read (ex_platform ex_active empty_findings) = (Inr rr, p')"
    and h: "rr_authorization rr \<noteq> None \<and> se_final_decision (rr_event rr) = Some ALLOW" "fst (ex_outcome empty_findings) = Inr rr"
    by (rule ex_outcome_returns [OF ex_outcome_allowed]) simp
  then obtain g where "rr_authorization rr = Some g" by auto
  with allow_is_warranted [OF run this] h show ?thesis by blast
qed

text \<open>
  (C14) The record of a request and the authority it carries agree, whatever way it ends. With an execution authority wired in, a result carries a grant exactly when its
  recorded final decision is ALLOW; the audit trail grows by exactly one entry, with the identifier returned to the caller, the identities of the request and that final
  decision; and unless the session itself was refused, the stored session event carries the same decision. A request that
  raises instead leaves the audit trail as it was.
\<close>

theorem outcome_recorded_once:
  assumes "runtime_execute w v q p = (x, p')"
  shows "case x of Inl e \<Rightarrow> pf_audit p' = pf_audit p
    | Inr rr \<Rightarrow> \<exists>d a. se_final_decision (rr_event rr) = Some d
        \<and> (rw_authority w \<longrightarrow> (rr_authorization rr \<noteq> None \<longleftrightarrow> d = ALLOW))
        \<and> pf_audit p' = pf_audit p @ [a] \<and> ae_event_id a = rr_audit_event_id rr \<and> ae_decision a = d
        \<and> ae_session_id a = rq_session_id q \<and> ae_agent_id a = rq_agent_id q \<and> ae_requested_tool_id a = rq_tool_id q
        \<and> (rr_refusal_reason rr \<noteq> Some SESSION_BINDING_INVALID \<longrightarrow>
             event_final (rq_session_id q) (se_sequence_number (rr_event rr)) d (pf_sessions p'))"
proof (cases x)
  case (Inl e)
  with assms execute_raises [of w v q p e p'] show ?thesis by (simp add: unaudited_def)
next
  case (Inr rr)
  from assms [unfolded Inr] show ?thesis
  proof (cases rule: execute_returns)
    case unbound
    then show ?thesis
      by (simp add: Inr refused_def new_event_def record_audit_def audit_record_event_def audit_append_def)
  next
    case recorded
    then show ?thesis
      by (auto simp: Inr refused_recorded_def refused_def record_audit_def audit_record_event_def audit_append_def
          same_control_def finalized)
  next
    case (concluded op az st e po final g p2 p3 p4 p5)
    note c = concluded(11) [unfolded concluded_def]
    then have i: "issue_grant w v q op (case st of None \<Rightarrow> 0 | Some x \<Rightarrow> es_epoch x)
      (escalated (se_decision e) (response_types (po_risk_level po))) p2 = (Inr (final, g), p3)" by blast
    have "pf_audit p4 = pf_audit p"
      using c issue_grant_unaudited [OF i] concluded(8) by (auto simp: unaudited_def same_control_def)
    then have audit: "pf_audit p5 = pf_audit p" and sess: "pf_sessions p5 = pf_sessions p4"
      using c contain_run by (auto split: if_splits)
    show ?thesis
      using c issue_grant_agree [OF i] audit sess
      by (auto simp: Inr record_audit_def audit_record_event_def audit_append_def finalized)
  qed
qed

theorem outcome_recorded_once_witness:
  "map ae_decision (pf_audit (snd (ex_outcome empty_findings))) = [ALLOW]
   \<and> map ae_decision (pf_audit (snd (ex_outcome ex_store))) = [DENY]"
proof
  have e: "pf_audit (ex_platform ex_active f) = []" for f by (simp add: ex_platform_def ex_stores_def)
  show "map ae_decision (pf_audit (snd (ex_outcome empty_findings))) = [ALLOW]"
  proof (rule ex_outcome_returns [OF ex_outcome_allowed])
    fix rr p' assume run: "runtime_execute ex_runtime ex_runtime_env ex_read (ex_platform ex_active empty_findings) = (Inr rr, p')"
      and "(rr_authorization rr \<noteq> None, se_final_decision (rr_event rr)) = (True, Some ALLOW)"
      and "p' = snd (ex_outcome empty_findings)"
    with outcome_recorded_once [OF run] show ?thesis by (auto simp: e)
  qed
  show "map ae_decision (pf_audit (snd (ex_outcome ex_store))) = [DENY]"
  proof (rule ex_outcome_returns [OF ex_outcome_contained])
    fix rr p' assume run: "runtime_execute ex_runtime ex_runtime_env ex_read (ex_platform ex_active ex_store) = (Inr rr, p')"
      and "(rr_authorization rr \<noteq> None, se_final_decision (rr_event rr), map_option rs_response_type (rr_response_action rr))
        = (False, Some DENY, Some SUSPEND_AGENT)"
      and "p' = snd (ex_outcome ex_store)"
    with outcome_recorded_once [OF run] show ?thesis by (auto simp: e)
  qed
qed

text \<open>
  (C15) Refusals fail closed. A request refused because its session cannot be bound, because the posture cannot be reconciled, because the detection horizon is
  unavailable or because evidence could not be recorded carries no grant, its final decision is DENY, and no agent state, grant, tool, profile or execution
  evidence has changed. When the session is refused, nothing but the audit trail has changed at all.
\<close>

theorem refusal_fails_closed:
  assumes "runtime_execute w v q p = (Inr rr, p')" and "rr_refusal_reason rr = Some reason"
  shows "rr_authorization rr = None \<and> rr_response_action rr = None \<and> se_final_decision (rr_event rr) = Some DENY
    \<and> pf_agents p' = pf_agents p \<and> pf_authority p' = pf_authority p \<and> pf_tools p' = pf_tools p
    \<and> pf_registry p' = pf_registry p \<and> pf_profiles p' = pf_profiles p \<and> pf_evidence p' = pf_evidence p
    \<and> (reason = SESSION_BINDING_INVALID \<longrightarrow> (\<exists>log. p' = p\<lparr>pf_audit := log\<rparr>))"
  using assms(1)
proof (cases rule: execute_returns)
  case unbound
  then show ?thesis by (auto simp: refused_def new_event_def record_audit_def)
next
  case recorded
  then show ?thesis using assms(2) by (auto simp: refused_recorded_def refused_def same_control_def)
next
  case (concluded op az st e po final g p2 p3 p4 p5)
  then show ?thesis using assms(2) by (simp add: concluded_def)
qed

theorem refusal_fails_closed_witness:
  "\<exists>rr p' log. runtime_execute ex_runtime (ex_runtime_env\<lparr>re_bind_now := 40\<rparr>) (ex_read\<lparr>rq_agent_id := ''b''\<rparr>)
       (snd (ex_outcome empty_findings)) = (Inr rr, p')
     \<and> rr_refusal_reason rr = Some SESSION_BINDING_INVALID \<and> p' = (snd (ex_outcome empty_findings))\<lparr>pf_audit := log\<rparr>"
proof -
  let ?run = "runtime_execute ex_runtime (ex_runtime_env\<lparr>re_bind_now := 40\<rparr>) (ex_read\<lparr>rq_agent_id := ''b''\<rparr>)
       (snd (ex_outcome empty_findings))"
  have "map_sum id rr_refusal_reason (fst ?run) = Inr (Some SESSION_BINDING_INVALID)" by code_simp
  then obtain rr p' where run: "?run = (Inr rr, p')" and r: "rr_refusal_reason rr = Some SESSION_BINDING_INVALID"
    by (cases ?run; cases "fst ?run") auto
  from refusal_fails_closed [OF run r] run r show ?thesis by blast
qed

subsection \<open>Containment\<close>

lemma grant_needs_open_issuance:
  assumes "runtime_execute w v q p = (Inr rr, p')" and "issuance_suspended (pf_authority p) (rq_agent_id q)"
  shows "rr_authorization rr = None"
proof (rule ccontr)
  assume "rr_authorization rr \<noteq> None"
  then obtain g where g: "rr_authorization rr = Some g" by auto
  from assms(1) show False
  proof (cases rule: execute_returns)
    case (concluded op az st e po final h p2 p3 p4 p5)
    have h: "h = Some g" using concluded(11) g by (simp add: concluded_def)
    obtain d t c where "warranted w q p g d t c"
      by (rule concluded_grant [OF concluded(11) [unfolded concluded(1) h] concluded(2) [unfolded concluded(1)] concluded(4,8)])
    with assms(2) show False by (simp add: warranted_def)
  qed (use g in \<open>auto simp: refused_def refused_recorded_def\<close>)
qed

lemma closed_agent_gets_nothing:
  assumes "PLANE_ENFORCEMENT \<in> issuance_closed_planes (pf_authority p) aid"
    and "((v, q), Inr rr) \<in> set (results (\<lambda>(v, q). runtime_execute w v q) xs p)" and "rq_agent_id q = aid"
  shows "rr_authorization rr = None"
  using assms(1,2)
proof (induction xs arbitrary: p)
  case (Cons x xs)
  have "PLANE_ENFORCEMENT \<in> issuance_closed_planes (pf_authority (snd ((\<lambda>(v, q). runtime_execute w v q) x p))) aid"
    using execute_planes [of p w "fst x" "snd x"] Cons.prems(1) by (auto simp: planes_kept_def split_beta)
  with Cons.IH Cons.prems have "rr_authorization rr = None"
    if "((v, q), Inr rr) \<in> set (results (\<lambda>(v, q). runtime_execute w v q) xs (snd ((\<lambda>(v, q). runtime_execute w v q) x p)))"
    using that by blast
  moreover have "rr_authorization rr = None" if "x = (v, q)" "Inr rr = fst (runtime_execute w v q p)"
    using grant_needs_open_issuance [of w v q p rr "snd (runtime_execute w v q p)"] that Cons.prems(1) assms(3)
    by (auto simp: issuance_suspended_def prod_eq_iff)
  ultimately show ?case using Cons.prems(2) by auto
qed simp

lemma response_concluded:
  assumes "runtime_execute w v q p = (Inr rr, p')" and "rr_response_action rr = Some ra" and "rs_response_type ra = SUSPEND_AGENT"
    and auth: "rw_authority w"
  obtains p4 p5 po where "rr_authorization rr = None" "se_final_decision (rr_event rr) \<noteq> Some ALLOW"
    "pf_agents p4 = pf_agents p" "pf_authority p4 = pf_authority p" "contain w v q po (rr_findings rr) p4 = (Inr (), p5)"
    "pf_agents p' = pf_agents p5" "pf_authority p' = pf_authority p5"
  using assms(1)
proof (cases rule: execute_returns)
  case (concluded op az st e po final g p2 p3 p4 p5)
  note c = concluded(11) [unfolded concluded_def]
  have sus: "response_types (po_risk_level po) = SUSPEND_AGENT"
    using c assms(2,3) by (auto simp: recommend_for_level_def)
  have i: "issue_grant w v q op (case st of None \<Rightarrow> 0 | Some x \<Rightarrow> es_epoch x)
      (escalated (se_decision e) SUSPEND_AGENT) p2 = (Inr (final, g), p3)" using c sus by simp
  have "g = None"
  proof (rule ccontr)
    assume "g \<noteq> None"
    then obtain h where "g = Some h" by auto
    with i have "escalated (se_decision e) SUSPEND_AGENT = ALLOW" by (auto elim: issue_grant_some)
    then show False by (simp add: escalated_def split: if_splits)
  qed
  note none = issue_grant_none [OF i [unfolded this]]
  from i obtain a where "p3 = p2\<lparr>pf_authority := a\<rparr>" by (rule issue_grant_state)
  with none(1) have p3: "p3 = p2" by simp
  show thesis
  proof (rule that)
    show "rr_authorization rr = None" using c \<open>g = None\<close> by simp
    show "se_final_decision (rr_event rr) \<noteq> Some ALLOW" using c none(2) auth by (auto simp: deny_if_allowed_def split: if_splits)
    show "pf_agents p4 = pf_agents p" "pf_authority p4 = pf_authority p"
      using c concluded(8) p3 by (auto simp: same_control_def)
    show "contain w v q po (rr_findings rr) p4 = (Inr (), p5)" using c sus by simp
    show "pf_agents p' = pf_agents p5" "pf_authority p' = pf_authority p5" using c by simp_all
  qed
qed (use assms(2) in \<open>auto simp: refused_def refused_recorded_def\<close>)

text \<open>
  (C12) Containment is complete when it is answered. When the response to a request is to suspend the agent, and its planes
  can be read, the result carries no grant and no ALLOW; exactly the agent's own outstanding grants are gone; the enforcement plane keeps
  issuance closed; the lifecycle policy refuses the agent; and in any later sequence of requests, by whichever agents, no request of this agent obtains a grant.
\<close>

theorem containment_is_complete:
  assumes "runtime_execute w v q p = (Inr rr, p')"
    and "rr_response_action rr = Some ra" and "rs_response_type ra = SUSPEND_AGENT" and "rw_authority w"
    and "authority_inv (pf_authority p)" and "service_inv (pf_agents p)"
    and "dget (sv_agents (pf_agents p)) (rq_agent_id q) = Some x"
    and "ar_fault (sv_admin (pf_agents p)) = None" and "er_fault (sv_enf (pf_agents p)) = None"
  shows "rr_authorization rr = None \<and> se_final_decision (rr_event rr) \<noteq> Some ALLOW
    \<and> (\<forall>gid. dget (au_outstanding (pf_authority p')) gid =
         (case dget (au_outstanding (pf_authority p)) gid of
            Some og \<Rightarrow> if og_agent_id og = rq_agent_id q then None else Some og | None \<Rightarrow> None))
    \<and> PLANE_ENFORCEMENT \<in> issuance_closed_planes (pf_authority p') (rq_agent_id q)
    \<and> lifecycle_refusal (pf_agents p') (rq_agent_id q) \<noteq> None
    \<and> (\<forall>xs v' q' rr'. ((v', q'), Inr rr') \<in> set (results (\<lambda>(v, q). runtime_execute w v q) xs p')
         \<and> rq_agent_id q' = rq_agent_id q \<longrightarrow> rr_authorization rr' = None)"
proof -
  obtain p4 p5 po where c: "rr_authorization rr = None" "se_final_decision (rr_event rr) \<noteq> Some ALLOW"
    and p4: "pf_agents p4 = pf_agents p" "pf_authority p4 = pf_authority p"
    and con: "contain w v q po (rr_findings rr) p4 = (Inr (), p5)"
    and p': "pf_agents p' = pf_agents p5" "pf_authority p' = pf_authority p5"
    by (rule response_concluded [OF assms(1-4)])
  have au: "pf_authority p' = snd (suspend_issuance (rq_agent_id q) PLANE_ENFORCEMENT (pf_authority p))"
    using contain_run [OF con] assms(4) p4 p' by simp
  obtain trig where ag: "pf_agents p' = snd (suspend_agent (re_agent_env v) (rq_agent_id q)
      ''Runtime enforcement: risk posture requires suspension'' trig (pf_agents p))"
    using contain_run [OF con] p4 p' by auto
  have "lifecycle_refusal (pf_agents p') (rq_agent_id q) \<noteq> None"
    using suspend_agent_returns [OF assms(6-9), of "re_agent_env v" "''Runtime enforcement: risk posture requires suspension''" trig]
    by (auto simp: ag lifecycle_refusal_None)
  moreover have closed: "PLANE_ENFORCEMENT \<in> issuance_closed_planes (pf_authority p') (rq_agent_id q)"
    by (simp add: au suspend_closed)
  moreover have "distinct (dkeys (au_outstanding (pf_authority p)))" using assms(5) by (simp add: authority_inv_def)
  ultimately show ?thesis
    using c closed_agent_gets_nothing [OF closed] by (simp add: au suspend_outstanding) blast
qed

theorem containment_is_complete_witness:
  "lifecycle_refusal (pf_agents (snd (ex_outcome ex_store))) ''a'' \<noteq> None
   \<and> PLANE_ENFORCEMENT \<in> issuance_closed_planes (pf_authority (snd (ex_outcome ex_store))) ''a''"
proof (rule ex_outcome_returns [OF ex_outcome_contained])
  fix rr p' assume run: "runtime_execute ex_runtime ex_runtime_env ex_read (ex_platform ex_active ex_store) = (Inr rr, p')"
    and r: "(rr_authorization rr \<noteq> None, se_final_decision (rr_event rr), map_option rs_response_type (rr_response_action rr))
        = (False, Some DENY, Some SUSPEND_AGENT)" and p': "p' = snd (ex_outcome ex_store)"
  obtain ra where ra: "rr_response_action rr = Some ra" "rs_response_type ra = SUSPEND_AGENT" using r by auto
  have w: "rw_authority ex_runtime" "authority_inv (pf_authority (ex_platform ex_active ex_store))"
    "service_inv (pf_agents (ex_platform ex_active ex_store))"
    using ex_inv service_inv_reachable [OF ex_reachable(1)] by (simp_all add: ex_runtime_def ex_platform_def ex_stores_def)
  have "map_option ag_id (dget (sv_agents (pf_agents (ex_platform ex_active ex_store))) (rq_agent_id ex_read)) = Some ''a''"
    "ar_fault (sv_admin (pf_agents (ex_platform ex_active ex_store))) = None"
    "er_fault (sv_enf (pf_agents (ex_platform ex_active ex_store))) = None"
    by code_simp+
  then obtain x where "dget (sv_agents (pf_agents (ex_platform ex_active ex_store))) (rq_agent_id ex_read) = Some x"
    "ar_fault (sv_admin (pf_agents (ex_platform ex_active ex_store))) = None"
    "er_fault (sv_enf (pf_agents (ex_platform ex_active ex_store))) = None" by auto
  from containment_is_complete [OF run ra w this] p' show ?thesis by (simp add: ex_read_def)
qed

end
