(* ===== verification/Agent_Runtime.thy ===== *)
theory Agent_Runtime
  imports Executor Runtime_Guarantees
begin

section \<open>From a query to a tool call\<close>

text \<open>
  \<^verbatim>\<open>app/services/agent_runtime_service.py\<close> composes the pipeline and the executor: an agent turns a query into a tool
  invocation, the runtime decides, and only a final ALLOW reaches the executor, with the grant and the
  parameters the decision bound. The agent is an interface of the code (\<^verbatim>\<open>EnterpriseAgent\<close>), so it is an argument;
  \<^verbatim>\<open>app/agents/simple_agent.py\<close> is one implementation. The serialisation of the invocation is pydantic's and a
  parameter. The executor shares the runtime's authority, capability profiles and, unless it was built with its own, its
  tool registry.
\<close>

subsection \<open>Agents\<close>

record invocation =
  iv_tool_id :: string
  iv_parameters :: "(string, string) dict"

definition simple_decide_tool :: "string \<Rightarrow> invocation res" where
  "simple_decide_tool query =
     (let normalized = map lower_char (strip query)
      in if prefix ''read '' normalized
           then Inr \<lparr>iv_tool_id = ''file_read'', iv_parameters = [(''path'', drop 5 (strip query))]\<rparr>
         else if normalized \<in> {''list files'', ''show files''}
           then Inr \<lparr>iv_tool_id = ''directory_list'', iv_parameters = [(''path'', ''.'')]\<rparr>
         else Inl ValueError)"

record enterprise_agent =
  ea_agent_id :: string
  ea_invoke :: "string \<Rightarrow> invocation res"

definition simple_agent :: "string \<Rightarrow> enterprise_agent" where
  "simple_agent aid = \<lparr>ea_agent_id = aid, ea_invoke = simple_decide_tool\<rparr>"

subsection \<open>The service\<close>

record 'o agent_runtime =
  as_agent :: enterprise_agent
  as_runtime :: runtime
  as_executor :: "'o executor"
  as_own_registry :: "tool_registry option"
  as_evidence :: bool
  as_dump :: "invocation \<Rightarrow> string"

record deployment =
  dp_platform :: platform
  dp_dispatched :: "sandbox_call list"

record 'o agent_runtime_result =
  ar_decision :: decision
  ar_response_type :: response_type
  ar_output :: "'o option"

definition executor_of :: "'o agent_runtime \<Rightarrow> platform \<Rightarrow> 'o executor" where
  "executor_of s p = (as_executor s)\<lparr>xc_mac := rw_mac (as_runtime s), xc_sha := rw_sha (as_runtime s),
     xc_profiles := Some (pf_profiles p),
     xc_registry := (case as_own_registry s of None \<Rightarrow> Some (pf_registry p) | Some reg \<Rightarrow> Some reg)\<rparr>"

definition exec_state_of :: "'o agent_runtime \<Rightarrow> deployment \<Rightarrow> exec_state" where
  "exec_state_of s d =
     \<lparr>xs_authority = (if rw_authority (as_runtime s) then Some (pf_authority (dp_platform d)) else None),
      xs_evidence = (if as_evidence s then Some (pf_evidence (dp_platform d)) else None), xs_dispatched = dp_dispatched d\<rparr>"

definition put_back :: "exec_state \<Rightarrow> deployment \<Rightarrow> deployment" where
  "put_back e d = d\<lparr>dp_dispatched := xs_dispatched e,
     dp_platform := (dp_platform d)
       \<lparr>pf_authority := (case xs_authority e of None \<Rightarrow> pf_authority (dp_platform d) | Some a \<Rightarrow> a),
        pf_evidence := (case xs_evidence e of None \<Rightarrow> pf_evidence (dp_platform d) | Some x \<Rightarrow> x)\<rparr>\<rparr>"

definition request_of :: "'o agent_runtime \<Rightarrow> string \<Rightarrow> string \<Rightarrow> string \<Rightarrow> invocation \<Rightarrow> request" where
  "request_of s uuid aid query iv =
     \<lparr>rq_session_id = uuid, rq_agent_id = aid, rq_tool_id = iv_tool_id iv, rq_resource = dget (iv_parameters iv) ''path'',
      rq_user_prompt = query, rq_model_output = as_dump s iv, rq_tool_output = [],
      rq_parameters = map (\<lambda>(k, v). (PyStr k, Some (PyStr v))) (iv_parameters iv)\<rparr>"

definition authorized_parameters :: "runtime_result \<Rightarrow> (string, string) dict" where
  "authorized_parameters rr = (case rr_authorization rr of None \<Rightarrow> [] | Some g \<Rightarrow> parameters_dict (gr_binding g))"

definition final_or_first :: "session_event \<Rightarrow> decision" where
  "final_or_first e = (case se_final_decision e of Some d \<Rightarrow> d | None \<Rightarrow> se_decision e)"

definition response_or_monitor :: "runtime_result \<Rightarrow> response_type" where
  "response_or_monitor rr = (case rr_response_action rr of Some a \<Rightarrow> rs_response_type a | None \<Rightarrow> MONITOR)"

definition run_decided ::
  "'o agent_runtime \<Rightarrow> exec_env \<Rightarrow> runtime_result \<Rightarrow> (deployment, 'o agent_runtime_result) eff" where
  "run_decided s x rr d =
     (let decision = final_or_first (rr_event rr)
      in if decision \<noteq> ALLOW
           then (Inr \<lparr>ar_decision = decision, ar_response_type = response_or_monitor rr, ar_output = None\<rparr>, d)
         else (case execute (executor_of s (dp_platform d)) x (rr_authorization rr) (as_params (authorized_parameters rr)) None
                      (exec_state_of s d) of
                 (Inl e, xs) \<Rightarrow> (Inl e, put_back xs d)
               | (Inr out, xs) \<Rightarrow>
                   (Inr \<lparr>ar_decision = decision, ar_response_type = response_or_monitor rr, ar_output = out\<rparr>, put_back xs d)))"

definition agent_execute ::
  "'o agent_runtime \<Rightarrow> runtime_env \<Rightarrow> exec_env \<Rightarrow> string \<Rightarrow> string \<Rightarrow> string option \<Rightarrow> (deployment, 'o agent_runtime_result) eff" where
  "agent_execute s v x uuid query aid d =
     (if aid \<noteq> None \<and> aid \<noteq> Some (ea_agent_id (as_agent s)) then (Inl ValueError, d)
      else case ea_invoke (as_agent s) query of
             Inl e \<Rightarrow> (Inl e, d)
           | Inr iv \<Rightarrow>
               (case runtime_execute (as_runtime s) v (request_of s uuid (ea_agent_id (as_agent s)) query iv) (dp_platform d) of
                  (Inl e, p') \<Rightarrow> (Inl e, d\<lparr>dp_platform := p'\<rparr>)
                | (Inr rr, p') \<Rightarrow> run_decided s x rr (d\<lparr>dp_platform := p'\<rparr>)))"

subsection \<open>What reaches the sandbox\<close>

lemma put_back_fields [simp]: "dp_dispatched (put_back e d) = xs_dispatched e"
  by (simp add: put_back_def)

lemma exec_state_fields [simp]: "xs_dispatched (exec_state_of s d) = dp_dispatched d"
  by (simp add: exec_state_of_def)

lemma executor_of_fields [simp]:
  "xc_sha (executor_of s p) = rw_sha (as_runtime s)" "xc_mac (executor_of s p) = rw_mac (as_runtime s)"
  "xc_profiles (executor_of s p) = Some (pf_profiles p)" "xc_sandbox (executor_of s p) = xc_sandbox (as_executor s)"
  by (simp_all add: executor_of_def)

text \<open>A crossing of the boundary: the grant was claimed and the call carries it.\<close>

lemma execute_crossing:
  assumes "execute x v grant ps ctx s = (r, s')" and "xs_dispatched s' \<noteq> xs_dispatched s"
  obtains g call a a1 a3 c where "grant = Some g" "xs_dispatched s' = xs_dispatched s @ [call]" "xs_authority s = Some a"
    "xs_authority s' = Some a3" "sc_parameters call = ps" "check_containment x g ctx = Inr c" "sc_capabilities call = c"
    "pv_grant_id (sc_provenance call) = gr_grant_id g" "pv_agent_id (sc_provenance call) = gr_agent_id g"
    "sc_tool_version call = b_tool_version (gr_binding g)" "pv_tool_id (sc_provenance call) = b_tool_id (gr_binding g)"
    "claim_grant (xc_mac x) (xe_claim_now v) (Presented g) (gr_binding g)
       (run_ops (authority_exec (xc_mac x)) (xe_between v) a1) = (Inr (), a3)"
  using assms(1)
proof (cases rule: execute_cases)
  case inert
  with assms(2) show thesis by simp
next
  case (refused g d e)
  with assms(2) show thesis by (auto elim!: prepare_refused)
next
  case (claimed g d c s1 e)
  with assms(2) show thesis by (auto elim!: prepare_ok)
next
  case (crossed g d c s1 reg tool md i pv rc s2 call)
  from crossed(5) obtain a h a1 a3 where h: "xs_authority s = Some a" "grant = Some h" "check_containment x h ctx = Inr c"
    "claim_grant (xc_mac x) (xe_claim_now v) (Presented h) (gr_binding h)
       (run_ops (authority_exec (xc_mac x)) (xe_between v) a1) = (Inr (), a3)" "s1 = s\<lparr>xs_authority := Some a3\<rparr>"
    by (rule prepare_ok) blast
  have "h = g" using crossed(1) h(2) by simp
  moreover have "pv_grant_id pv = gr_grant_id g" "pv_agent_id pv = gr_agent_id g" "pv_tool_id pv = b_tool_id (gr_binding g)"
    using crossed(9) by (auto simp: from_grant_def split: if_splits)
  ultimately show thesis
    using that [of g call a a3 c a1] crossed h by simp
qed

text \<open>What a returned grant is and where it stands afterwards.\<close>

lemma granted:
  assumes run: "runtime_execute w v q p = (Inr rr, p')" and g: "rr_authorization rr = Some g"
  obtains d t c b cap n where "warranted w q p g d t c" "wf_binding (gr_binding g)" "se_final_decision (rr_event rr) = Some ALLOW"
    "pf_profiles p' = pf_profiles p" "pf_registry p' = pf_registry p" "rw_authority w"
    "op_binding (prepare_operation w p q) = Some b"
    "issue (rw_mac w) (re_issue_now v) (re_grant_uuid v) (authority_repository p)
       (grant_request w q b cap n ALLOW) (pf_authority p) = (Inr (Some g), pf_authority p')"
  using run
proof (cases rule: execute_returns)
  case (concluded op az st e po final h p2 p3 p4 p5)
  note c = concluded(11) [unfolded concluded_def]
  have h: "h = Some g" using c g by simp
  obtain d t cap where w: "warranted w q p g d t cap" "po_risk_level po \<in> {RL_LOW, RL_MEDIUM}" "p5 = p4" "wf_binding (gr_binding g)"
    by (rule concluded_grant [OF concluded(11) [unfolded concluded(1) h] concluded(2) [unfolded concluded(1)] concluded(4,8)])
  have "issue_grant w v q op (case st of None \<Rightarrow> 0 | Some x \<Rightarrow> es_epoch x)
      (escalated (se_decision e) (response_types (po_risk_level po))) p2 = (Inr (final, Some g), p3)"
    using c h by simp
  then obtain b cp a where i: "rw_authority w" "op_binding op = Some b"
    "issue (rw_mac w) (re_issue_now v) (re_grant_uuid v) (authority_repository p2)
       (grant_request w q b cp (case st of None \<Rightarrow> 0 | Some x \<Rightarrow> es_epoch x)
          (escalated (se_decision e) (response_types (po_risk_level po)))) (pf_authority p2) = (Inr (Some g), a)"
    "p3 = p2\<lparr>pf_authority := a\<rparr>" "escalated (se_decision e) (response_types (po_risk_level po)) = ALLOW" "final = ALLOW"
    by (rule issue_grant_some) blast
  have ctl: "pf_agents p2 = pf_agents p" "pf_authority p2 = pf_authority p" "pf_profiles p2 = pf_profiles p" "pf_registry p2 = pf_registry p"
    "authority_repository p2 = authority_repository p"
    using concluded(8) by (simp_all add: same_control_def authority_repository_def)
  have p': "pf_authority p' = a" "pf_profiles p' = pf_profiles p" "pf_registry p' = pf_registry p"
    using c w(3) i(4) ctl by auto
  show thesis
    using that [OF w(1) w(4) _ p'(2,3) i(1) i(2) [unfolded concluded(1)] i(3) [unfolded ctl i(5), folded p'(1)]] c i(6) by simp
qed (use g in \<open>auto simp: refused_def refused_recorded_def\<close>)

lemma run_decided_crossing:
  assumes "run_decided s x rr d = (r, d')" and "dp_dispatched d' \<noteq> dp_dispatched d"
  obtains out xs where "final_or_first (rr_event rr) = ALLOW"
    "execute (executor_of s (dp_platform d)) x (rr_authorization rr) (as_params (authorized_parameters rr)) None
       (exec_state_of s d) = (out, xs)" "dp_dispatched d' = xs_dispatched xs" "xs_dispatched xs \<noteq> xs_dispatched (exec_state_of s d)"
proof -
  obtain out xs where run: "execute (executor_of s (dp_platform d)) x (rr_authorization rr) (as_params (authorized_parameters rr)) None
       (exec_state_of s d) = (out, xs)" by fastforce
  have "final_or_first (rr_event rr) = ALLOW" "d' = put_back xs d"
    using assms run by (auto simp: run_decided_def Let_def split: if_splits sum.splits)
  with run assms(2) show thesis by (intro that) simp_all
qed

lemma agent_execute_crossing:
  assumes "agent_execute s v x uuid query aid d = (r, d')" and "dp_dispatched d' \<noteq> dp_dispatched d"
  obtains iv rr p' where "aid = None \<or> aid = Some (ea_agent_id (as_agent s))" "ea_invoke (as_agent s) query = Inr iv"
    "runtime_execute (as_runtime s) v (request_of s uuid (ea_agent_id (as_agent s)) query iv) (dp_platform d) = (Inr rr, p')"
    "run_decided s x rr (d\<lparr>dp_platform := p'\<rparr>) = (r, d')"
  using assms by (auto simp: agent_execute_def split: if_splits sum.splits prod.splits)

text \<open>The profiles of a registry carry the identifier they are registered under, as \<open>register_profile\<close> enters them.\<close>

definition profiles_wf :: "profile_registry \<Rightarrow> bool" where
  "profiles_wf reg \<longleftrightarrow> (\<forall>pid c. dget reg pid = Some c \<longrightarrow> cp_profile_id c = pid)"

lemma profiles_wf_register: "profiles_wf reg \<Longrightarrow> profiles_wf (register_profile c reg)"
  by (simp add: profiles_wf_def register_profile_def)


definition ex_service :: "string agent_runtime" where
  "ex_service = \<lparr>as_agent = simple_agent ''a'', as_runtime = ex_runtime\<lparr>rw_mac := sp_grant_id, rw_rules := []\<rparr>, as_executor = ex_executor, as_own_registry = None,
     as_evidence = True, as_dump = iv_tool_id\<rparr>"

definition ex_deployment :: deployment where
  "ex_deployment = \<lparr>dp_platform = ex_platform ex_active empty_findings, dp_dispatched = []\<rparr>"

definition ex_query :: "string agent_runtime_result res \<times> deployment" where
  "ex_query = agent_execute ex_service ex_runtime_env (ex_exec_env []) ''s'' ''read a'' (Some ''a'') ex_deployment"

lemma ex_query_output: "length (dp_dispatched (snd ex_query)) = 1"
  by code_simp


subsection \<open>An allowed query is executed\<close>

text \<open>A grant the authority would let its holder claim.\<close>

definition claimable_grant :: "mac \<Rightarrow> grant \<Rightarrow> authority \<Rightarrow> bool" where
  "claimable_grant mac g a \<longleftrightarrow>
     distinct (dkeys (au_outstanding a)) \<and> verify_authenticity mac a (Presented g) = Inr g
     \<and> dget (au_revoked a) (gr_grant_id g) = None
     \<and> dget (au_outstanding a) (gr_grant_id g) =
         Some \<lparr>og_expires_at = gr_expires_at g, og_agent_id = gr_agent_id g, og_session_id = gr_session_id g\<rparr>"

lemma dget_filter_None: "dget d k = None \<Longrightarrow> dget (filter P d) k = None"
  by (auto simp: map_of_eq_None_iff)

lemma claimable_prune: "claimable_grant mac g a \<Longrightarrow> now < gr_expires_at g \<Longrightarrow> claimable_grant mac g (prune now a)"
  by (auto simp: claimable_grant_def prune_outstanding_Some authentic_iff)
     (simp_all add: prune_def dget_filter_None)

lemma claimable_verifies:
  assumes "claimable_grant mac g a" and "now < gr_expires_at g"
  shows "verify_grant mac now (Presented g) (gr_binding g) a = (Inr (), prune now a)"
    and "\<exists>a'. claim_grant mac now (Presented g) (gr_binding g) a = (Inr (), a')"
proof -
  have "require_claimable_locked now g (gr_binding g) a = (Inr (), prune now a)"
    using claimable_prune [OF assms] assms by (auto simp: claimable_iff claimable_grant_def)
  moreover have "verify_authenticity mac a (Presented g) = Inr g" using assms(1) by (simp add: claimable_grant_def)
  ultimately show "verify_grant mac now (Presented g) (gr_binding g) a = (Inr (), prune now a)"
    and "\<exists>a'. claim_grant mac now (Presented g) (gr_binding g) a = (Inr (), a')"
    by (auto simp: verify_grant_def claim_iff)
qed

lemma prepare_succeeds:
  assumes "xs_authority st = Some a" and "claimable_grant (xc_mac x) g a"
    and "xe_verify_now v < gr_expires_at g" "xe_claim_now v < gr_expires_at g" and "xe_between v = []"
    and "from_operation tid ver ps None = Inr (gr_binding g)" and "check_containment x g ctx = Inr c"
  shows "\<exists>a'. verify_and_prepare x v tid ver ps (Some g) ctx st = (Inr c, st\<lparr>xs_authority := Some a'\<rparr>)"
proof -
  obtain a' where "claim_grant (xc_mac x) (xe_claim_now v) (Presented g) (gr_binding g) (prune (xe_verify_now v) a) = (Inr (), a')"
    using claimable_verifies(2) [OF claimable_prune [OF assms(2,3)] assms(4)] by blast
  with claimable_verifies(1) [OF assms(2,3)] assms show ?thesis
    by (intro exI [of _ a']) (simp add: verify_and_prepare_def)
qed

text \<open>A descriptor the executor can run: enabled, with a tool to instantiate and a declared implementation.\<close>

definition runnable :: "descriptor \<Rightarrow> bool" where
  "runnable d \<longleftrightarrow> td_enabled d \<and> (\<exists>i. td_implementation_id d = Some i \<and> i \<noteq> [])
     \<and> (\<exists>t md. instantiate d [] = Inr t \<and> bt_metadata t = Some md)"

lemma cross_boundary_dispatches:
  assumes "xc_sandbox x \<noteq> None"
  shows "xs_dispatched (snd (cross_boundary x v rid call st)) = xs_dispatched st @ [call]"
proof -
  obtain f where f: "xc_sandbox x = Some f" using assms by auto
  obtain r st' where run: "cross_boundary x v rid call st = (r, st')" by fastforce
  show ?thesis
  proof (cases "f call")
    case (SandboxRaised e n)
    with f run show ?thesis by (auto simp: cross_boundary_def Let_def dest!: settle_frame(1))
  next
    case (SandboxFinished q)
    with f run show ?thesis by (auto simp: cross_boundary_def Let_def dest!: settle_frame(2))
  qed
qed

lemma start_evidence_outcome:
  assumes "start_evidence rc m st = (r, st')"
  shows "r = Inr () \<or> r = Inl ExecutionEvidenceUnavailableError \<and> xs_evidence st \<noteq> None"
  using assms by (auto simp: start_evidence_def split: option.splits sum.splits prod.splits)

lemma run_tool_crosses:
  assumes "bt_metadata tool = Some md" and "impl = Some i" "i \<noteq> []" and "from_grant g (trace_of v ctx) i = Inr pv"
    and "xc_sandbox x \<noteq> None"
  shows "(\<exists>call. xs_dispatched (snd (run_tool x v tool ps c g ctx impl st)) = xs_dispatched st @ [call])
    \<or> fst (run_tool x v tool ps c g ctx impl st) = Inl ExecutionEvidenceUnavailableError \<and> xs_evidence st \<noteq> None"
proof -
  let ?rc = "started_receipt x v md g c (trace_of v ctx) i"
  obtain r st' where ev: "start_evidence ?rc (xe_start_mono v) st = (r, st')" by fastforce
  have frame: "xs_dispatched st' = xs_dispatched st" using start_evidence_frame [OF ev] by simp
  show ?thesis
  proof (cases r)
    case (Inl e)
    with start_evidence_outcome [OF ev] assms ev show ?thesis by (simp add: run_tool_def Let_def and_then_def)
  next
    case (Inr u)
    with assms(1-4) ev frame cross_boundary_dispatches [OF assms(5)] show ?thesis
      by (simp add: run_tool_def Let_def and_then_def)
  qed
qed

lemma execute_crosses:
  assumes reg: "xc_registry x = Some reg" "resolve reg (b_tool_id (gr_binding g)) (Some (b_tool_version (gr_binding g))) = Inr d"
    and d: "runnable d" "td_tool_id d = b_tool_id (gr_binding g)" "td_version d = b_tool_version (gr_binding g)"
    and g: "wf_binding (gr_binding g)" "b_resource (gr_binding g) = dget (b_parameters (gr_binding g)) resource_parameter"
      "gr_grant_id g \<noteq> []" "gr_agent_id g \<noteq> []" "gr_session_id g \<noteq> []"
    and st: "xs_authority st = Some a" "claimable_grant (xc_mac x) g a"
    and v: "xe_verify_now v < gr_expires_at g" "xe_claim_now v < gr_expires_at g" "xe_between v = []"
    and c: "check_containment x g None = Inr c"
  shows "(\<exists>call. xs_dispatched (snd (execute x v (Some g) (as_params (b_parameters (gr_binding g))) None st)) = xs_dispatched st @ [call])
    \<or> fst (execute x v (Some g) (as_params (b_parameters (gr_binding g))) None st) = Inl ExecutionEvidenceUnavailableError
       \<and> xs_evidence st \<noteq> None"
proof -
  let ?ps = "as_params (b_parameters (gr_binding g))"
  have "from_operation (td_tool_id d) (td_version d) ?ps None = Inr (gr_binding g)"
    unfolding d(2,3) by (rule from_operation_rebuild [OF g(1)]) (simp add: g(2))
  from prepare_succeeds [OF st v this c] obtain a' where
    vp: "verify_and_prepare x v (td_tool_id d) (td_version d) ?ps (Some g) None st = (Inr c, st\<lparr>xs_authority := Some a'\<rparr>)" by blast
  obtain t md i where t: "td_enabled d" "instantiate d [] = Inr t" "bt_metadata t = Some md" "td_implementation_id d = Some i" "i \<noteq> []"
    using d(1) by (auto simp: runnable_def)
  have "b_tool_id (gr_binding g) \<noteq> []" "b_tool_version (gr_binding g) \<noteq> []" using g(1) by (auto simp: wf_binding_def)
  then obtain pv where pv: "from_grant g (trace_of v None) i = Inr pv"
    using g(3-5) t(5) by (auto simp: from_grant_def trace_of_def)
  have sb: "xc_sandbox x \<noteq> None" using c by (auto simp: check_containment_def res_bind_Inr split: if_splits)
  have "execute x v (Some g) ?ps None st = run_tool x v t ?ps c g None (td_implementation_id d) (st\<lparr>xs_authority := Some a'\<rparr>)"
    using reg t vp by (simp add: execute_def execute_resolved_def and_then_def)
  with run_tool_crosses [OF t(3-5) pv sb, of ?ps c "st\<lparr>xs_authority := Some a'\<rparr>"] show ?thesis by simp
qed

text \<open>
  The service names the path parameter as the resource, so the binding of an operation that could be bound can be rebuilt from
  its parameters alone, which is all the executor has.
\<close>

lemma parameter_resource:
  assumes "from_operation i ver (raw_of ps) r = Inr b" and "r \<noteq> None \<Longrightarrow> path_key \<in> fst ` set ps"
  shows "b_resource b = dget (b_parameters b) resource_parameter"
proof -
  let ?raw = "map (\<lambda>(k, v). (k, case v of None \<Rightarrow> PyOther | Some x \<Rightarrow> x)) ps"
  let ?canon = "sort (map (map_prod str_of str_of) ?raw)"
  have ok: "canonicalize_parameters (Params ?raw) = Inr ?canon"
    using assms(1) by (auto simp: from_operation_def res_bind_Inr raw_of_def canonicalize_eq split: if_splits)
  have mb: "make_binding i ver (if r \<noteq> None then r else dget ?canon resource_parameter) ?canon = Inr b"
    using assms(1) ok by (auto simp: from_operation_def raw_of_def Let_def split: if_splits sum.splits)
  then have b: "b_resource b = (if r \<noteq> None then r else dget ?canon resource_parameter)" "b_parameters b = ?canon"
    "dget ?canon resource_parameter \<noteq> None \<longrightarrow> b_resource b = dget ?canon resource_parameter"
    by (auto simp: make_binding_Inr sorted_sort_id)
  have "dget ?canon resource_parameter \<noteq> None" if "r \<noteq> None"
  proof -
    have "PyStr ''path'' \<in> fst ` set ps" using assms(2) [OF that] by (simp add: path_key_def)
    then have "''path'' \<in> fst ` set (map (map_prod str_of str_of) ?raw)" by (force simp: image_iff)
    then show ?thesis by (simp add: map_of_eq_None_iff resource_parameter_def)
  qed
  with b show ?thesis by auto
qed

lemma canonical_resource_has_parameter:
  assumes "canonicalize_operation fy profiles tid resource ps = Inr (r, ps')" and "resource \<noteq> None \<Longrightarrow> path_key \<in> fst ` set ps"
  shows "r \<noteq> None \<Longrightarrow> path_key \<in> fst ` set ps'"
proof -
  assume r: "r \<noteq> None"
  obtain c where c: "dget profiles (profile_for tid) = Some c"
    using assms(1) by (cases "dget profiles (profile_for tid)") (simp_all add: canonicalize_operation_def)
  define choice :: "string option \<Rightarrow> string option \<Rightarrow> (string option \<times> parameters) res" where
    "choice bp br = (if bp \<noteq> None \<and> br \<noteq> None \<and> bp \<noteq> br then identity_error
       else case (if bp = None \<or> bp = Some [] then br else bp) of
              None \<Rightarrow> Inr (resource, ps)
            | Some t \<Rightarrow> Inr (Some t, if dget ps path_key \<noteq> None then dset path_key (Some (PyStr t)) ps else ps))" for bp br
  obtain root bp br where ch: "canonicalize_optional (canonicalize_value fy root) (Option.bind (dget ps path_key) id) = Inr bp"
    "canonicalize_optional (canonicalize fy root) resource = Inr br" "choice bp br = Inr (r, ps')"
    using assms(1) unfolding canonicalize_operation_def c option.case res_bind_Inr choice_def by blast
  have b: "resource = None \<Longrightarrow> br = None" "dget ps path_key = None \<Longrightarrow> bp = None"
    using ch(1,2) by (auto simp: canonicalize_optional_def)
  from ch(3) consider "r = resource" "ps' = ps" | t where "r = Some t" "bp \<noteq> None \<or> br \<noteq> None"
    "ps' = (if dget ps path_key \<noteq> None then dset path_key (Some (PyStr t)) ps else ps)"
    by (cases bp; cases br) (auto simp: choice_def split: if_splits)
  then show "path_key \<in> fst ` set ps'"
  proof cases
    case 1
    with r assms(2) show ?thesis by simp
  next
    case (2 t)
    show ?thesis
    proof (cases "dget ps path_key")
      case None
      with 2 b assms(2) show ?thesis by (cases "resource = None") simp_all
    next
      case (Some y)
      with 2 show ?thesis by (simp add: dom_update)
    qed
  qed
qed

text \<open>The binding of a query's operation names its path parameter, if it has one, as the resource.\<close>

lemma query_binding:
  assumes "op_binding (prepare_operation w p (request_of s uuid aid query iv)) = Some b"
  shows "b_resource b = dget (b_parameters b) resource_parameter"
proof -
  let ?q = "request_of s uuid aid query iv"
  have own: "path_key \<in> fst ` set (rq_parameters ?q)" if "rq_resource ?q \<noteq> None"
  proof -
    have "''path'' \<in> fst ` set (iv_parameters iv)"
      using that by (simp add: request_of_def) (metis map_of_eq_None_iff option.distinct(1))
    then show ?thesis by (force simp: request_of_def path_key_def)
  qed
  obtain d version where res: "resolve_implementation w p (rq_tool_id ?q) = (d, version)" by fastforce
  consider ver where "from_operation (rq_tool_id ?q) ver (raw_of (rq_parameters ?q)) (rq_resource ?q) = Inr b"
    | ver r ps where "canonicalize_operation (rw_fs w) (pf_profiles p) (rq_tool_id ?q) (rq_resource ?q) (rq_parameters ?q) = Inr (r, ps)"
        "from_operation (rq_tool_id ?q) ver (raw_of ps) r = Inr b"
    using assms by (auto simp: prepare_operation_def res bind_operation_def split: if_splits sum.splits option.splits prod.splits)
  then show ?thesis
  proof cases
    case (1 ver)
    then show ?thesis by (rule parameter_resource) (rule own)
  next
    case (2 ver r ps)
    from 2(2) show ?thesis by (rule parameter_resource) (rule canonical_resource_has_parameter [OF 2(1) own])
  qed
qed

lemma issued_claimable:
  assumes inv: "authority_inv a" and run: "issue mac now uuid repo q a = (Inr (Some g), a')"
    and fresh: "dget (au_revoked a) (''grant-'' @ uuid) = None"
  shows "claimable_grant mac g a'" "gr_grant_id g \<noteq> []" "gr_expires_at g = now + au_ttl a"
    "iq_agent_id q \<noteq> []" "iq_session_id q \<noteq> []"
proof -
  note g = issued_grant [OF run]
  have ident: "gr_grant_id g = ''grant-'' @ uuid" "gr_expires_at g = now + au_ttl a" by (simp_all add: g(2) new_grant_def Let_def)
  then show "gr_grant_id g \<noteq> []" "gr_expires_at g = now + au_ttl a" by simp_all
  have "create_for mac now uuid q a = (Inr g, a')"
    using run by (simp add: issue_allowed [OF g(1)] and_then_returns)
  then have c: "au_revoked a' = au_revoked (prune now a)" "iq_agent_id q \<noteq> []" "iq_session_id q \<noteq> []"
    by (auto simp: create_for_def create_grant_def Let_def split: if_splits)
  show "iq_agent_id q \<noteq> []" "iq_session_id q \<noteq> []" by (rule c(2), rule c(3))
  have "dget (au_revoked a') (gr_grant_id g) = None"
    using fresh by (simp add: c(1) ident(1) prune_def dget_filter_None)
  moreover have "verify_authenticity mac a' (Presented g) = Inr g"
    unfolding g(2) by (rule new_grant_authentic [OF g(4)])
  moreover have "gr_agent_id g = iq_agent_id q" "gr_session_id g = iq_session_id q" by (simp_all add: g(2))
  ultimately show "claimable_grant mac g a'"
    using g(3) issue_inv [OF inv run] by (simp add: claimable_grant_def authority_inv_def)
qed

lemma resolve_pinned:
  assumes "registry_wf reg" and "resolve reg tid None = Inr d"
  shows "resolve reg tid (Some (td_version d)) = Inr d"
proof -
  obtain k where k: "get_or reg tid [] = [(k, d)]"
    using assms(2) by (cases "get_or reg tid []"; cases "tl (get_or reg tid [])") (auto simp: resolve_def split: if_splits)
  then have "dget reg tid = Some [(k, d)]" by (auto simp: get_or_def split: option.splits)
  then have "td_version d = k" using assms(1) by (fastforce simp: registry_wf_def)
  with k show ?thesis by (simp add: resolve_def match_version_def)
qed

lemma allow_carries_grant:
  assumes "runtime_execute w v q p = (Inr rr, p')" and "se_final_decision (rr_event rr) = Some ALLOW" and "rw_authority w"
  obtains g where "rr_authorization rr = Some g"
  using assms(1)
proof (cases rule: execute_returns)
  case (concluded op az st e po final g p2 p3 p4 p5)
  note c = concluded(11) [unfolded concluded_def]
  then have i: "issue_grant w v q op (case st of None \<Rightarrow> 0 | Some x \<Rightarrow> es_epoch x)
      (escalated (se_decision e) (response_types (po_risk_level po))) p2 = (Inr (final, g), p3)" by blast
  have "final = ALLOW" using c assms(2) by simp
  with issue_grant_agree [OF i assms(3)] c that show thesis by auto
qed (use assms(2) in \<open>auto simp: refused_def refused_recorded_def new_event_def\<close>)

lemma run_decided_allow:
  assumes "final_or_first (rr_event rr) = ALLOW"
  shows "dp_dispatched (snd (run_decided s x rr d)) =
      xs_dispatched (snd (execute (executor_of s (dp_platform d)) x (rr_authorization rr) (as_params (authorized_parameters rr)) None
        (exec_state_of s d)))"
    and "fst (execute (executor_of s (dp_platform d)) x (rr_authorization rr) (as_params (authorized_parameters rr)) None
        (exec_state_of s d)) = Inl e \<Longrightarrow> fst (run_decided s x rr d) = Inl e"
  using assms by (auto simp: run_decided_def Let_def split: sum.splits prod.splits)

text \<open>
  (C5) Allowed means executed. When the pipeline allows the operation of a query, the tool's registered implementation can be instantiated, the deployment
  has a sandbox, and nobody revokes or outlives the grant in between, the service does cross the isolation boundary,
  exactly once; the one thing that can still stop it is an injected evidence store that cannot open the receipt. In particular the version, binding, capability
  and grant checks of the executor never refuse what the pipeline has just granted.
\<close>

theorem allowed_query_executes:
  fixes s :: "'o agent_runtime" and d :: deployment
  defines "p \<equiv> dp_platform d"
  assumes who: "aid = None \<or> aid = Some (ea_agent_id (as_agent s))" and iv: "ea_invoke (as_agent s) query = Inr iv"
    and run: "runtime_execute (as_runtime s) v (request_of s uuid (ea_agent_id (as_agent s)) query iv) p = (Inr rr, p')"
    and allow: "se_final_decision (rr_event rr) = Some ALLOW"
    and wired: "rw_authority (as_runtime s)" "as_own_registry s = None" "xc_sandbox (as_executor s) \<noteq> None"
    and reg: "registry_wf (pf_registry p)"
      "\<And>dd. resolve (pf_registry p) (iv_tool_id iv) None = Inr dd \<Longrightarrow> runnable dd \<and> td_tool_id dd = iv_tool_id iv"
    and wf: "profiles_wf (pf_profiles p)" "authority_inv (pf_authority p)"
    and fresh: "dget (au_revoked (pf_authority p)) (''grant-'' @ re_grant_uuid v) = None"
    and timely: "xe_verify_now x < re_issue_now v + au_ttl (pf_authority p)" "xe_claim_now x < re_issue_now v + au_ttl (pf_authority p)"
      "xe_between x = []"
  shows "(\<exists>call. dp_dispatched (snd (agent_execute s v x uuid query aid d)) = dp_dispatched d @ [call])
    \<or> as_evidence s \<and> fst (agent_execute s v x uuid query aid d) = Inl ExecutionEvidenceUnavailableError"
proof -
  let ?q = "request_of s uuid (ea_agent_id (as_agent s)) query iv" and ?d = "d\<lparr>dp_platform := p'\<rparr>"
  obtain g where g: "rr_authorization rr = Some g" by (rule allow_carries_grant [OF run allow wired(1)])
  obtain dd t c b cap n where gr: "warranted (as_runtime s) ?q p g dd t c" "wf_binding (gr_binding g)"
    "pf_profiles p' = pf_profiles p" "pf_registry p' = pf_registry p" "op_binding (prepare_operation (as_runtime s) p ?q) = Some b"
    "issue (rw_mac (as_runtime s)) (re_issue_now v) (re_grant_uuid v) (authority_repository p)
       (grant_request (as_runtime s) ?q b cap n ALLOW) (pf_authority p) = (Inr (Some g), pf_authority p')"
    by (rule granted [OF run g])
  note cl = issued_claimable [OF wf(2) gr(6) fresh]
  have gb: "gr_binding g = b" by (simp add: issued_grant(2) [OF gr(6)])
  note w = gr(1) [unfolded warranted_def]
  have dd: "runnable dd" "td_tool_id dd = iv_tool_id iv" using reg(2) w by (auto simp: request_of_def)
  have res: "resolve (pf_registry p) (b_tool_id (gr_binding g)) (Some (b_tool_version (gr_binding g))) = Inr dd"
    using resolve_pinned [OF reg(1)] w by auto
  have prof: "cp_profile_id c = profile_for (iv_tool_id iv)" using w wf(1) by (auto simp: profiles_wf_def request_of_def)
  have con: "check_containment (executor_of s p') g None = Inr c"
    using w gr(3) prof wired(3)
    by (auto simp: check_containment_def require_context_agrees_with_grant_def resolve_profile_def verify_capability_binding_def
        profile_for_def request_of_def)
  let ?ex = "execute (executor_of s p') x (Some g) (as_params (b_parameters (gr_binding g))) None (exec_state_of s ?d)"
  have "(\<exists>call. xs_dispatched (snd ?ex) = xs_dispatched (exec_state_of s ?d) @ [call])
    \<or> fst ?ex = Inl ExecutionEvidenceUnavailableError \<and> xs_evidence (exec_state_of s ?d) \<noteq> None"
  proof (rule execute_crosses [OF _ res dd(1)])
    show "xc_registry (executor_of s p') = Some (pf_registry p)" using wired(2) gr(4) by (simp add: executor_of_def)
    show "td_tool_id dd = b_tool_id (gr_binding g)" "td_version dd = b_tool_version (gr_binding g)"
      using w dd(2) by (simp_all add: request_of_def)
    show "b_resource (gr_binding g) = dget (b_parameters (gr_binding g)) resource_parameter"
      unfolding gb by (rule query_binding [OF gr(5)])
    show "gr_agent_id g \<noteq> []" "gr_session_id g \<noteq> []" using cl(4,5) w by simp_all
    show "xs_authority (exec_state_of s ?d) = Some (pf_authority p')" using wired(1) by (simp add: exec_state_of_def)
    show "claimable_grant (xc_mac (executor_of s p')) g (pf_authority p')" using cl(1) by simp
  qed (use gr(2) cl(2,3) timely con in simp_all)
  moreover have ev: "xs_evidence (exec_state_of s ?d) \<noteq> None \<longleftrightarrow> as_evidence s" by (simp add: exec_state_of_def)
  moreover have "agent_execute s v x uuid query aid d = run_decided s x rr ?d"
    using who iv run by (auto simp: agent_execute_def p_def)
  moreover have "final_or_first (rr_event rr) = ALLOW" using allow by (simp add: final_or_first_def)
  ultimately show ?thesis
    using run_decided_allow(1) [of rr s x ?d] run_decided_allow(2) [of rr s ?d x] g by (auto simp: authorized_parameters_def parameters_dict_def)
qed

theorem allowed_query_executes_witness:
  "\<exists>call. dp_dispatched (snd (agent_execute (ex_service\<lparr>as_evidence := False\<rparr>) ex_runtime_env (ex_exec_env []) ''s'' ''read a'' None ex_deployment))
     = [call]"
proof -
  let ?s = "ex_service\<lparr>as_evidence := False\<rparr>" and ?iv = "\<lparr>iv_tool_id = ''file_read'', iv_parameters = [(''path'', ''a'')]\<rparr>"
  let ?run = "runtime_execute (as_runtime ?s) ex_runtime_env (request_of ?s ''s'' (ea_agent_id (as_agent ?s)) ''read a'' ?iv)
    (dp_platform ex_deployment)"
  have "map_sum id (\<lambda>rr. se_final_decision (rr_event rr)) (fst ?run) = Inr (Some ALLOW)" by code_simp
  then obtain rr p' where run: "?run = (Inr rr, p')" and allow: "se_final_decision (rr_event rr) = Some ALLOW"
    by (cases ?run; cases "fst ?run") auto
  have iv: "ea_invoke (as_agent ?s) ''read a'' = Inr ?iv" by code_simp
  have reg: "registry_wf (pf_registry (dp_platform ex_deployment))"
    by (simp add: ex_deployment_def ex_platform_def register_all_wf)
  have "(case resolve (pf_registry (dp_platform ex_deployment)) ''file_read'' None of Inl e \<Rightarrow> False
     | Inr dd \<Rightarrow> td_enabled dd \<and> td_tool_id dd = ''file_read'' \<and> td_implementation_id dd \<notin> {None, Some []}
         \<and> (case instantiate dd [] of Inl e \<Rightarrow> False | Inr t \<Rightarrow> \<not> Option.is_none (bt_metadata t)))" by code_simp
  then have runs: "runnable dd \<and> td_tool_id dd = iv_tool_id ?iv"
    if "resolve (pf_registry (dp_platform ex_deployment)) (iv_tool_id ?iv) None = Inr dd" for dd
    using that by (auto simp: runnable_def Option.is_none_def split: sum.splits)
  have rest: "rw_authority (as_runtime ?s)" "as_own_registry ?s = None" "xc_sandbox (as_executor ?s) \<noteq> None"
    "profiles_wf (pf_profiles (dp_platform ex_deployment))" "authority_inv (pf_authority (dp_platform ex_deployment))"
    using ex_inv by (simp_all add: ex_service_def ex_runtime_def ex_executor_def profiles_wf_def ex_deployment_def ex_platform_def ex_profile_def)
  have "dget (au_revoked (pf_authority (dp_platform ex_deployment))) (''grant-'' @ re_grant_uuid ex_runtime_env) = None"
    "xe_verify_now (ex_exec_env []) < re_issue_now ex_runtime_env + au_ttl (pf_authority (dp_platform ex_deployment))"
    "xe_claim_now (ex_exec_env []) < re_issue_now ex_runtime_env + au_ttl (pf_authority (dp_platform ex_deployment))"
    "xe_between (ex_exec_env []) = []"
    by code_simp+
  from allowed_query_executes [OF _ iv run allow rest(1-3) reg runs rest(4,5) this, of None] show ?thesis
    by (simp add: ex_service_def ex_deployment_def)
qed

end
