(* ===== verification/Access.thy ===== *)
theory Access
  imports Agent_Runtime
begin

section \<open>The HTTP boundary\<close>

text \<open>
  \<^verbatim>\<open>app/main.py\<close>, \<^verbatim>\<open>app/api\<close> and \<^verbatim>\<open>app/auth/jwt_service.py\<close>: who is authenticated, which plane admits which role, and what each
  route does to the shared state. FastAPI composes the dependency of the mount and that of the route as an
  intersection and evaluates both before the body of the request is validated. PyJWT and pydantic are the record
  \<open>jwt_library\<close>; a request arrives as the credentials FastAPI's bearer scheme extracted and a route with its typed
  arguments. A result \<open>Inl\<close> is the status code of an HTTP error; an exception no handler catches is a 500. The
  scenario routes, which build a pipeline of their own, and the texts of errors and responses are not modelled.
\<close>

subsection \<open>Tokens\<close>

datatype role = ADMIN | ANALYST | AGENT

record jwt_claims =
  jc_sub :: string
  jc_agent_id :: string
  jc_role :: role
  jc_iat :: int
  jc_exp :: int

datatype 'p decoded_token = TokenPayload 'p | ExpiredSignature | InvalidToken

record 'p jwt_library =
  jl_encode :: "'p \<Rightarrow> string \<Rightarrow> string \<Rightarrow> string"
  jl_decode :: "instant \<Rightarrow> string \<Rightarrow> string \<Rightarrow> string list \<Rightarrow> int \<Rightarrow> 'p decoded_token"
  jl_dump :: "jwt_claims \<Rightarrow> 'p"
  jl_validate :: "'p \<Rightarrow> jwt_claims option"

record jwt_service =
  js_secret_key :: string
  js_algorithm :: string
  js_expiration_minutes :: int

definition new_jwt_service :: "string \<Rightarrow> jwt_service" where
  "new_jwt_service secret = \<lparr>js_secret_key = secret, js_algorithm = ''HS256'', js_expiration_minutes = 60\<rparr>"

definition second :: int where
  "second = 1000000"

definition claims_for :: "jwt_service \<Rightarrow> instant \<Rightarrow> string \<Rightarrow> string \<Rightarrow> role \<Rightarrow> jwt_claims" where
  "claims_for js now subject aid r =
     \<lparr>jc_sub = subject, jc_agent_id = aid, jc_role = r, jc_iat = now div second,
      jc_exp = (now + js_expiration_minutes js * 60 * second) div second\<rparr>"

definition create_token :: "'p jwt_library \<Rightarrow> jwt_service \<Rightarrow> instant \<Rightarrow> string \<Rightarrow> string \<Rightarrow> role \<Rightarrow> string" where
  "create_token lib js now subject aid r =
     jl_encode lib (jl_dump lib (claims_for js now subject aid r)) (js_secret_key js) (js_algorithm js)"

definition verify_token :: "'p jwt_library \<Rightarrow> jwt_service \<Rightarrow> instant \<Rightarrow> string \<Rightarrow> jwt_claims res" where
  "verify_token lib js now token =
     (case jl_decode lib now token (js_secret_key js) [js_algorithm js] 10 of
        ExpiredSignature \<Rightarrow> Inl ValueError
      | InvalidToken \<Rightarrow> Inl ValueError
      | TokenPayload payload \<Rightarrow> (case jl_validate lib payload of None \<Rightarrow> Inl ValueError | Some c \<Rightarrow> Inr c))"

subsection \<open>Authentication and authorization\<close>

type_synonym 'a http = "nat + 'a"

record credentials =
  cr_scheme :: string
  cr_credentials :: string

definition get_current_principal ::
  "'p jwt_library \<Rightarrow> jwt_service \<Rightarrow> instant \<Rightarrow> credentials option \<Rightarrow> jwt_claims http" where
  "get_current_principal lib js now credentials =
     (case credentials of
        None \<Rightarrow> Inl 401
      | Some c \<Rightarrow>
          if map lower_char (cr_scheme c) \<noteq> ''bearer'' then Inl 401
          else if strip (cr_credentials c) = [] then Inl 401
          else case verify_token lib js now (strip (cr_credentials c)) of Inl _ \<Rightarrow> Inl 401 | Inr claims \<Rightarrow> Inr claims)"

definition require_roles :: "role list \<Rightarrow> jwt_claims http \<Rightarrow> jwt_claims http" where
  "require_roles allowed who =
     (case who of
        Inl e \<Rightarrow> Inl e
      | Inr c \<Rightarrow> if jc_role c \<notin> set allowed then Inl 403 else Inr c)"

definition require_execution_identity :: "string \<Rightarrow> jwt_claims http \<Rightarrow> jwt_claims http" where
  "require_execution_identity aid who =
     (case who of
        Inl e \<Rightarrow> Inl e
      | Inr c \<Rightarrow> if jc_role c \<noteq> AGENT then Inl 403 else if jc_agent_id c \<noteq> aid then Inl 403 else Inr c)"

subsection \<open>Routes and their dependencies\<close>

record execute_request =
  eq_session_id :: string
  eq_tool_id :: string
  eq_resource :: "string option"
  eq_parameters :: "(string, string) dict"
  eq_user_prompt :: string
  eq_model_output :: string
  eq_tool_output :: string

datatype api_route =
    Health | Version | Execute string execute_request
  | ListAgents | AgentEnforcement string | ReinstateAgent string string
  | ListTools | ListDetectionRules | ListAuditEvents | ListSessions
  | ListFindings finding_filter | GetFinding string
  | ListRiskAssessments "string option" "string option" "risk_level option" | GetRiskAssessment string "string option"
  | PlatformInfo

datatype plane = PublicPlane | RuntimePlane | ScenarioPlane | ManagementPlane

fun plane_of :: "api_route \<Rightarrow> plane" where
  "plane_of Health = PublicPlane"
| "plane_of Version = PublicPlane"
| "plane_of (Execute _ _) = RuntimePlane"
| "plane_of _ = ManagementPlane"

text \<open>The role set each router is mounted with; \<open>None\<close> is a public router.\<close>

fun mount_roles :: "plane \<Rightarrow> role list option" where
  "mount_roles PublicPlane = None"
| "mount_roles RuntimePlane = Some [AGENT]"
| "mount_roles ScenarioPlane = Some [ANALYST, ADMIN]"
| "mount_roles ManagementPlane = Some [ANALYST, ADMIN]"

fun route_dependency :: "api_route \<Rightarrow> jwt_claims http \<Rightarrow> jwt_claims http" where
  "route_dependency (Execute aid _) who = require_execution_identity aid who"
| "route_dependency (ReinstateAgent _ _) who = require_roles [ADMIN] who"
| "route_dependency _ who = who"

definition admit :: "api_route \<Rightarrow> jwt_claims http \<Rightarrow> jwt_claims option http" where
  "admit rt who =
     (case mount_roles (plane_of rt) of
        None \<Rightarrow> Inr None
      | Some allowed \<Rightarrow>
          (case require_roles allowed who of
             Inl e \<Rightarrow> Inl e
           | Inr _ \<Rightarrow> (case route_dependency rt who of Inl e \<Rightarrow> Inl e | Inr c \<Rightarrow> Inr (Some c))))"

subsection \<open>What the routes return\<close>

record execute_response =
  xr_session_id :: string
  xr_agent_id :: string
  xr_tool_id :: string
  xr_decision :: decision
  xr_findings :: "finding list"
  xr_risk_score :: "nat option"
  xr_risk_level :: "risk_level option"
  xr_enforcement_risk_score :: "nat option"
  xr_enforcement_risk_level :: "risk_level option"
  xr_response_type :: "response_type option"
  xr_refusal_reason :: "refusal option"

definition execute_response_of :: "runtime_result \<Rightarrow> execute_response" where
  "execute_response_of rr =
     (let assessed = rr_risk_assessment rr; po = rr_enforcement_posture rr
      in \<lparr>xr_session_id = se_session_id (rr_event rr), xr_agent_id = se_agent_id (rr_event rr), xr_tool_id = se_tool_id (rr_event rr),
          xr_decision = final_or_first (rr_event rr), xr_findings = rr_findings rr,
          xr_risk_score = map_option ra_risk_score assessed, xr_risk_level = map_option ra_risk_level assessed,
          xr_enforcement_risk_score =
            (case po of Some x \<Rightarrow> Some (po_risk_score x) | None \<Rightarrow> map_option ra_risk_score assessed),
          xr_enforcement_risk_level =
            (case po of Some x \<Rightarrow> Some (po_risk_level x) | None \<Rightarrow> map_option ra_risk_level assessed),
          xr_response_type = map_option rs_response_type (rr_response_action rr), xr_refusal_reason = rr_refusal_reason rr\<rparr>)"

datatype security_framework = OWASP_LLM | MITRE_ATLAS | MITRE_ATTACK

record security_control =
  sq_framework :: security_framework
  sq_control_id :: string
  sq_title :: string
  sq_version :: string

record rule_metadata =
  rm_name :: string
  rm_category :: detection_category
  rm_description :: string
  rm_controls :: "security_control list"

record finding_response =
  fr_finding :: finding
  fr_mitre_techniques :: "string list"

definition map_finding_to_response :: "rule_metadata list \<Rightarrow> finding \<Rightarrow> finding_response" where
  "map_finding_to_response rules f =
     \<lparr>fr_finding = f,
      fr_mitre_techniques =
        (case find (\<lambda>m. rm_name m = f_rule_name f \<or> rm_name m = f_rule_id f) rules of
           None \<Rightarrow> []
         | Some m \<Rightarrow> map sq_control_id (filter (\<lambda>c. sq_framework c \<in> {MITRE_ATTACK, MITRE_ATLAS}) (rm_controls m)))\<rparr>"

record enforcement_response =
  nr_agent_id :: string
  nr_status :: agent_status
  nr_suspended_at :: "instant option"
  nr_suspension_reason :: "string option"
  nr_baseline_at :: "instant option"
  nr_last_transition_at :: "instant option"
  nr_transitions :: "enforcement_transition list"

record platform_summary =
  pi_version :: string
  pi_agents :: nat
  pi_tools :: nat
  pi_rules :: nat
  pi_audit_events :: nat
  pi_findings :: nat

datatype api_body =
    HealthBody | VersionBody string | ExecuteBody execute_response | AgentBody agent | AgentsBody "agent list"
  | EnforcementBody enforcement_response | ToolsBody "tool_identity list" | RulesBody "rule_metadata list"
  | AuditBody "audit_event list" | SessionsBody "(string \<times> string \<times> instant) list"
  | FindingBody finding_response | FindingsBody "finding_response list"
  | AssessmentBody risk_assessment | AssessmentsBody "risk_assessment list" | SummaryBody platform_summary

subsection \<open>Handlers\<close>

record application =
  am_jwt :: jwt_service
  am_runtime :: runtime
  am_wiring :: wiring
  am_rules :: "rule_metadata list"

record api_env =
  ap_auth_now :: instant
  ap_runtime_env :: runtime_env
  ap_recovery_env :: recovery_env
  ap_assess_now :: instant
  ap_version :: "string res"

type_synonym api_result = "api_body http \<times> platform"

definition or_500 :: "('a \<Rightarrow> api_body) \<Rightarrow> 'a res \<Rightarrow> api_body http" where
  "or_500 f r = (case r of Inl _ \<Rightarrow> Inl 500 | Inr x \<Rightarrow> Inr (f x))"

definition runtime_request :: "string \<Rightarrow> execute_request \<Rightarrow> request" where
  "runtime_request aid q =
     \<lparr>rq_session_id = eq_session_id q, rq_agent_id = aid, rq_tool_id = eq_tool_id q, rq_resource = eq_resource q,
      rq_user_prompt = eq_user_prompt q, rq_model_output = eq_model_output q, rq_tool_output = eq_tool_output q,
      rq_parameters = map (\<lambda>(k, x). (PyStr k, Some (PyStr x))) (eq_parameters q)\<rparr>"

definition api_execute :: "application \<Rightarrow> api_env \<Rightarrow> string \<Rightarrow> execute_request \<Rightarrow> platform \<Rightarrow> api_result" where
  "api_execute m v aid q p =
     (let (r, p') = runtime_execute (am_runtime m) (ap_runtime_env v) (runtime_request aid q) p
      in (or_500 (\<lambda>rr. ExecuteBody (execute_response_of rr)) r, p'))"

definition get_agent_enforcement :: "string \<Rightarrow> platform \<Rightarrow> api_body http" where
  "get_agent_enforcement aid p =
     (case get_agent (pf_agents p) aid of
        Inl e \<Rightarrow> Inl (if e = AgentNotFoundError then 404 else 500)
      | Inr a \<Rightarrow>
          or_500 (\<lambda>st. EnforcementBody
            \<lparr>nr_agent_id = aid, nr_status = ag_status a, nr_suspended_at = es_suspended_at st,
             nr_suspension_reason = es_suspension_reason st, nr_baseline_at = es_baseline_at st,
             nr_last_transition_at = es_last_transition_at st, nr_transitions = list_transitions (pf_agents p) (Some aid)\<rparr>)
            (get_enforcement_state (pf_agents p) aid))"

definition api_reinstate :: "application \<Rightarrow> api_env \<Rightarrow> string \<Rightarrow> string \<Rightarrow> jwt_claims \<Rightarrow> platform \<Rightarrow> api_result" where
  "api_reinstate m v aid reason who p =
     (if is_blank reason then (Inl 422, p)
      else case reinstate (am_wiring m) (ap_recovery_env v) aid (jc_sub who) reason p of
             (Inr a, p') \<Rightarrow> (Inr (AgentBody a), p')
           | (Inl e, p') \<Rightarrow>
               (Inl (if e = AgentNotFoundError then 404 else if e = AgentNotSuspendedError then 409 else 500), p'))"

definition all_findings :: finding_filter where
  "all_findings = \<lparr>ff_session_id = None, ff_agent_id = None, ff_severity = None, ff_category = None, ff_status = None,
     ff_rule_id = None, ff_recorded_after = None\<rparr>"

definition list_risk_assessments ::
  "instant \<Rightarrow> string option \<Rightarrow> string option \<Rightarrow> risk_level option \<Rightarrow> findings_store \<Rightarrow> risk_assessment list" where
  "list_risk_assessments now sid aid level s =
     filter (\<lambda>a. selects level (ra_risk_level a))
       (reconstruct now (list_findings (all_findings\<lparr>ff_session_id := sid, ff_agent_id := aid\<rparr>) s))"

definition get_risk_assessment :: "instant \<Rightarrow> string \<Rightarrow> string option \<Rightarrow> findings_store \<Rightarrow> api_body http" where
  "get_risk_assessment now sid aid s =
     (case reconstruct_for_session now (list_findings (all_findings\<lparr>ff_session_id := Some sid\<rparr>) s) sid aid of
        Inl e \<Rightarrow> Inl (if e = AmbiguousAssessmentScopeError then 400 else 500)
      | Inr None \<Rightarrow> Inl 404
      | Inr (Some a) \<Rightarrow> Inr (AssessmentBody a))"

definition audit_list_events :: "audit_event list \<Rightarrow> audit_event list" where
  "audit_list_events log = audit_query log None None 100 0"

definition platform_info :: "application \<Rightarrow> api_env \<Rightarrow> platform \<Rightarrow> api_body http" where
  "platform_info m v p =
     or_500 SummaryBody
       (res_bind (ap_version v) (\<lambda>ver. res_bind (list_agents (pf_agents p)) (\<lambda>agents.
         Inr \<lparr>pi_version = ver, pi_agents = length agents, pi_tools = length (discover_tools (pf_registry p)),
              pi_rules = length (am_rules m), pi_audit_events = length (audit_list_events (pf_audit p)),
              pi_findings = length (list_findings all_findings (pf_findings p))\<rparr>)))"

definition api_list_agents :: "platform \<Rightarrow> api_body http" where
  "api_list_agents p = or_500 AgentsBody (list_agents (pf_agents p))"

definition api_list_tools :: "platform \<Rightarrow> api_body http" where
  "api_list_tools p = Inr (ToolsBody (map md_identity (discover_tools (pf_registry p))))"

definition list_detection_rules :: "application \<Rightarrow> api_body http" where
  "list_detection_rules m = Inr (RulesBody (am_rules m))"

definition list_audit_events :: "platform \<Rightarrow> api_body http" where
  "list_audit_events p = Inr (AuditBody (audit_list_events (pf_audit p)))"

definition api_list_sessions :: "platform \<Rightarrow> api_body http" where
  "api_list_sessions p =
     Inr (SessionsBody (map (\<lambda>s. (ss_session_id s, ss_agent_id s, ss_started_at s)) (list_sessions (pf_sessions p))))"

definition api_list_findings :: "application \<Rightarrow> finding_filter \<Rightarrow> platform \<Rightarrow> api_body http" where
  "api_list_findings m q p =
     Inr (FindingsBody (map (map_finding_to_response (am_rules m)) (list_findings q (pf_findings p))))"

definition api_get_finding :: "application \<Rightarrow> string \<Rightarrow> platform \<Rightarrow> api_body http" where
  "api_get_finding m fid p =
     (case dget (fs_findings (pf_findings p)) fid of
        None \<Rightarrow> Inl 404
      | Some f \<Rightarrow> Inr (FindingBody (map_finding_to_response (am_rules m) f)))"

definition api_version :: "api_env \<Rightarrow> api_body http" where
  "api_version v = or_500 VersionBody (ap_version v)"

definition health :: "api_body http" where
  "health = Inr HealthBody"

fun observe :: "application \<Rightarrow> api_env \<Rightarrow> api_route \<Rightarrow> platform \<Rightarrow> api_body http" where
  "observe m v ListAgents p = api_list_agents p"
| "observe m v (AgentEnforcement aid) p = get_agent_enforcement aid p"
| "observe m v ListTools p = api_list_tools p"
| "observe m v ListDetectionRules p = list_detection_rules m"
| "observe m v ListAuditEvents p = list_audit_events p"
| "observe m v ListSessions p = api_list_sessions p"
| "observe m v (ListFindings q) p = api_list_findings m q p"
| "observe m v (GetFinding fid) p = api_get_finding m fid p"
| "observe m v (ListRiskAssessments sid aid level) p =
     Inr (AssessmentsBody (list_risk_assessments (ap_assess_now v) sid aid level (pf_findings p)))"
| "observe m v (GetRiskAssessment sid aid) p = get_risk_assessment (ap_assess_now v) sid aid (pf_findings p)"
| "observe m v PlatformInfo p = platform_info m v p"
| "observe m v Version p = api_version v"
| "observe m v _ p = health"

definition endpoint :: "application \<Rightarrow> api_env \<Rightarrow> jwt_claims option \<Rightarrow> api_route \<Rightarrow> platform \<Rightarrow> api_result" where
  "endpoint m v who rt p =
     (case (rt, who) of
        (Execute aid q, _) \<Rightarrow> api_execute m v aid q p
      | (ReinstateAgent aid reason, Some c) \<Rightarrow> api_reinstate m v aid reason c p
      | _ \<Rightarrow> (observe m v rt p, p))"

definition handle ::
  "'p jwt_library \<Rightarrow> application \<Rightarrow> api_env \<Rightarrow> credentials option \<Rightarrow> api_route \<Rightarrow> platform \<Rightarrow> api_result" where
  "handle lib m v credentials rt p =
     (case admit rt (get_current_principal lib (am_jwt m) (ap_auth_now v) credentials) of
        Inl code \<Rightarrow> (Inl code, p)
      | Inr who \<Rightarrow> endpoint m v who rt p)"

subsection \<open>Who reaches what\<close>

definition permitted :: "jwt_claims \<Rightarrow> api_route \<Rightarrow> bool" where
  "permitted who rt \<longleftrightarrow>
     (case rt of
        Execute aid _ \<Rightarrow> jc_role who = AGENT \<and> jc_agent_id who = aid
      | ReinstateAgent _ _ \<Rightarrow> jc_role who = ADMIN
      | _ \<Rightarrow> jc_role who \<in> {ANALYST, ADMIN})"

lemma unauthenticated: "get_current_principal lib js now c = Inl e \<Longrightarrow> e = 401"
  by (auto simp: get_current_principal_def split: option.splits sum.splits if_splits)

lemma admit_public: "plane_of rt = PublicPlane \<Longrightarrow> admit rt pr = Inr None"
  by (simp add: admit_def)

lemma admit_exact:
  assumes "plane_of rt \<noteq> PublicPlane"
  shows "admit rt pr = (case pr of Inl e \<Rightarrow> Inl e | Inr who \<Rightarrow> if permitted who rt then Inr (Some who) else Inl 403)"
proof (cases pr)
  case (Inr who)
  show ?thesis
    using assms Inr
    by (cases rt; cases "jc_role who") (auto simp: admit_def permitted_def require_roles_def require_execution_identity_def)
qed (use assms in \<open>cases rt; simp add: admit_def require_roles_def\<close>)


subsection \<open>Changes of the shared state\<close>

lemma reinstate_agent_records:
  assumes "reinstate_agent ev aid act reason wm s = (Inr a, s')" and "service_inv s"
  shows "\<exists>t. er_transitions (sv_enf s') = er_transitions (sv_enf s) @ [t] \<and> et_agent_id t = aid \<and> et_action t = REINSTATE
    \<and> et_actor t = act \<and> et_reason t = reason"
proof -
  obtain b where b: "get_agent s aid = Inr b" "transition ev b ST_ACTIVE REINSTATE act reason None wm s = (Inr a, s')"
    using assms(1) by (auto simp: reinstate_agent_def split: sum.splits if_splits)
  have "ag_id b = aid" by (rule service_inv_agent_id [OF assms(2) b(1)])
  with b(2) show ?thesis
    by (auto simp: transition_def Let_def enforcement_record_transition_def new_enforcement_transition_def
        split: sum.splits if_splits prod.splits)
qed

lemma reset_projection_agents: "reset_projection w now wm p = (r, p') \<Longrightarrow> pf_agents p' = pf_agents p"
  by (rule reset_projection_run [of w now wm p]) auto

lemma reinstate_records:
  assumes "reinstate w v aid act reason p = (Inr a, p')" and "service_inv (pf_agents p)"
  shows "\<exists>t. er_transitions (sv_enf (pf_agents p')) = er_transitions (sv_enf (pf_agents p)) @ [t] \<and> et_agent_id t = aid
    \<and> et_action t = REINSTATE \<and> et_actor t = act \<and> et_reason t = reason"
proof -
  let ?wm = "capture_watermark w v aid p"
  obtain x s1 where x: "reinstate_agent (rv_agent_env v) aid act reason (Some ?wm) (pf_agents p) = (x, s1)" by fastforce
  then obtain b where b: "x = Inr b"
    using assms(1) by (cases x) (auto simp: reinstate_def and_then_def on_agents_def Let_def)
  obtain y q where q: "reset_projection w (rv_risk_now v) ?wm (p\<lparr>pf_agents := s1\<rparr>) = (y, q)" by fastforce
  have "pf_agents p' = s1"
    using assms(1) x b q reset_projection_agents [OF q]
    by (cases y) (auto simp: reinstate_def and_then_def on_agents_def Let_def split: sum.splits if_splits)
  with reinstate_agent_records [OF x [unfolded b] assms(2)] show ?thesis by simp
qed

text \<open>
  (C7) The live state is changed only by right. When the handling of a request changes any store of the platform, the
  request carried a valid token, and either an agent executed under its own identity, in which case the
  change is exactly that of the security pipeline run for that agent, or an administrator reinstated an agent, in
  which case a success has written one transition that names the administrator of the token and the reason given. Every other route only reads.
\<close>

theorem live_state_changes_only_by_right:
  assumes "handle lib m v c rt p = (r, p')" and "p' \<noteq> p" and "service_inv (pf_agents p)"
  shows "\<exists>who. get_current_principal lib (am_jwt m) (ap_auth_now v) c = Inr who \<and>
    ((\<exists>q. rt = Execute (jc_agent_id who) q \<and> jc_role who = AGENT
        \<and> p' = snd (runtime_execute (am_runtime m) (ap_runtime_env v) (runtime_request (jc_agent_id who) q) p))
     \<or> (\<exists>aid reason. rt = ReinstateAgent aid reason \<and> jc_role who = ADMIN
        \<and> (\<forall>b. r = Inr b \<longrightarrow>
             (\<exists>t. er_transitions (sv_enf (pf_agents p')) = er_transitions (sv_enf (pf_agents p)) @ [t] \<and> et_agent_id t = aid
               \<and> et_action t = REINSTATE \<and> et_actor t = jc_sub who \<and> et_reason t = reason))))"
proof -
  have guarded: "plane_of rt \<noteq> PublicPlane"
    using assms(1,2) by (cases rt) (auto simp: handle_def admit_public endpoint_def)
  then obtain who where who: "get_current_principal lib (am_jwt m) (ap_auth_now v) c = Inr who" "permitted who rt"
    "endpoint m v (Some who) rt p = (r, p')"
    using assms(1,2) by (auto simp: handle_def admit_exact split: sum.splits if_splits)
  show ?thesis
  proof (cases rt)
    case (Execute aid q)
    with who show ?thesis by (auto simp: permitted_def endpoint_def api_execute_def Let_def split: prod.splits)
  next
    case (ReinstateAgent aid reason)
    then have run: "api_reinstate m v aid reason who p = (r, p')" using who(3) by (simp add: endpoint_def)
    have "\<exists>t. er_transitions (sv_enf (pf_agents p')) = er_transitions (sv_enf (pf_agents p)) @ [t] \<and> et_agent_id t = aid
        \<and> et_action t = REINSTATE \<and> et_actor t = jc_sub who \<and> et_reason t = reason" if "r = Inr b" for b
      using run that reinstate_records [OF _ assms(3)]
      by (auto simp: api_reinstate_def split: if_splits prod.splits sum.splits)
    with who ReinstateAgent show ?thesis by (auto simp: permitted_def)
  qed (use who(3) assms(2) in \<open>simp_all add: endpoint_def\<close>)
qed

definition ex_claims :: "role \<Rightarrow> jwt_claims" where
  "ex_claims r = \<lparr>jc_sub = ''root'', jc_agent_id = ''a'', jc_role = r, jc_iat = 0, jc_exp = 3600\<rparr>"

definition ex_library :: "role \<Rightarrow> jwt_claims jwt_library" where
  "ex_library r =
     \<lparr>jl_encode = (\<lambda>_ _ _. ''tok''),
      jl_decode = (\<lambda>now token _ _ leeway.
        if token \<noteq> ''tok'' then InvalidToken
        else if 0 > now + leeway * second then InvalidToken
        else if 3600 * second \<le> now - leeway * second then ExpiredSignature else TokenPayload (ex_claims r)),
      jl_dump = id, jl_validate = Some\<rparr>"

definition ex_app :: application where
  "ex_app = \<lparr>am_jwt = new_jwt_service ''k'', am_runtime = ex_runtime, am_wiring = full_wiring, am_rules = []\<rparr>"

definition ex_api :: api_env where
  "ex_api = \<lparr>ap_auth_now = 5, ap_runtime_env = ex_runtime_env, ap_recovery_env = ex_recovery, ap_assess_now = 5,
     ap_version = Inr ''0.15.0''\<rparr>"

definition ex_bearer :: credentials where
  "ex_bearer = \<lparr>cr_scheme = ''Bearer'', cr_credentials = '' tok''\<rparr>"

theorem live_state_changes_only_by_right_witness:
  "map et_actor (er_transitions (sv_enf (pf_agents (snd (handle (ex_library ADMIN) ex_app ex_api (Some ex_bearer)
      (ReinstateAgent ''a'' ''cleared'') (ex_stores ex_suspended)))))) = [''runtime'', ''root'']"
proof -
  let ?p = "ex_stores ex_suspended" and ?rt = "ReinstateAgent ''a'' ''cleared''"
  obtain r p' where run: "handle (ex_library ADMIN) ex_app ex_api (Some ex_bearer) ?rt ?p = (r, p')" by fastforce
  have "(case handle (ex_library ADMIN) ex_app ex_api (Some ex_bearer) ?rt ?p of
       (Inr _, q) \<Rightarrow> length (er_transitions (sv_enf (pf_agents q))) = 2 | _ \<Rightarrow> False)"
    by code_simp
  then obtain b where r: "r = Inr b" "length (er_transitions (sv_enf (pf_agents p'))) = 2" using run by (cases r) auto
  have before: "map et_actor (er_transitions (sv_enf (pf_agents ?p))) = [''runtime'']" by code_simp
  then have "length (er_transitions (sv_enf (pf_agents ?p))) = 1" by (metis length_map list.size(3,4) One_nat_def plus_1_eq_Suc add.commute)
  with r(2) have "p' \<noteq> ?p" by auto
  moreover have "service_inv (pf_agents ?p)"
    using service_inv_reachable [OF ex_reachable(2)] by (simp add: ex_stores_def)
  ultimately obtain who where "get_current_principal (ex_library ADMIN) (am_jwt ex_app) (ap_auth_now ex_api) (Some ex_bearer) = Inr who"
    "\<exists>t. er_transitions (sv_enf (pf_agents p')) = er_transitions (sv_enf (pf_agents ?p)) @ [t] \<and> et_actor t = jc_sub who"
    using live_state_changes_only_by_right [OF run] r(1) by blast
  moreover have "map_sum id jc_sub (get_current_principal (ex_library ADMIN) (am_jwt ex_app) (ap_auth_now ex_api) (Some ex_bearer)) = Inr ''root''"
    by code_simp
  ultimately show ?thesis using before run by auto
qed

subsection \<open>Tokens round trip\<close>

text \<open>
  What the code relies on of the libraries, for one set of claims: validation undoes the dump, a token is printable text, and
  decoding with the signing key gives the payload back between its issue and its expiry, each with the leeway.
\<close>

definition jwt_faithful :: "'p jwt_library \<Rightarrow> jwt_service \<Rightarrow> jwt_claims \<Rightarrow> bool" where
  "jwt_faithful lib js c \<longleftrightarrow>
     jl_validate lib (jl_dump lib c) = Some c \<and>
     (let token = jl_encode lib (jl_dump lib c) (js_secret_key js) (js_algorithm js)
      in strip token = token \<and> token \<noteq> [] \<and>
         (\<forall>now leeway. jl_decode lib now token (js_secret_key js) [js_algorithm js] leeway =
            (if jc_iat c * second > now + leeway * second then InvalidToken
             else if jc_exp c * second \<le> now - leeway * second then ExpiredSignature
             else TokenPayload (jl_dump lib c))))"

text \<open>
  (C39) A token names whom it was issued to, for as long as it was issued. Presented as a bearer credential at any time from its creation
  until the configured lifetime has passed it authenticates exactly the subject, agent and role it was created for,
  and from ten seconds after that it is refused with 401.
\<close>

theorem issued_token_identifies:
  assumes "jwt_faithful lib js (claims_for js t0 subject aid r)" and "t0 \<le> now" and "map lower_char scheme = ''bearer''"
  defines "creds \<equiv> Some \<lparr>cr_scheme = scheme, cr_credentials = create_token lib js t0 subject aid r\<rparr>"
  shows "(now \<le> t0 + js_expiration_minutes js * 60 * second \<longrightarrow>
      (\<exists>who. get_current_principal lib js now creds = Inr who \<and> jc_sub who = subject \<and> jc_agent_id who = aid \<and> jc_role who = r))
    \<and> (t0 + js_expiration_minutes js * 60 * second + 10 * second \<le> now \<longrightarrow> get_current_principal lib js now creds = Inl 401)"
proof -
  let ?c = "claims_for js t0 subject aid r" and ?until = "t0 + js_expiration_minutes js * 60 * second"
  have iat: "\<not> now + 10 * second < jc_iat ?c * second"
    using assms(2) by (simp add: claims_for_def second_def)
  have exp: "jc_exp ?c * second \<le> ?until" "?until < jc_exp ?c * second + 10 * second"
    by (simp_all add: claims_for_def second_def)
  have "get_current_principal lib js now creds = (if jc_exp ?c * second \<le> now - 10 * second then Inl 401 else Inr ?c)"
    using assms(1-3) iat
    by (simp add: creds_def get_current_principal_def create_token_def verify_token_def jwt_faithful_def Let_def)
  moreover have "jc_sub ?c = subject" "jc_agent_id ?c = aid" "jc_role ?c = r" by (simp_all add: claims_for_def)
  ultimately show ?thesis using exp by auto
qed

theorem issued_token_identifies_witness:
  "\<exists>who. get_current_principal (ex_library AGENT) (new_jwt_service ''k'') 5
      (Some \<lparr>cr_scheme = ''Bearer'', cr_credentials = create_token (ex_library AGENT) (new_jwt_service ''k'') 0 ''root'' ''a'' AGENT\<rparr>) = Inr who
    \<and> jc_agent_id who = ''a'' \<and> jc_role who = AGENT"
proof -
  have c: "claims_for (new_jwt_service ''k'') 0 ''root'' ''a'' AGENT = ex_claims AGENT"
    by (simp add: claims_for_def new_jwt_service_def ex_claims_def second_def)
  have "jwt_faithful (ex_library AGENT) (new_jwt_service ''k'') (ex_claims AGENT)"
    by (simp add: jwt_faithful_def ex_library_def ex_claims_def Let_def second_def strip_def is_space_def)
  moreover have "map lower_char ''Bearer'' = ''bearer''" by code_simp
  ultimately show ?thesis
    using issued_token_identifies [of "ex_library AGENT" "new_jwt_service ''k''" 0 "''root''" "''a''" AGENT 5 "''Bearer''"] c
    by (auto simp: new_jwt_service_def second_def)
qed

subsection \<open>The audit listing\<close>

lemma audit_listing_truncated:
  "length (audit_list_events log) = min 100 (length log)"
  by (simp add: audit_list_events_def audit_query_def)

end
