(* ===== verification/Startup.thy ===== *)
theory Startup
  imports Access
begin

section \<open>Configuration and composition\<close>

text \<open>
  \<^verbatim>\<open>app/config/settings.py\<close>, \<^verbatim>\<open>app/repositories/factory.py\<close>, \<^verbatim>\<open>app/repositories/composition_validation.py\<close>,
  \<^verbatim>\<open>app/services/runtime_bootstrap.py\<close>, \<^verbatim>\<open>app/api/dependencies.py\<close> and the lifespan hook of \<^verbatim>\<open>app/main.py\<close>: from the process
  environment to the first request. A repository is the name of its class, which is all the composition rules look
  at. The database engine, the file system and the readings of clocks and uuids are inputs. The scenario registry and the telemetry
  dispatcher that the composition root also builds are not modelled.
\<close>

subsection \<open>Settings\<close>

type_synonym environment = "(string, string) dict"

abbreviation configuration_error :: "'a res" where
  "configuration_error \<equiv> Inl (OtherError ''ConfigurationError'')"

definition minimum_jwt_secret_length :: nat where
  "minimum_jwt_secret_length = 32"

definition retired_development_secret :: string where
  "retired_development_secret = ''development-secret-key-change-in-production-32bytes''"

definition get_jwt_secret_key :: "environment \<Rightarrow> string res" where
  "get_jwt_secret_key os =
     (case dget os ''JWT_SECRET_KEY'' of
        None \<Rightarrow> configuration_error
      | Some secret \<Rightarrow>
          if strip secret = [] then configuration_error
          else if secret = retired_development_secret then configuration_error
          else if length secret < minimum_jwt_secret_length then configuration_error
          else Inr secret)"

definition default_max_terminal_execution_receipts :: nat where
  "default_max_terminal_execution_receipts = 10000"

definition get_max_terminal_execution_receipts :: "environment \<Rightarrow> nat res" where
  "get_max_terminal_execution_receipts os =
     (case dget os ''EXECUTION_EVIDENCE_MAX_TERMINAL_RECEIPTS'' of
        None \<Rightarrow> Inr default_max_terminal_execution_receipts
      | Some raw \<Rightarrow>
          if strip raw = [] then Inr default_max_terminal_execution_receipts
          else case py_int (strip raw) of
                 None \<Rightarrow> configuration_error
               | Some n \<Rightarrow> if n < 1 then configuration_error else Inr (nat n))"

definition get_repository_backend :: "environment \<Rightarrow> string res" where
  "get_repository_backend os =
     (let raw = map lower_char (strip (get_or os ''REPOSITORY_BACKEND'' ''memory''))
      in if raw \<notin> {''memory'', ''sql''} then configuration_error else Inr raw)"

definition get_database_url :: "environment \<Rightarrow> string res" where
  "get_database_url os =
     (let url = strip (get_or os ''DATABASE_URL'' []) in if url = [] then configuration_error else Inr url)"

subsection \<open>Repositories\<close>

record container =
  ct_agent :: string
  ct_administrative :: string
  ct_administrative_audit :: string
  ct_tool :: string
  ct_session :: string
  ct_enforcement :: string
  ct_approval_grant :: string
  ct_audit :: string

definition create_repositories ::
  "string \<Rightarrow> bool \<Rightarrow> bool \<Rightarrow> string option \<Rightarrow> string option \<Rightarrow> string option \<Rightarrow> container res" where
  "create_repositories backend engine session_factory agents tools audits =
     (if backend = ''memory'' then
        (if engine \<or> session_factory then Inl ValueError
         else Inr \<lparr>ct_agent = (case agents of Some r \<Rightarrow> r | None \<Rightarrow> ''InMemoryAgentRepository''),
                   ct_administrative = ''InMemoryAdministrativeStateRepository'',
                   ct_administrative_audit = ''InMemoryAdministrativeAuditRepository'',
                   ct_tool = (case tools of Some r \<Rightarrow> r | None \<Rightarrow> ''InMemoryToolRepository''),
                   ct_session = ''InMemorySessionRepository'', ct_enforcement = ''InMemoryEnforcementStateRepository'',
                   ct_approval_grant = ''InMemoryApprovalContinuationRepository'',
                   ct_audit = (case audits of Some r \<Rightarrow> r | None \<Rightarrow> ''InMemoryAuditEvidenceRepository'')\<rparr>)
      else if backend = ''sql'' then
        (if \<not> engine \<and> \<not> session_factory then Inl ValueError
         else if engine \<and> session_factory then Inl ValueError
         else Inr \<lparr>ct_agent = (case agents of Some r \<Rightarrow> r | None \<Rightarrow> ''SqlAgentRepository''),
                   ct_administrative = ''SqlAdministrativeStateRepository'',
                   ct_administrative_audit = ''SqlAdministrativeAuditRepository'',
                   ct_tool = (case tools of Some r \<Rightarrow> r | None \<Rightarrow> ''SqlToolRepository''),
                   ct_session = ''SqlSessionRepository'', ct_enforcement = ''SqlEnforcementStateRepository'',
                   ct_approval_grant = ''SqlApprovalContinuationRepository'',
                   ct_audit = (case audits of Some r \<Rightarrow> r | None \<Rightarrow> ''SqlAuditEvidenceRepository'')\<rparr>)
      else Inl ValueError)"

definition is_durable :: "string \<Rightarrow> bool" where
  "is_durable cls \<longleftrightarrow> prefix ''Sql'' cls"

record namespace_reference =
  nf_referencing_attribute :: string
  nf_referenced_attribute :: "string option"

definition l6_references :: "namespace_reference list" where
  "l6_references =
     [\<lparr>nf_referencing_attribute = ''enforcement_repository'', nf_referenced_attribute = None\<rparr>,
      \<lparr>nf_referencing_attribute = ''enforcement_repository'', nf_referenced_attribute = Some ''session_repository''\<rparr>,
      \<lparr>nf_referencing_attribute = ''approval_grant_repository'', nf_referenced_attribute = Some ''enforcement_repository''\<rparr>]"

definition attribute :: "container \<Rightarrow> string \<Rightarrow> string option" where
  "attribute c name =
     dget [(''agent_repository'', ct_agent c), (''administrative_repository'', ct_administrative c),
       (''administrative_audit_repository'', ct_administrative_audit c), (''tool_repository'', ct_tool c),
       (''session_repository'', ct_session c), (''enforcement_repository'', ct_enforcement c),
       (''approval_grant_repository'', ct_approval_grant c), (''audit_repository'', ct_audit c)] name"

definition durable_attribute :: "container \<Rightarrow> string \<Rightarrow> bool" where
  "durable_attribute c name = (case attribute c name of None \<Rightarrow> False | Some cls \<Rightarrow> is_durable cls)"

definition violations :: "container \<Rightarrow> namespace_reference list" where
  "violations c =
     filter (\<lambda>ref. durable_attribute c (nf_referencing_attribute ref)
        \<and> \<not> (case nf_referenced_attribute ref of None \<Rightarrow> False | Some name \<Rightarrow> durable_attribute c name)) l6_references"

definition validate_durable_composition :: "container \<Rightarrow> unit res" where
  "validate_durable_composition c = (if violations c \<noteq> [] then Inl ValueError else Inr ())"

definition build_repositories :: "environment \<Rightarrow> (string \<Rightarrow> unit res) \<Rightarrow> container res" where
  "build_repositories os create_sql_engine =
     res_bind (get_repository_backend os) (\<lambda>backend.
     res_bind (if backend = ''sql''
               then res_bind (get_database_url os) (\<lambda>url. res_bind (create_sql_engine url) (\<lambda>_.
                      create_repositories ''sql'' True False None None None))
               else create_repositories ''memory'' False False None None None) (\<lambda>c.
     res_bind (validate_durable_composition c) (\<lambda>_. Inr c)))"

subsection \<open>Bootstrap\<close>

definition bootstrap_actor :: actor where
  "bootstrap_actor = \<lparr>ac_type = SYSTEM, ac_id = ''bootstrap''\<rparr>"

definition default_agent :: "string \<Rightarrow> agent" where
  "default_agent aid = \<lparr>ag_id = aid, ag_name = ''Local Agent'', ag_owner = ''security-team'', ag_risk_tier = RT_HIGH,
     ag_approved_tools = [''file_read'', ''directory_list''], ag_status = ST_ACTIVE\<rparr>"

definition register_default_agent :: "env \<Rightarrow> env \<Rightarrow> string \<Rightarrow> (agent_service, unit) eff" where
  "register_default_agent ev1 ev2 aid s =
     (case get_agent s aid of
        Inr _ \<Rightarrow> (Inr (), s)
      | Inl e \<Rightarrow>
          if e = AgentNotFoundError
          then and_then (register_and_activate_agent ev1 ev2 (default_agent aid) bootstrap_actor None) (\<lambda>_. ok ()) s
          else (Inl e, s))"

definition filesystem_tool :: "string \<Rightarrow> string \<Rightarrow> string \<Rightarrow> string \<Rightarrow> tool_metadata" where
  "filesystem_tool tid name description permission =
     \<lparr>md_identity = \<lparr>ti_tool_id = tid, ti_name = name, ti_version = ''1.0.0'', ti_description = description\<rparr>,
      md_governance = \<lparr>tg_risk_level = TR_LOW, tg_required_permissions = [permission], tg_owner = None,
        tg_approval_required = False\<rparr>,
      md_capability = \<lparr>tc_category = ''filesystem'', tc_reads_files = True, tc_writes_files = False, tc_network_access = False,
        tc_internet_access = False, tc_database_access = False, tc_shell_access = False\<rparr>,
      md_operational = \<lparr>top_enabled = True, top_timeout_seconds = 30, top_supports_streaming = False\<rparr>\<rparr>"

definition file_read_metadata :: tool_metadata where
  "file_read_metadata = filesystem_tool ''file_read'' ''File Read'' ''Read files from the workspace'' ''files:read''"

definition directory_list_metadata :: tool_metadata where
  "directory_list_metadata =
     filesystem_tool ''directory_list'' ''Directory List'' ''List files in the workspace'' ''files:list''"

definition declare_tool :: "tool_metadata \<Rightarrow> (tool_repo, unit) eff" where
  "declare_tool md r =
     (if family_exists r (ti_tool_id (md_identity md)) then (Inr (), r)
      else and_then (register_tool \<lparr>tl_metadata = md\<rparr>) (\<lambda>_. ok ()) r)"

text \<open>The constructor of a tool resolves its workspace, so it fails when there is none.\<close>

definition register_executable :: "fsys \<Rightarrow> string \<Rightarrow> tool_metadata \<Rightarrow> string \<Rightarrow> (tool_registry, unit) eff" where
  "register_executable fy cls md impl reg =
     (if registry_exists reg (ti_tool_id (md_identity md)) then (Inr (), reg)
      else case new_resolver fy ''demo_workspace'' of
             Inl e \<Rightarrow> (Inl e, reg)
           | Inr _ \<Rightarrow> and_then (register \<lparr>bt_class = cls, bt_metadata = Some md\<rparr> (Some impl)) (\<lambda>_. ok ()) reg)"

definition register_default_tools :: "fsys \<Rightarrow> (tool_repo \<times> tool_registry, unit) eff" where
  "register_default_tools fy st =
     (let (r, reg) = st; (x, r1) = and_then (declare_tool file_read_metadata) (\<lambda>_. declare_tool directory_list_metadata) r
      in case x of
           Inl e \<Rightarrow> (Inl e, (r1, reg))
         | Inr _ \<Rightarrow>
             (let (y, reg1) = and_then (register_executable fy ''FileReadTool'' file_read_metadata ''file_read_v1'')
                    (\<lambda>_. register_executable fy ''DirectoryListTool'' directory_list_metadata ''directory_list_v1'') reg
              in (y, (r1, reg1))))"

subsection \<open>Capability profiles\<close>

definition default_limits :: "resource_limits res" where
  "default_limits = make_limits (256 * 1024 * 1024) (5 * 1000000) (1024 * 1024) (10 * 1000000) []"

definition default_profile :: "(string \<Rightarrow> string) \<Rightarrow> string \<Rightarrow> string \<Rightarrow> capabilities res" where
  "default_profile resolve_path tid ws =
     res_bind (make_filesystem resolve_path ws True [] False) (\<lambda>fs.
     res_bind (make_network EGRESS_DISABLED [] None False False) (\<lambda>net.
     res_bind default_limits (\<lambda>lim. make_capabilities (profile_for tid) fs [] net lim)))"

text \<open>
  The code iterates over a set of tool names. Each name has a profile of its own, so the order shows only in the order of
  the listing; the model takes that of registration.
\<close>

fun derive_profiles ::
  "(string \<Rightarrow> string) \<Rightarrow> (base_tool \<Rightarrow> string option) \<Rightarrow> tool_registry \<Rightarrow> string list \<Rightarrow> profile_registry \<Rightarrow> profile_registry res" where
  "derive_profiles resolve_path workspace_of reg [] profiles = Inr profiles"
| "derive_profiles resolve_path workspace_of reg (tid # tids) profiles =
     (case resolve reg tid None of
        Inl e \<Rightarrow> if is_ToolVersionMismatchError e then derive_profiles resolve_path workspace_of reg tids profiles else Inl e
      | Inr d \<Rightarrow>
          (case Option.bind (td_instance d) workspace_of of
             None \<Rightarrow> derive_profiles resolve_path workspace_of reg tids profiles
           | Some ws \<Rightarrow>
               if ws = [] then derive_profiles resolve_path workspace_of reg tids profiles
               else res_bind (default_profile resolve_path tid ws) (\<lambda>c.
                 derive_profiles resolve_path workspace_of reg tids (register_profile c profiles))))"

definition create_default_capability_registry ::
  "(string \<Rightarrow> string) \<Rightarrow> (base_tool \<Rightarrow> string option) \<Rightarrow> tool_registry \<Rightarrow> profile_registry res" where
  "create_default_capability_registry resolve_path workspace_of reg =
     derive_profiles resolve_path workspace_of reg (dkeys reg) []"

subsection \<open>The composition root\<close>

definition create_default_detection_registry :: "uuid5 \<Rightarrow> detection_registry res" where
  "create_default_detection_registry u =
     (let (r, reg) = and_then (register_rule (prompt_injection_rule u)) (\<lambda>_.
                     and_then (register_rule (sensitive_file_access_rule u)) (\<lambda>_.
                     register_rule (data_exfiltration_rule u))) []
      in case r of Inl e \<Rightarrow> Inl e | Inr _ \<Rightarrow> Inr reg)"

definition tool_workspace :: "fsys \<Rightarrow> base_tool \<Rightarrow> string option" where
  "tool_workspace fy t = (case new_resolver fy ''demo_workspace'' of Inl _ \<Rightarrow> None | Inr root \<Rightarrow> Some (path_text root))"

record start_inputs =
  si_os :: environment
  si_engine :: "string \<Rightarrow> unit res"
  si_fs :: fsys
  si_resolve_path :: "string \<Rightarrow> string"
  si_mac :: mac
  si_sha :: sha
  si_uuid5 :: uuid5
  si_authority_uuid :: string
  si_register_env :: env
  si_activate_env :: env
  si_now :: instant
  si_rule_metadata :: "rule_metadata list"

definition shared_runtime :: "start_inputs \<Rightarrow> detection_registry \<Rightarrow> runtime" where
  "shared_runtime i rules =
     \<lparr>rw_mac = si_mac i, rw_sha = si_sha i, rw_uuid5 = si_uuid5 i, rw_fs = si_fs i, rw_rules = registry_rules rules,
      rw_window = default_excessive_denials_window,
      rw_retention = Some \<lparr>rp_window = default_excessive_denials_window, rp_grace = 30 * 1000000\<rparr>,
      rw_authority = True, rw_tool_service = True, rw_registry = True\<rparr>"

definition start_application :: "start_inputs \<Rightarrow> (application \<times> platform) res" where
  "start_application i =
     res_bind (build_repositories (si_os i) (si_engine i)) (\<lambda>_.
     res_bind (create_default_detection_registry (si_uuid5 i)) (\<lambda>rules.
     res_bind (new_authority (si_authority_uuid i) max_grant_ttl) (\<lambda>authority.
     res_bind (get_max_terminal_execution_receipts (si_os i)) (\<lambda>capacity.
     res_bind (new_evidence_store capacity) (\<lambda>evidence.
     case register_default_agent (si_register_env i) (si_activate_env i) ''agent-1'' empty_service of
       (Inl e, _) \<Rightarrow> Inl e
     | (Inr _, agents) \<Rightarrow>
         (case register_default_tools (si_fs i) ([], []) of
            (Inl e, _) \<Rightarrow> Inl e
          | (Inr _, (tools, reg)) \<Rightarrow>
              res_bind (create_default_capability_registry (si_resolve_path i) (tool_workspace (si_fs i)) reg) (\<lambda>profiles.
              res_bind (get_jwt_secret_key (si_os i)) (\<lambda>secret.
              Inr (\<lparr>am_jwt = new_jwt_service secret, am_runtime = shared_runtime i rules,
                    am_wiring = \<lparr>wi_findings = True, wi_risk = True, wi_sessions = True\<rparr>, am_rules = si_rule_metadata i\<rparr>,
                   \<lparr>pf_agents = agents, pf_authority = authority, pf_findings = empty_findings,
                    pf_risk = new_aggregator None, pf_sessions = empty_session_repo, pf_tools = tools, pf_registry = reg,
                    pf_profiles = profiles, pf_evidence = snd (reconcile_on_startup (si_now i) evidence), pf_audit = []\<rparr>)))))))))"

subsection \<open>What starts\<close>

lemma validation_exact:
  "validate_durable_composition c = Inr () \<longleftrightarrow> \<not> is_durable (ct_enforcement c) \<and> \<not> is_durable (ct_approval_grant c)"
  by (auto simp: validate_durable_composition_def violations_def l6_references_def durable_attribute_def attribute_def)

definition memory_container :: container where
  "memory_container = projr (create_repositories ''memory'' False False None None None)"

text \<open>
  (C21) Only a composition in memory starts. The configured repositories are built exactly when the backend, after trimming and
  lowering, is \<^verbatim>\<open>memory\<close>, and then no store is durable. A request for the database is refused whatever
  the engine does, because the enforcement watermark would outlive the findings it points into.
\<close>

theorem starts_only_in_memory:
  "build_repositories os engine = Inr c \<longleftrightarrow>
     map lower_char (strip (get_or os ''REPOSITORY_BACKEND'' ''memory'')) = ''memory'' \<and> c = memory_container
     \<and> list_all (\<lambda>cls. \<not> is_durable cls) [ct_agent c, ct_administrative c, ct_administrative_audit c, ct_tool c, ct_session c,
          ct_enforcement c, ct_approval_grant c, ct_audit c]"
proof -
  have sql: "validate_durable_composition x \<noteq> Inr ()" if "create_repositories ''sql'' True False None None None = Inr x" for x
    using that by (auto simp: create_repositories_def validation_exact is_durable_def)
  have mem: "create_repositories ''memory'' False False None None None = Inr memory_container"
    by (simp add: memory_container_def create_repositories_def)
  have ok: "validate_durable_composition memory_container = Inr ()"
    by (simp add: validation_exact memory_container_def create_repositories_def is_durable_def)
  have "build_repositories os engine = Inr c \<longleftrightarrow>
      map lower_char (strip (get_or os ''REPOSITORY_BACKEND'' ''memory'')) = ''memory'' \<and> c = memory_container"
    using sql by (auto simp: build_repositories_def res_bind_Inr get_repository_backend_def Let_def mem ok split: if_splits)
  then show ?thesis by (auto simp: memory_container_def create_repositories_def is_durable_def)
qed

subsection \<open>The state of the first request\<close>

lemma started_agents:
  assumes "register_default_agent ev1 ev2 aid empty_service = (r, s)"
  shows "service_inv s" "r = Inr ()" "lifecycle_refusal s aid = None" "dkeys (sv_agents s) = [aid]"
proof -
  have none: "get_agent empty_service aid = Inl AgentNotFoundError" by (simp add: get_agent_def empty_service_def)
  obtain x s1 where reg: "register_agent ev1 (default_agent aid) bootstrap_actor None empty_service = (x, s1)" by fastforce
  obtain y s2 where act: "activate_agent ev2 aid bootstrap_actor ''Activated on registration by a system actor'' None s1 = (y, s2)"
    by fastforce
  have "service_step empty_service s1" "service_step s1 s2"
    using service_step.registers [OF reg] service_step.activates [OF act] by simp_all
  then have inv: "service_inv s2"
    by (intro service_inv_reachable) (auto simp: service_reachable_def intro: rtranclp.rtrancl_into_rtrancl)
  have x: "x = Inr (default_agent aid)" "dget (sv_agents s1) aid = Some (default_agent aid\<lparr>ag_status := ST_REGISTERED\<rparr>)"
    "dkeys (sv_agents s1) = [aid]" "er_fault (sv_enf s1) = None" "ar_fault (sv_admin s1) = None" "er_states (sv_enf s1) = []"
    "map_option as_state (dget (ar_states (sv_admin s1)) aid) = Some AL_REGISTERED"
    using reg by (auto simp: register_agent_def commit_registration_def empty_service_def Let_def legal_cases default_agent_def
        agent_save_def empty_administrative_repo_def empty_enforcement_repo_def)
  obtain a where a: "get_agent s1 aid = Inr a" using x by (auto simp: get_agent_Inr)
  obtain ns where ns: "dget (ar_states (sv_admin s1)) aid = Some ns" "as_state ns = AL_REGISTERED" using x(7) by auto
  have y: "\<exists>n. y = Inr n" "sv_agents s2 = sv_agents s1" "sv_enf s2 = sv_enf s1" "ar_fault (sv_admin s2) = None"
    "map_option as_state (dget (ar_states (sv_admin s2)) aid) = Some AL_ACTIVE"
    using act a ns x(5)
    by (auto simp: activate_agent_def administrative_transition_to_def administrative_get_state_def Let_def legal_cases
        administrative_record_transition_def)
  have run: "(r, s) = (Inr (), s2)"
    using assms none reg act x(1) y(1)
    by (auto simp: register_default_agent_def register_and_activate_agent_def and_then_def default_agent_def)
  then show "service_inv s" "r = Inr ()" using inv by simp_all
  show "lifecycle_refusal s aid = None" using run x y by (simp add: lifecycle_refusal_None is_suspended_def)
  show "dkeys (sv_agents s) = [aid]" using run x y by simp
qed

text \<open>What every theorem about a running platform assumes of its stores.\<close>

definition platform_ok :: "platform \<Rightarrow> bool" where
  "platform_ok p \<longleftrightarrow>
     service_inv (pf_agents p) \<and> authority_inv (pf_authority p) \<and> findings_wf (pf_findings p) \<and> aggregator_inv (pf_risk p)
     \<and> sessions_wf (pf_sessions p) \<and> events_wf (pf_sessions p) \<and> tool_repo_wf (pf_tools p) \<and> registry_wf (pf_registry p)
     \<and> profiles_wf (pf_profiles p) \<and> evidence_inv (pf_evidence p)"

definition confined_profile :: "capabilities \<Rightarrow> bool" where
  "confined_profile c \<longleftrightarrow> fc_read_only (cp_filesystem c) \<and> \<not> fc_allow_temp_writes (cp_filesystem c)
     \<and> nc_mode (cp_network c) = EGRESS_DISABLED \<and> cp_environment c = []"

lemma default_profile_confined:
  assumes "default_profile f tid ws = Inr c"
  shows "confined_profile c"
  using assms
  by (auto simp: default_profile_def res_bind_Inr make_filesystem_def make_network_def network_post_init_def make_capabilities_def
      confined_profile_def split: if_splits)

lemma derive_profiles_ok:
  assumes "derive_profiles f wo reg tids ps = Inr qs" and "profiles_wf ps" and "list_all (confined_profile \<circ> snd) ps"
  shows "profiles_wf qs \<and> list_all (confined_profile \<circ> snd) qs"
  using assms
proof (induction tids arbitrary: ps)
  case (Cons tid tids)
  have step: "profiles_wf (register_profile c ps) \<and> list_all (confined_profile \<circ> snd) (register_profile c ps)"
    if "default_profile f tid ws = Inr c" for c ws
    using Cons.prems(2,3) default_profile_confined [OF that] set_dset [of "cp_profile_id c" c ps] profiles_wf_register [OF Cons.prems(2)]
    by (auto simp: register_profile_def list_all_iff)
  from Cons.prems(1) show ?case
    using Cons.IH [OF _ Cons.prems(2,3)] Cons.IH [OF _ conjunct1 [OF step] conjunct2 [OF step]]
    by (auto simp: res_bind_Inr split: sum.splits option.splits if_splits)
qed simp

lemma declared_ok: "tool_repo_wf r \<Longrightarrow> tool_repo_wf (snd (declare_tool md r))"
  using tool_repo_wf_ops(1) [of r "\<lparr>tl_metadata = md\<rparr>"]
  by (auto simp: declare_tool_def and_then_def split: prod.splits sum.splits)

lemma executable_ok: "registry_wf reg \<Longrightarrow> registry_wf (snd (register_executable fy cls md impl reg))"
  using registry_wf_ops(1) [of reg "\<lparr>bt_class = cls, bt_metadata = Some md\<rparr>" "Some impl"]
  by (auto simp: register_executable_def and_then_def split: prod.splits sum.splits)

lemma default_tools_ok:
  assumes "register_default_tools fy ([], []) = (x, (tools, reg))"
  shows "tool_repo_wf tools" "registry_wf reg"
proof -
  have e: "tool_repo_wf []" "registry_wf []" by (simp_all add: tool_repo_wf_def registry_wf_def)
  have both: "P (snd (and_then m f s))" if "P (snd (m s))" "\<And>y s'. P s' \<Longrightarrow> P (snd (f y s'))" for P m s and f :: "'a \<Rightarrow> ('s, 'b) eff"
    using that by (cases "m s"; cases "fst (m s)") (auto simp: and_then_def)
  show "tool_repo_wf tools"
    using assms both [of tool_repo_wf "declare_tool file_read_metadata" "[]" "\<lambda>_. declare_tool directory_list_metadata", OF declared_ok [OF e(1)] declared_ok]
    by (auto simp: register_default_tools_def split: prod.splits sum.splits)
  show "registry_wf reg"
    using assms e(2) both [of registry_wf "register_executable fy ''FileReadTool'' file_read_metadata ''file_read_v1''" "[]"
        "\<lambda>_. register_executable fy ''DirectoryListTool'' directory_list_metadata ''directory_list_v1''",
        OF executable_ok [OF e(2)] executable_ok]
    by (auto simp: register_default_tools_def split: prod.splits sum.splits)
qed

lemma start_runs:
  assumes "start_application i = Inr (m, p)"
  obtains rules u agents z tools reg au capacity ev ps key where
    "register_default_agent (si_register_env i) (si_activate_env i) ''agent-1'' empty_service = (Inr u, agents)"
    "register_default_tools (si_fs i) ([], []) = (Inr z, (tools, reg))"
    "new_authority (si_authority_uuid i) max_grant_ttl = Inr au" "new_evidence_store capacity = Inr ev"
    "create_default_capability_registry (si_resolve_path i) (tool_workspace (si_fs i)) reg = Inr ps"
    "get_jwt_secret_key (si_os i) = Inr key" "js_secret_key (am_jwt m) = key"
    "p = \<lparr>pf_agents = agents, pf_authority = au, pf_findings = empty_findings, pf_risk = new_aggregator None,
      pf_sessions = empty_session_repo, pf_tools = tools, pf_registry = reg, pf_profiles = ps,
      pf_evidence = snd (reconcile_on_startup (si_now i) ev), pf_audit = []\<rparr>"
    "am_runtime m = shared_runtime i rules"
proof -
  obtain x agents where agents: "register_default_agent (si_register_env i) (si_activate_env i) ''agent-1'' empty_service = (x, agents)"
    by fastforce
  obtain y tools reg where tools: "register_default_tools (si_fs i) ([], []) = (y, (tools, reg))" by (metis prod.exhaust)
  obtain u z where xy: "x = Inr u" "y = Inr z"
    using assms agents tools by (cases x; cases y) (auto simp: start_application_def res_bind_Inr)
  from assms show thesis
    using agents tools xy by (auto simp: start_application_def res_bind_Inr new_jwt_service_def intro: that)
qed

text \<open>
  (C20) The first request finds a sound platform. If the application starts at all, every store satisfies the invariant that the
  theorems of its component assume; the default agent may execute; no receipt is open; every capability profile
  is read only, without network, scratch space or environment; and tokens are signed with a configured key of at
  least 32 bytes that is not the published one.
\<close>

theorem started_application_sound:
  assumes "start_application i = Inr (m, p)"
  shows "platform_ok p \<and> dkeys (sv_agents (pf_agents p)) = [''agent-1''] \<and> lifecycle_refusal (pf_agents p) ''agent-1'' = None
    \<and> list_open (pf_evidence p) = [] \<and> list_all confined_profile (list_profiles (pf_profiles p))
    \<and> dget (si_os i) ''JWT_SECRET_KEY'' = Some (js_secret_key (am_jwt m)) \<and> 32 \<le> length (js_secret_key (am_jwt m))
    \<and> js_secret_key (am_jwt m) \<noteq> retired_development_secret"
proof -
  obtain rules u agents z tools reg au capacity ev ps key where
    agents: "register_default_agent (si_register_env i) (si_activate_env i) ''agent-1'' empty_service = (Inr u, agents)"
    and tools: "register_default_tools (si_fs i) ([], []) = (Inr z, (tools, reg))"
    and au: "new_authority (si_authority_uuid i) max_grant_ttl = Inr au" and ev: "new_evidence_store capacity = Inr ev"
    and ps: "create_default_capability_registry (si_resolve_path i) (tool_workspace (si_fs i)) reg = Inr ps"
    and key: "get_jwt_secret_key (si_os i) = Inr key" "js_secret_key (am_jwt m) = key"
    and p: "p = \<lparr>pf_agents = agents, pf_authority = au, pf_findings = empty_findings, pf_risk = new_aggregator None,
      pf_sessions = empty_session_repo, pf_tools = tools, pf_registry = reg, pf_profiles = ps,
      pf_evidence = snd (reconcile_on_startup (si_now i) ev), pf_audit = []\<rparr>"
    by (rule start_runs [OF assms])
  have e: "snd (reconcile_on_startup (si_now i) ev) = ev" "list_open ev = []" "evidence_inv ev"
    using ev by (auto simp: new_evidence_store_def reconcile_on_startup_def list_open_def evidence_inv_def indexed_def
        terminal_receipt_count_def split: if_splits)
  have a: "authority_inv au" using au by (auto simp: new_authority_def authority_inv_def max_grant_ttl_def split: if_splits)
  have "profiles_wf ps \<and> list_all (confined_profile \<circ> snd) ps"
    using derive_profiles_ok [OF ps [unfolded create_default_capability_registry_def]] by (simp add: profiles_wf_def)
  then have q: "profiles_wf ps" "list_all confined_profile (list_profiles ps)"
    by (auto simp: list_profiles_def list_all_iff)
  have k: "dget (si_os i) ''JWT_SECRET_KEY'' = Some key" "32 \<le> length key" "key \<noteq> retired_development_secret"
    using key(1) by (auto simp: get_jwt_secret_key_def minimum_jwt_secret_length_def split: option.splits if_splits)
  have r: "aggregator_inv (new_aggregator None)" by (simp add: aggregator_inv_def new_aggregator_def)
  show ?thesis
    using e a q k r key(2) started_agents [OF agents] default_tools_ok [OF tools]
    by (simp add: p platform_ok_def findings_wf_empty sessions_wf_empty events_wf_empty)
qed

definition ex_start :: start_inputs where
  "ex_start = \<lparr>si_os = [(''JWT_SECRET_KEY'', replicate 32 CHR ''k'')], si_engine = (\<lambda>_. Inr ()),
     si_fs = ex_fsys\<lparr>fy_resolve := (\<lambda>_. Some [''/'', ''w''])\<rparr>, si_resolve_path = id, si_mac = ex_mac, si_sha = ex_sha,
     si_uuid5 = ex_uuid, si_authority_uuid = ''1'', si_register_env = ex_env, si_activate_env = ex_env, si_now = 0,
     si_rule_metadata = []\<rparr>"

lemma derive_profiles_returns:
  assumes "list_all (\<lambda>tid. \<not> isl (resolve reg tid None)) tids" and "\<And>tid ws. wo t = Some ws \<Longrightarrow> is_absolute ws \<and> null_byte \<notin> set ws"
    and "\<And>t'. wo t' = wo t"
  shows "\<exists>qs. derive_profiles f wo reg tids ps = Inr qs"
  using assms(1)
proof (induction tids arbitrary: ps)
  case (Cons tid tids)
  obtain d where "resolve reg tid None = Inr d" using Cons.prems by (cases "resolve reg tid None") auto
  moreover have "\<exists>c. default_profile f tid ws = Inr c" if "wo t = Some ws" "ws \<noteq> []" for ws
    using assms(2) [OF that(1)] that(2)
    by (auto simp: default_profile_def make_filesystem_def validate_workspace_root_def make_network_def network_post_init_def
        default_limits_def make_limits_def validate_required_controls_def make_capabilities_def profile_for_def res_bind_def)
  ultimately show ?case
    using Cons assms(3) by (cases "td_instance d"; cases "wo t") (auto simp: res_bind_def)
qed simp

theorem started_application_sound_witness:
  "\<exists>m p. start_application ex_start = Inr (m, p) \<and> platform_ok p \<and> lifecycle_refusal (pf_agents p) ''agent-1'' = None"
proof -
  let ?i = ex_start
  obtain x agents where agents: "register_default_agent (si_register_env ?i) (si_activate_env ?i) ''agent-1'' empty_service = (x, agents)"
    by fastforce
  obtain y tools reg where tools: "register_default_tools (si_fs ?i) ([], []) = (y, (tools, reg))" by (metis prod.exhaust)
  have "\<not> isl (fst (register_default_tools (si_fs ?i) ([], []))) \<and>
      (let reg = snd (snd (register_default_tools (si_fs ?i) ([], []))) in list_all (\<lambda>tid. \<not> isl (resolve reg tid None)) (dkeys reg))"
    by code_simp
  then have t: "y = Inr ()" "list_all (\<lambda>tid. \<not> isl (resolve reg tid None)) (dkeys reg)"
    using tools by (cases y; simp)+
  obtain ps where ps: "create_default_capability_registry (si_resolve_path ?i) (tool_workspace (si_fs ?i)) reg = Inr ps"
    unfolding create_default_capability_registry_def
    using derive_profiles_returns [OF t(2), of "tool_workspace (si_fs ?i)" undefined]
    by (auto simp: tool_workspace_def new_resolver_def ex_start_def ex_fsys_def path_text_def is_absolute_def null_byte_def)
  have "\<not> isl (build_repositories (si_os ?i) (si_engine ?i))" "\<not> isl (create_default_detection_registry (si_uuid5 ?i))"
    "\<not> isl (get_jwt_secret_key (si_os ?i))"
    by code_simp+
  then obtain c rules key where "build_repositories (si_os ?i) (si_engine ?i) = Inr c"
    "create_default_detection_registry (si_uuid5 ?i) = Inr rules" "get_jwt_secret_key (si_os ?i) = Inr key"
    by (auto simp: isl_def) (metis sum.exhaust)
  moreover have "get_max_terminal_execution_receipts (si_os ?i) = Inr 10000"
    by (simp add: get_max_terminal_execution_receipts_def ex_start_def default_max_terminal_execution_receipts_def)
  moreover obtain au ev where "new_authority (si_authority_uuid ?i) max_grant_ttl = Inr au" "new_evidence_store 10000 = Inr ev"
    by (simp add: new_authority_def max_grant_ttl_def new_evidence_store_def)
  ultimately obtain m p where "start_application ?i = Inr (m, p)"
    using agents started_agents(2) [OF agents] tools t(1) ps by (simp add: start_application_def res_bind_def)
  with started_application_sound [of ?i m p] show ?thesis by blast
qed

end
