(* ===== verification/Approval.thy ===== *)
theory Approval
  imports Finding_Model
begin

section \<open>Approval continuations\<close>

text \<open>
  \<^verbatim>\<open>app/models/approval_continuation.py\<close> and
  \<^verbatim>\<open>app/repositories/in_memory/approval_continuation_repository.py\<close>: a human-approved authority
  awaiting a single claim, its lifecycle, and the compare-and-set transition that claims it.
\<close>

subsection \<open>Frozen parameters\<close>

text \<open>
  The Python values a parameter mapping may hold. The flag of a dictionary or a set says whether
  it is the read-only variant (\<^verbatim>\<open>MappingProxyType\<close>, \<^verbatim>\<open>frozenset\<close>).
\<close>

datatype py_obj =
    PyScalar string
  | PyDict bool "(string \<times> py_obj) list"
  | PyList "py_obj list"
  | PyTuple "py_obj list"
  | PySet bool "py_obj list"

fun deep_freeze :: "py_obj \<Rightarrow> py_obj" where
  "deep_freeze (PyDict fr kvs) = PyDict True (map (\<lambda>(k, v). (k, deep_freeze v)) kvs)"
| "deep_freeze (PyList xs) = PyTuple (map deep_freeze xs)"
| "deep_freeze (PyTuple xs) = PyTuple (map deep_freeze xs)"
| "deep_freeze (PySet fr xs) = PySet True (map deep_freeze xs)"
| "deep_freeze (PyScalar s) = PyScalar s"

fun deep_unfreeze :: "py_obj \<Rightarrow> py_obj" where
  "deep_unfreeze (PyDict fr kvs) = PyDict False (map (\<lambda>(k, v). (k, deep_unfreeze v)) kvs)"
| "deep_unfreeze (PyList xs) = PyList (map deep_unfreeze xs)"
| "deep_unfreeze (PyTuple xs) = PyList (map deep_unfreeze xs)"
| "deep_unfreeze (PySet fr xs) = PyList (map deep_unfreeze xs)"
| "deep_unfreeze (PyScalar s) = PyScalar s"

text \<open>No part of the value can be changed in place.\<close>

fun immutable :: "py_obj \<Rightarrow> bool" where
  "immutable (PyDict fr kvs) = (fr \<and> (\<forall>(k, v)\<in>set kvs. immutable v))"
| "immutable (PyList xs) = False"
| "immutable (PyTuple xs) = (\<forall>x\<in>set xs. immutable x)"
| "immutable (PySet fr xs) = (fr \<and> (\<forall>x\<in>set xs. immutable x))"
| "immutable (PyScalar s) = True"

lemma deep_freeze_immutable: "immutable (deep_freeze v)"
  by (induction v rule: deep_freeze.induct) auto

lemma deep_unfreeze_freeze: "deep_unfreeze (deep_freeze v) = deep_unfreeze v"
  by (induction v rule: deep_freeze.induct) auto

lemma deep_freeze_id: "immutable v \<Longrightarrow> deep_freeze v = v"
  by (induction v rule: deep_freeze.induct) (auto intro!: map_idI)

subsection \<open>The continuation and its lifecycle\<close>

datatype continuation_state = CS_PENDING | CS_APPROVED | CS_REJECTED | CS_EXPIRED | CS_CONSUMED

definition allowed_continuation_transitions :: "(continuation_state \<times> continuation_state) list" where
  "allowed_continuation_transitions =
     [(CS_PENDING, CS_APPROVED), (CS_PENDING, CS_REJECTED), (CS_PENDING, CS_EXPIRED),
      (CS_APPROVED, CS_CONSUMED)]"

record continuation =
  ct_grant_id :: string
  ct_session_id :: string
  ct_agent_id :: string
  ct_tool_id :: string
  ct_tool_version :: string
  ct_execution_parameters :: py_obj
  ct_originating_audit_event_id :: string
  ct_risk_score :: nat
  ct_required_response :: string
  ct_enforcement_epoch :: nat
  ct_state :: continuation_state
  ct_created_at :: instant
  ct_expires_at :: instant
  ct_approved_by :: "string option"
  ct_consumed_at :: "instant option"
  ct_capability_profile_id :: "string option"
  ct_capability_digest :: "string option"

text \<open>Validation: the non-empty identifiers, and the parameters frozen.\<close>

definition make_continuation :: "continuation \<Rightarrow> continuation res" where
  "make_continuation c =
     (if [] \<in> {ct_grant_id c, ct_session_id c, ct_agent_id c, ct_tool_id c, ct_tool_version c,
               ct_originating_audit_event_id c, ct_required_response c}
      then Inl ValueError
      else Inr (c\<lparr>ct_execution_parameters := deep_freeze (ct_execution_parameters c)\<rparr>))"

subsection \<open>The repository\<close>

type_synonym continuation_repo = "(string, continuation) dict"

definition create_continuation :: "continuation \<Rightarrow> continuation_repo \<Rightarrow> continuation_repo" where
  "create_continuation c r = dset (ct_grant_id c) c r"

definition get_continuation :: "continuation_repo \<Rightarrow> string \<Rightarrow> continuation option" where
  "get_continuation r gid = dget r gid"

definition continuation_metadata_ok :: "continuation_state \<Rightarrow> instant option \<Rightarrow> string option \<Rightarrow> bool" where
  "continuation_metadata_ok to_state consumed_at approved_by =
     (case to_state of
        CS_APPROVED \<Rightarrow>
          (case approved_by of None \<Rightarrow> False | Some x \<Rightarrow> x \<noteq> [] \<and> \<not> is_blank x) \<and> consumed_at = None
      | CS_REJECTED \<Rightarrow> consumed_at = None
      | CS_EXPIRED \<Rightarrow> approved_by = None \<and> consumed_at = None
      | CS_CONSUMED \<Rightarrow> consumed_at \<noteq> None
      | CS_PENDING \<Rightarrow> True)"

definition continuation_update ::
  "continuation_state \<Rightarrow> instant option \<Rightarrow> string option \<Rightarrow> continuation \<Rightarrow> continuation" where
  "continuation_update to_state consumed_at approved_by c =
     (case to_state of
        CS_APPROVED \<Rightarrow> c\<lparr>ct_state := to_state, ct_approved_by := approved_by\<rparr>
      | CS_REJECTED \<Rightarrow>
          (if approved_by \<noteq> None then c\<lparr>ct_state := to_state, ct_approved_by := approved_by\<rparr>
           else c\<lparr>ct_state := to_state\<rparr>)
      | CS_CONSUMED \<Rightarrow> c\<lparr>ct_state := to_state, ct_consumed_at := consumed_at\<rparr>
      | _ \<Rightarrow> c\<lparr>ct_state := to_state\<rparr>)"

definition transition_continuation ::
  "string \<Rightarrow> continuation_state \<Rightarrow> continuation_state \<Rightarrow> instant option \<Rightarrow> string option
     \<Rightarrow> (continuation_repo, bool) eff" where
  "transition_continuation gid from_state to_state consumed_at approved_by r =
     (if (from_state, to_state) \<notin> set allowed_continuation_transitions
        then (Inl InvalidContinuationTransitionError, r)
      else if \<not> continuation_metadata_ok to_state consumed_at approved_by
        then (Inl InvalidContinuationTransitionError, r)
      else case dget r gid of
             None \<Rightarrow> (Inr False, r)
           | Some c \<Rightarrow>
               if ct_state c \<noteq> from_state then (Inr False, r)
               else (Inr True, dset gid (continuation_update to_state consumed_at approved_by c) r))"

definition list_continuations ::
  "continuation_repo \<Rightarrow> string option \<Rightarrow> continuation_state option \<Rightarrow> continuation list" where
  "list_continuations r aid st =
     filter (\<lambda>c. (aid = None \<or> Some (ct_agent_id c) = aid) \<and> (st = None \<or> Some (ct_state c) = st)) (dvals r)"

subsection \<open>Lifecycle\<close>

fun continuation_rank :: "continuation_state \<Rightarrow> nat" where
  "continuation_rank CS_PENDING = 0"
| "continuation_rank CS_APPROVED = 1"
| "continuation_rank _ = 2"

definition continuation_terminal :: "continuation_state \<Rightarrow> bool" where
  "continuation_terminal s \<longleftrightarrow> s \<in> {CS_REJECTED, CS_EXPIRED, CS_CONSUMED}"

interpretation clc: lifecycle "\<lambda>x y. (x, y) \<in> set allowed_continuation_transitions"
  continuation_terminal continuation_rank
proof
  fix x y
  show "continuation_terminal x \<Longrightarrow> (x, y) \<notin> set allowed_continuation_transitions"
    and "\<not> continuation_terminal x \<Longrightarrow> \<exists>y. (x, y) \<in> set allowed_continuation_transitions"
    by (cases x; auto simp: continuation_terminal_def allowed_continuation_transitions_def)+
  show "(x, y) \<in> set allowed_continuation_transitions \<Longrightarrow> continuation_rank x < continuation_rank y"
    by (auto simp: allowed_continuation_transitions_def)
qed

subsection \<open>Sequences of operations\<close>

datatype continuation_op =
    OpCreate continuation
  | OpTransition string continuation_state continuation_state "instant option" "string option"

text \<open>The result is the continuation the operation claims: moves to CONSUMED successfully.\<close>

fun continuation_exec :: "continuation_op \<Rightarrow> continuation_repo \<Rightarrow> string option \<times> continuation_repo" where
  "continuation_exec (OpCreate c) r = (None, create_continuation c r)"
| "continuation_exec (OpTransition gid f t ca ab) r =
     (let (x, r') = transition_continuation gid f t ca ab r
      in (if x = Inr True \<and> t = CS_CONSUMED then Some gid else None, r'))"

fun creates :: "continuation_op \<Rightarrow> string \<Rightarrow> bool" where
  "creates (OpCreate c) gid = (ct_grant_id c = gid)"
| "creates (OpTransition gid' f t ca ab) gid = False"

definition continuation_live :: "continuation_repo \<Rightarrow> string \<Rightarrow> bool" where
  "continuation_live r gid \<longleftrightarrow> (\<exists>c. dget r gid = Some c \<and> \<not> continuation_terminal (ct_state c))"

lemma update_state [simp]: "ct_state (continuation_update t ca ab c) = t"
  by (simp add: continuation_update_def split: continuation_state.splits)

lemma transition_True:
  "transition_continuation gid f t ca ab r = (Inr True, r') \<longleftrightarrow>
     (f, t) \<in> set allowed_continuation_transitions \<and> continuation_metadata_ok t ca ab
     \<and> (\<exists>c. dget r gid = Some c \<and> ct_state c = f \<and> r' = dset gid (continuation_update t ca ab c) r)"
  by (auto simp: transition_continuation_def split: option.splits)

lemma transition_other:
  "transition_continuation gid f t ca ab r = (x, r') \<Longrightarrow> x \<noteq> Inr True \<Longrightarrow> r' = r"
  by (auto simp: transition_continuation_def split: option.splits if_splits)

lemma transition_dead:
  assumes "\<not> continuation_live r k" and "transition_continuation gid f t ca ab r = (x, r')"
  shows "\<not> continuation_live r' k"
proof (cases "x = Inr True")
  case True
  with assms(2) have tr: "transition_continuation gid f t ca ab r = (Inr True, r')" by simp
  then obtain c where c: "dget r gid = Some c" "ct_state c = f" "(f, t) \<in> set allowed_continuation_transitions"
    and r': "r' = dset gid (continuation_update t ca ab c) r"
    by (auto simp: transition_True)
  then have "continuation_live r gid"
    using clc.terminal_stuck [of f t] by (auto simp: continuation_live_def)
  with assms(1) have "k \<noteq> gid" by auto
  with assms(1) r' show ?thesis by (simp add: continuation_live_def)
next
  case False
  with assms transition_other show ?thesis by blast
qed

interpretation conts: single_use continuation_live continuation_exec creates "\<lambda>_. True"
proof
  fix r x gid r'
  show "continuation_live r gid" and "\<not> continuation_live r' gid"
    if "continuation_exec x r = (Some gid, r')"
  proof -
    from that obtain f ca ab where tr: "transition_continuation gid f CS_CONSUMED ca ab r = (Inr True, r')"
      by (cases x) (auto split: prod.splits if_splits)
    then show "continuation_live r gid" "\<not> continuation_live r' gid"
      using clc.terminal_stuck [of f CS_CONSUMED]
      by (auto simp: transition_True continuation_live_def) (simp add: continuation_terminal_def)
  qed
  show "\<not> continuation_live (snd (continuation_exec x r)) gid"
    if "\<not> continuation_live r gid" and "\<not> creates x gid"
  proof (cases x)
    case (OpCreate c)
    with that show ?thesis by (auto simp: create_continuation_def continuation_live_def)
  next
    case (OpTransition g f t ca ab)
    with that(1) transition_dead [of r gid g f t ca ab] show ?thesis by (auto split: prod.splits)
  qed
qed simp

subsection \<open>Approval precedes consumption\<close>

definition continuation_wf :: "continuation \<Rightarrow> bool" where
  "continuation_wf c \<longleftrightarrow>
     (ct_state c \<in> {CS_APPROVED, CS_CONSUMED} \<longrightarrow> (\<exists>who. ct_approved_by c = Some who \<and> \<not> is_blank who))
     \<and> (ct_consumed_at c \<noteq> None \<longleftrightarrow> ct_state c = CS_CONSUMED)"

definition fresh_pending :: "continuation_op \<Rightarrow> bool" where
  "fresh_pending x = (case x of
     OpCreate c \<Rightarrow> ct_state c = CS_PENDING \<and> ct_consumed_at c = None | _ \<Rightarrow> True)"

lemma update_wf:
  assumes "continuation_wf c" and "(ct_state c, t) \<in> set allowed_continuation_transitions"
    and "continuation_metadata_ok t ca ab"
  shows "continuation_wf (continuation_update t ca ab c)"
  using assms
  by (auto simp: continuation_wf_def continuation_update_def continuation_metadata_ok_def
      allowed_continuation_transitions_def split: option.splits)

lemma exec_wf:
  assumes "\<forall>k c. dget r k = Some c \<longrightarrow> continuation_wf c" and "fresh_pending x"
  shows "\<forall>k c. dget (snd (continuation_exec x r)) k = Some c \<longrightarrow> continuation_wf c"
proof (cases x)
  case (OpCreate c)
  with assms show ?thesis
    by (auto simp: create_continuation_def fresh_pending_def continuation_wf_def)
next
  case (OpTransition g f t ca ab)
  obtain y r' where tr: "transition_continuation g f t ca ab r = (y, r')" by fastforce
  then have out: "snd (continuation_exec x r) = r'" by (simp add: OpTransition)
  show ?thesis
  proof (cases "y = Inr True")
    case True
    with tr assms(1) show ?thesis
      unfolding out by (auto simp: transition_True intro!: update_wf split: if_splits)
  next
    case False
    with assms(1) transition_other [OF tr] show ?thesis by (simp add: out)
  qed
qed

lemma runs_wf:
  "\<forall>k c. dget r k = Some c \<longrightarrow> continuation_wf c \<Longrightarrow> \<forall>x\<in>set xs. fresh_pending x \<Longrightarrow>
   \<forall>k c. dget (run_ops continuation_exec xs r) k = Some c \<longrightarrow> continuation_wf c"
proof (induction xs arbitrary: r)
  case (Cons x xs)
  have "\<forall>k c. dget (snd (continuation_exec x r)) k = Some c \<longrightarrow> continuation_wf c"
    by (rule exec_wf [OF Cons.prems(1)]) (use Cons.prems(2) in simp)
  then have "\<forall>k c. dget (run_ops continuation_exec xs (snd (continuation_exec x r))) k = Some c \<longrightarrow> continuation_wf c"
    by (rule Cons.IH) (use Cons.prems(2) in simp)
  then show ?case unfolding run_ops.simps .
qed simp

subsection \<open>Properties of approval continuations\<close>

definition ex_continuation :: continuation where
  "ex_continuation = \<lparr>ct_grant_id = ''g'', ct_session_id = ''s'', ct_agent_id = ''a'', ct_tool_id = ''t'',
     ct_tool_version = ''1'', ct_execution_parameters = PyDict True [], ct_originating_audit_event_id = ''e'',
     ct_risk_score = 3, ct_required_response = ''approve'', ct_enforcement_epoch = 0, ct_state = CS_PENDING,
     ct_created_at = 0, ct_expires_at = 100, ct_approved_by = None, ct_consumed_at = None,
     ct_capability_profile_id = None, ct_capability_digest = None\<rparr>"

text \<open>
  (C36) An approval is good for one execution attempt: in any interleaving of transitions, at most one
  caller moves a continuation to CONSUMED, as long as its identifier is not created anew.
\<close>

theorem continuation_consumed_once:
  assumes "\<forall>x\<in>set xs. \<not> creates x gid"
  shows "length (filter (\<lambda>(x, r). r = Some gid) (results continuation_exec xs repo)) \<le> 1"
  by (rule conts.at_most_one_claim [OF TrueI assms])

theorem continuation_consumed_once_witness:
  "map snd (results continuation_exec
     [OpTransition ''g'' CS_PENDING CS_APPROVED None (Some ''op''),
      OpTransition ''g'' CS_APPROVED CS_CONSUMED (Some 5) None,
      OpTransition ''g'' CS_APPROVED CS_CONSUMED (Some 6) None] [(''g'', ex_continuation)]) = [None, Some ''g'', None]
   \<and> length (filter (\<lambda>(x, r). r = Some ''g'') (results continuation_exec
     [OpTransition ''g'' CS_PENDING CS_APPROVED None (Some ''op''),
      OpTransition ''g'' CS_APPROVED CS_CONSUMED (Some 5) None,
      OpTransition ''g'' CS_APPROVED CS_CONSUMED (Some 6) None] [(''g'', ex_continuation)])) \<le> 1"
  by (rule conjI [OF _ continuation_consumed_once]) (code_simp, simp)

text \<open>
  Nothing is consumed that a human has not approved: starting from an empty repository to which
  only pending continuations are added, every approved or consumed continuation names a
  non-blank operator, and a consumption time is recorded exactly on the consumed ones.
\<close>

theorem approval_precedes_consumption:
  assumes "\<forall>x\<in>set xs. fresh_pending x" and "dget (run_ops continuation_exec xs []) gid = Some c"
  shows "(ct_state c \<in> {CS_APPROVED, CS_CONSUMED} \<longrightarrow> (\<exists>who. ct_approved_by c = Some who \<and> \<not> is_blank who))
    \<and> (ct_consumed_at c \<noteq> None \<longleftrightarrow> ct_state c = CS_CONSUMED)"
  using runs_wf [of "[]" xs] assms by (simp add: continuation_wf_def)

theorem approval_precedes_consumption_witness:
  "\<exists>c. dget (run_ops continuation_exec
     [OpCreate ex_continuation, OpTransition ''g'' CS_PENDING CS_APPROVED None (Some ''op''),
      OpTransition ''g'' CS_APPROVED CS_CONSUMED (Some 5) None] []) ''g'' = Some c
    \<and> ct_state c = CS_CONSUMED \<and> ct_consumed_at c \<noteq> None"
proof -
  let ?xs = "[OpCreate ex_continuation, OpTransition ''g'' CS_PENDING CS_APPROVED None (Some ''op''),
      OpTransition ''g'' CS_APPROVED CS_CONSUMED (Some 5) None]"
  have d: "dget (run_ops continuation_exec ?xs []) ''g''
      = Some (ex_continuation\<lparr>ct_state := CS_CONSUMED, ct_approved_by := Some ''op'', ct_consumed_at := Some 5\<rparr>)"
    by code_simp
  have "\<forall>x\<in>set ?xs. fresh_pending x" by (simp add: fresh_pending_def ex_continuation_def)
  from approval_precedes_consumption [OF this d] d show ?thesis by auto
qed

end
