(* ===== verification/Sql_Database.thy ===== *)
theory Sql_Database
  imports Approval Sessions Enforcement Tools Evidence
begin

section \<open>The relational schema and its transactions\<close>

text \<open>
  \<^verbatim>\<open>app/repositories/sql/models\<close> and \<^verbatim>\<open>app/repositories/sql/session.py\<close>: the tables of the durable backend with their keys
  and checks, and the transaction every adapter runs in. A table is the list of its rows under their primary key, in
  the order of insertion. The constraints are one decidable predicate on the whole database, evaluated when a transaction commits;
  a violation rolls it back. An enum is stored as its constructor where the code stores its value and reads it back by the
  enum, JSON documents as the value they serialise. Row locks make a transaction one step. Column widths and naive
  timestamps are not modelled.
\<close>

subsection \<open>Simulation of one store by another\<close>

text \<open>
  The contract between a durable adapter and the in-memory one: related stores answer a call alike and stay related, as
  long as the call is one the durable store can take.
\<close>

primrec all_fit :: "('op \<Rightarrow> 'c \<Rightarrow> bool) \<Rightarrow> ('op \<Rightarrow> 'c \<Rightarrow> 'r \<times> 'c) \<Rightarrow> 'op list \<Rightarrow> 'c \<Rightarrow> bool" where
  "all_fit fits f [] c = True"
| "all_fit fits f (x # xs) c = (fits x c \<and> all_fit fits f xs (snd (f x c)))"

locale simulation =
  fixes rel :: "'c \<Rightarrow> 'a \<Rightarrow> bool" and fits :: "'op \<Rightarrow> 'c \<Rightarrow> bool"
    and concrete :: "'op \<Rightarrow> 'c \<Rightarrow> 'r \<times> 'c" and abstract :: "'op \<Rightarrow> 'a \<Rightarrow> 'r \<times> 'a"
  assumes same_answer: "rel c a \<Longrightarrow> fits x c \<Longrightarrow> fst (concrete x c) = fst (abstract x a)"
    and stays_related: "rel c a \<Longrightarrow> fits x c \<Longrightarrow> rel (snd (concrete x c)) (snd (abstract x a))"
begin

lemma runs_agree:
  assumes "rel c a" and "all_fit fits concrete xs c"
  shows "results concrete xs c = results abstract xs a \<and> rel (run_ops concrete xs c) (run_ops abstract xs a)"
  using assms by (induction xs arbitrary: c a) (auto simp: same_answer stays_related)

end

definition answer :: "('a \<Rightarrow> 'b) \<Rightarrow> 'a res \<times> 's \<Rightarrow> 'b res \<times> 's" where
  "answer f p = (map_sum id f (fst p), snd p)"

subsection \<open>Rows\<close>

datatype row_status = ROW_ACTIVE | ROW_TERMINAL

record session_row =
  xs_agent_id :: string
  xs_status :: row_status
  xs_next_session_sequence :: nat
  xs_created_at :: instant
  xs_last_activity_at :: "instant option"
  xs_updated_at :: instant
  xs_ended_at :: "instant option"
  xs_ended_reason :: "string option"

record enforcement_row =
  xe_state :: enforcement_state
  xe_current_status :: agent_status
  xe_updated_at :: instant

record transition_row =
  xt_agent_id :: string
  xt_epoch :: nat
  xt_action :: enforcement_action
  xt_actor :: string
  xt_reason :: string
  xt_previous_status :: agent_status
  xt_new_status :: agent_status
  xt_trigger_session_id :: "string option"
  xt_trigger_risk_level :: "risk_level option"
  xt_trigger_risk_score :: "nat option"
  xt_trigger_finding_ids :: "string list option"
  xt_occurred_at :: instant

datatype administrative_refusal_code =
  NOT_AUTHORIZED | UNKNOWN_AGENT | STALE_VERSION | ILLEGAL_TRANSITION | ADMINISTRATIVE_STATE_UNAVAILABLE

record administrative_audit_event =
  aa_event_id :: string
  aa_agent_id :: string
  aa_attempted_action :: administrative_action
  aa_actor :: actor
  aa_refusal_code :: administrative_refusal_code
  aa_reason :: string
  aa_observed_state :: "administrative_lifecycle_state option"
  aa_correlation_id :: string
  aa_occurred_at :: instant

record tool_row =
  xo_governance_enabled :: bool
  xo_risk_level :: tool_risk_level
  xo_metadata_payload :: tool_metadata
  xo_created_at :: instant

record continuation_row =
  xc_session_id :: string
  xc_agent_id :: string
  xc_tool_id :: string
  xc_tool_version :: string
  xc_execution_parameters :: py_obj
  xc_originating_audit_event_id :: string
  xc_risk_score :: nat
  xc_required_response :: string
  xc_enforcement_epoch :: nat
  xc_state :: continuation_state
  xc_created_at :: instant
  xc_expires_at :: instant
  xc_approved_by :: "string option"
  xc_consumed_at :: "instant option"

record database =
  db_agents :: "(string, agent) dict"
  db_sessions :: "(string, session_row) dict"
  db_counters :: "(string, nat) dict"
  db_events :: "(string, session_event) dict"
  db_enforcement :: "(string, enforcement_row) dict"
  db_enforcement_transitions :: "(string, transition_row) dict"
  db_administrative :: "(string, agent_administrative_state) dict"
  db_administrative_transitions :: "(string, administrative_transition) dict"
  db_refusals :: "(string, administrative_audit_event) dict"
  db_families :: "(string, instant) dict"
  db_tools :: "(string \<times> string, tool_row) dict"
  db_audit :: "(string, audit_event) dict"
  db_continuations :: "(string, continuation_row) dict"
  db_fault :: "exn option"

definition empty_database :: database where
  "empty_database = \<lparr>db_agents = [], db_sessions = [], db_counters = [], db_events = [], db_enforcement = [],
     db_enforcement_transitions = [], db_administrative = [], db_administrative_transitions = [], db_refusals = [],
     db_families = [], db_tools = [], db_audit = [], db_continuations = [], db_fault = None\<rparr>"

subsection \<open>Constraints\<close>

definition primary_keys :: "database \<Rightarrow> bool" where
  "primary_keys db \<longleftrightarrow>
     distinct (dkeys (db_agents db)) \<and> distinct (dkeys (db_sessions db)) \<and> distinct (dkeys (db_counters db))
     \<and> distinct (dkeys (db_events db)) \<and> distinct (dkeys (db_enforcement db)) \<and> distinct (dkeys (db_enforcement_transitions db))
     \<and> distinct (dkeys (db_administrative db)) \<and> distinct (dkeys (db_administrative_transitions db))
     \<and> distinct (dkeys (db_refusals db)) \<and> distinct (dkeys (db_families db)) \<and> distinct (dkeys (db_tools db))
     \<and> distinct (dkeys (db_audit db)) \<and> distinct (dkeys (db_continuations db))"

definition has_key :: "('k, 'v) dict \<Rightarrow> 'k \<Rightarrow> bool" where
  "has_key t k \<longleftrightarrow> dget t k \<noteq> None"

definition session_tables_ok :: "database \<Rightarrow> bool" where
  "session_tables_ok db \<longleftrightarrow>
     list_all (\<lambda>x. has_key (db_agents db) (xs_agent_id x) \<and> 0 < xs_next_session_sequence x) (dvals (db_sessions db))
     \<and> list_all (has_key (db_agents db)) (dkeys (db_counters db))
     \<and> list_all (\<lambda>e. has_key (db_sessions db) (se_session_id e) \<and> has_key (db_agents db) (se_agent_id e)
          \<and> 0 < se_sequence_number e \<and> 0 < se_agent_sequence e) (dvals (db_events db))
     \<and> distinct (map (\<lambda>e. (se_session_id e, se_sequence_number e)) (dvals (db_events db)))
     \<and> distinct (map (\<lambda>e. (se_agent_id e, se_agent_sequence e)) (dvals (db_events db)))"

definition plane_tables_ok :: "database \<Rightarrow> bool" where
  "plane_tables_ok db \<longleftrightarrow>
     list_all (has_key (db_agents db)) (dkeys (db_enforcement db))
     \<and> list_all (\<lambda>x. has_key (db_agents db) (xt_agent_id x)) (dvals (db_enforcement_transitions db))
     \<and> list_all (has_key (db_agents db)) (dkeys (db_administrative db))
     \<and> list_all (\<lambda>s. 1 \<le> as_version s) (dvals (db_administrative db))
     \<and> list_all (\<lambda>t. has_key (db_agents db) (at_agent_id t) \<and> at_version_after t = at_version_before t + 1)
          (dvals (db_administrative_transitions db))
     \<and> distinct (map (\<lambda>t. (at_agent_id t, at_version_after t)) (dvals (db_administrative_transitions db)))"

definition record_tables_ok :: "database \<Rightarrow> bool" where
  "record_tables_ok db \<longleftrightarrow>
     list_all (\<lambda>k. has_key (db_families db) (fst k)) (dkeys (db_tools db))
     \<and> list_all (\<lambda>e. ae_tool_version e = None \<or> ae_tool_id e \<noteq> None) (dvals (db_audit db))
     \<and> list_all (\<lambda>x. has_key (db_sessions db) (xc_session_id x) \<and> has_key (db_agents db) (xc_agent_id x)
          \<and> has_key (db_tools db) (xc_tool_id x, xc_tool_version x)) (dvals (db_continuations db))"

definition schema_ok :: "database \<Rightarrow> bool" where
  "schema_ok db \<longleftrightarrow> primary_keys db \<and> session_tables_ok db \<and> plane_tables_ok db \<and> record_tables_ok db"

lemmas schema_defs = schema_ok_def primary_keys_def session_tables_ok_def plane_tables_ok_def record_tables_ok_def

subsection \<open>Transactions\<close>

abbreviation integrity_error :: exn where
  "integrity_error \<equiv> OtherError ''IntegrityError''"

definition insert_row :: "'k \<Rightarrow> 'v \<Rightarrow> ('k, 'v) dict \<Rightarrow> ('k, 'v) dict" where
  "insert_row k v t = t @ [(k, v)]"

text \<open>\<open>db_fault\<close> is what the connection raises; \<open>None\<close> while the database answers.\<close>

definition transactional_session :: "(database, 'a) eff \<Rightarrow> (database, 'a) eff" where
  "transactional_session body db =
     (case db_fault db of
        Some e \<Rightarrow> (Inl e, db)
      | None \<Rightarrow>
          (case body db of
             (Inl e, _) \<Rightarrow> (Inl e, db)
           | (Inr x, db') \<Rightarrow> if schema_ok db' then (Inr x, db') else (Inl integrity_error, db)))"

text \<open>\<^verbatim>\<open>except Exception\<close>: every error but the named ones becomes \<open>e\<close>.\<close>

definition wrap_errors :: "exn list \<Rightarrow> exn \<Rightarrow> ('s, 'a) eff \<Rightarrow> ('s, 'a) eff" where
  "wrap_errors named e m s = (case m s of (Inl x, s') \<Rightarrow> (Inl (if x \<in> set named then x else e), s') | (Inr y, s') \<Rightarrow> (Inr y, s'))"

lemma transaction_schema:
  "schema_ok db \<Longrightarrow> schema_ok (snd (transactional_session body db))"
  by (auto simp: transactional_session_def split: option.splits prod.splits sum.splits)

lemma wrap_errors_state [simp]: "snd (wrap_errors named e m s) = snd (m s)"
  by (auto simp: wrap_errors_def split: prod.splits sum.splits)

lemma transaction_rolls_back:
  "fst (transactional_session body db) = Inl e \<Longrightarrow> snd (transactional_session body db) = db"
  by (auto simp: transactional_session_def split: option.splits prod.splits sum.splits if_splits)

lemma transaction_commits:
  "db_fault db = None \<Longrightarrow> body db = (Inr x, db') \<Longrightarrow> schema_ok db' \<Longrightarrow> transactional_session body db = (Inr x, db')"
  by (simp add: transactional_session_def)

lemma transaction_refuses:
  "db_fault db = None \<Longrightarrow> body db = (Inl e, db') \<Longrightarrow> transactional_session body db = (Inl e, db)"
  by (simp add: transactional_session_def)

lemma has_key_dset [simp]: "has_key (dset k v t) k' \<longleftrightarrow> k' = k \<or> has_key t k'"
  by (simp add: has_key_def)

lemma has_key_mem: "has_key t k \<longleftrightarrow> k \<in> set (dkeys t)"
  by (simp add: has_key_def map_of_eq_None_iff)

lemma insert_fresh: "\<not> has_key t k \<Longrightarrow> insert_row k v t = dset k v t"
  by (induction t) (auto simp: insert_row_def has_key_def split: if_splits)

lemma insert_duplicate: "has_key t k \<Longrightarrow> \<not> distinct (dkeys (insert_row k v t))"
  by (simp add: insert_row_def has_key_mem)

lemma keys_dset: "list_all P (dkeys t) \<Longrightarrow> P k \<Longrightarrow> list_all P (dkeys (dset k v t))"
  by (induction t) auto

lemma vals_dset: "list_all P (dvals t) \<Longrightarrow> P v \<Longrightarrow> list_all P (dvals (dset k v t))"
  by (induction t) auto

lemma vals_insert: "\<not> has_key t k \<Longrightarrow> dvals (dset k v t) = dvals t @ [v]"
  by (simp add: insert_fresh [symmetric] insert_row_def)

end
