(* ===== verification/Sql_Sessions.thy ===== *)
theory Sql_Sessions
  imports Sql_Database
begin

section \<open>The durable session repository\<close>

text \<open>
  \<^verbatim>\<open>app/repositories/sql/session_repository.py\<close>. Terminal sessions stay in their table under another status and positions are
  columns of the session and of a counter table, where the in-memory adapter has a dictionary for each. \<open>wall\<close> is the
  reading of the clock for the bookkeeping columns and \<open>eid\<close> the generated event identifier. The repository is shown to
  simulate the in-memory one of \<open>Sessions\<close>, call by call.
\<close>

subsection \<open>Operations\<close>

fun reason_text :: "terminal_reason \<Rightarrow> string" where
  "reason_text EXPLICIT_END = ''EXPLICIT_END''"
| "reason_text IDLE_TIMEOUT = ''IDLE_TIMEOUT''"

definition reason_of :: "string option \<Rightarrow> terminal_reason" where
  "reason_of t = (if t = Some ''IDLE_TIMEOUT'' then IDLE_TIMEOUT else EXPLICIT_END)"

definition session_of :: "string \<Rightarrow> session_row \<Rightarrow> session" where
  "session_of sid x =
     \<lparr>ss_session_id = sid, ss_agent_id = xs_agent_id x, ss_started_at = xs_created_at x,
      ss_last_activity_at = (case xs_last_activity_at x of None \<Rightarrow> xs_created_at x | Some t \<Rightarrow> t)\<rparr>"

definition new_session_row :: "instant \<Rightarrow> session \<Rightarrow> session_row" where
  "new_session_row wall s =
     \<lparr>xs_agent_id = ss_agent_id s, xs_status = ROW_ACTIVE, xs_next_session_sequence = 1, xs_created_at = ss_started_at s,
      xs_last_activity_at = Some (ss_last_activity_at s), xs_updated_at = wall, xs_ended_at = None, xs_ended_reason = None\<rparr>"

definition active_session :: "database \<Rightarrow> string \<Rightarrow> session option" where
  "active_session db sid =
     (case dget (db_sessions db) sid of
        None \<Rightarrow> None | Some x \<Rightarrow> if xs_status x = ROW_ACTIVE then Some (session_of sid x) else None)"

definition tombstone_of :: "database \<Rightarrow> string \<Rightarrow> tombstone option" where
  "tombstone_of db sid =
     (case dget (db_sessions db) sid of
        None \<Rightarrow> None
      | Some x \<Rightarrow>
          if xs_status x = ROW_TERMINAL
          then Some \<lparr>tb_session_id = sid, tb_agent_id = xs_agent_id x,
                     tb_terminated_at = (case xs_ended_at x of None \<Rightarrow> xs_updated_at x | Some t \<Rightarrow> t),
                     tb_terminal_reason = reason_of (xs_ended_reason x)\<rparr>
          else None)"

definition sql_get_session :: "string \<Rightarrow> (database, session option) eff" where
  "sql_get_session sid = transactional_session (\<lambda>db. (Inr (active_session db sid), db))"

definition sql_save_session :: "instant \<Rightarrow> session \<Rightarrow> (database, unit) eff" where
  "sql_save_session wall s = transactional_session (\<lambda>db.
     (Inr (), case dget (db_sessions db) (ss_session_id s) of
        Some x \<Rightarrow> db\<lparr>db_sessions := dset (ss_session_id s)
          (x\<lparr>xs_agent_id := ss_agent_id s, xs_created_at := ss_started_at s,
             xs_last_activity_at := Some (ss_last_activity_at s), xs_updated_at := wall\<rparr>) (db_sessions db)\<rparr>
      | None \<Rightarrow> db\<lparr>db_sessions := insert_row (ss_session_id s) (new_session_row wall s) (db_sessions db)\<rparr>))"

definition sql_list_sessions :: "(database, session list) eff" where
  "sql_list_sessions = transactional_session (\<lambda>db.
     (Inr (map (\<lambda>(sid, x). session_of sid x) (filter (\<lambda>(_, x). xs_status x = ROW_ACTIVE) (db_sessions db))), db))"

definition sql_create_session :: "instant \<Rightarrow> session \<Rightarrow> (database, session) eff" where
  "sql_create_session wall s = transactional_session (\<lambda>db.
     (case dget (db_sessions db) (ss_session_id s) of
        Some x \<Rightarrow> (Inl (if xs_status x = ROW_TERMINAL then SessionTerminalError else SessionAlreadyExistsError), db)
      | None \<Rightarrow> (Inr s, db\<lparr>db_sessions := insert_row (ss_session_id s) (new_session_row wall s) (db_sessions db)\<rparr>)))"

definition sql_bind_or_create_session :: "instant \<Rightarrow> string \<Rightarrow> string \<Rightarrow> instant \<Rightarrow> (database, session) eff" where
  "sql_bind_or_create_session wall sid aid now = transactional_session (\<lambda>db.
     (case dget (db_sessions db) sid of
        Some x \<Rightarrow>
          if xs_status x = ROW_TERMINAL then (Inl SessionTerminalError, db)
          else if xs_agent_id x \<noteq> aid then (Inl SessionBindingError, db)
          else (Inr \<lparr>ss_session_id = sid, ss_agent_id = xs_agent_id x, ss_started_at = xs_created_at x, ss_last_activity_at = now\<rparr>,
                db\<lparr>db_sessions := dset sid (x\<lparr>xs_last_activity_at := Some now, xs_updated_at := wall\<rparr>) (db_sessions db)\<rparr>)
      | None \<Rightarrow>
          (let s = \<lparr>ss_session_id = sid, ss_agent_id = aid, ss_started_at = now, ss_last_activity_at = now\<rparr>
           in (Inr s, db\<lparr>db_sessions := insert_row sid (new_session_row wall s) (db_sessions db)\<rparr>))))"

definition sql_get_tombstone :: "string \<Rightarrow> (database, tombstone option) eff" where
  "sql_get_tombstone sid = transactional_session (\<lambda>db. (Inr (tombstone_of db sid), db))"

definition sql_terminalize_session :: "instant \<Rightarrow> string \<Rightarrow> tombstone \<Rightarrow> (database, bool) eff" where
  "sql_terminalize_session wall sid t = transactional_session (\<lambda>db.
     (case dget (db_sessions db) sid of
        None \<Rightarrow> (Inr False, db)
      | Some x \<Rightarrow>
          if xs_status x = ROW_TERMINAL then (Inr False, db)
          else (Inr True, db\<lparr>db_sessions := dset sid
                 (x\<lparr>xs_status := ROW_TERMINAL, xs_ended_at := Some (tb_terminated_at t),
                    xs_ended_reason := Some (reason_text (tb_terminal_reason t)), xs_updated_at := wall\<rparr>) (db_sessions db)\<rparr>)))"

definition sql_record_event :: "instant \<Rightarrow> string \<Rightarrow> session_event \<Rightarrow> (database, session_event) eff" where
  "sql_record_event wall eid e db =
     (if se_sequence_number e \<noteq> 0 then (Inl ValueError, db)
      else if se_agent_sequence e \<noteq> 0 then (Inl ValueError, db)
      else transactional_session (\<lambda>db.
        (case dget (db_sessions db) (se_session_id e) of
           None \<Rightarrow> (Inl SessionNotFoundError, db)
         | Some x \<Rightarrow>
             if xs_status x = ROW_TERMINAL then (Inl SessionTerminalError, db)
             else if xs_agent_id x \<noteq> se_agent_id e then (Inl SessionBindingError, db)
             else
               (let row = x\<lparr>xs_next_session_sequence := xs_next_session_sequence x + 1,
                            xs_last_activity_at := Some (se_timestamp e), xs_updated_at := wall\<rparr>;
                    (counters, next_agent_seq) =
                      (case dget (db_counters db) (se_agent_id e) of
                         None \<Rightarrow> (insert_row (se_agent_id e) 1 (db_counters db), 1)
                       | Some n \<Rightarrow> (dset (se_agent_id e) (n + 1) (db_counters db), n + 1));
                    persisted = e\<lparr>se_sequence_number := xs_next_session_sequence x, se_agent_sequence := next_agent_seq\<rparr>
                in (Inr persisted,
                    db\<lparr>db_sessions := dset (se_session_id e) row (db_sessions db), db_counters := counters,
                       db_events := insert_row eid persisted (db_events db)\<rparr>)))) db)"

definition sql_list_eligible_events :: "horizon_query \<Rightarrow> (database, session_event list) eff" where
  "sql_list_eligible_events q = wrap_errors [SessionRepositoryError] SessionRepositoryError (transactional_session (\<lambda>db.
     (let rows = filter (\<lambda>e. se_agent_id e = hq_agent_id q \<and> se_agent_sequence e > hq_baseline_agent_sequence q
            \<and> se_timestamp e \<ge> hq_evaluation_time q - hq_window q \<and> se_timestamp e \<le> hq_evaluation_time q) (dvals (db_events db))
      in (Inr (if hq_scope q = SCOPE_SESSION
               then sort_key se_sequence_number (filter (\<lambda>e. Some (se_session_id e) = hq_session_id q) rows)
               else sort_key se_agent_sequence rows), db))))"

definition sql_list_events :: "string \<Rightarrow> (database, session_event list) eff" where
  "sql_list_events sid = transactional_session (\<lambda>db.
     (Inr (sort_key (\<lambda>e. (se_timestamp e, se_sequence_number e)) (filter (\<lambda>e. se_session_id e = sid) (dvals (db_events db)))), db))"

definition sql_prune_events :: "instant \<Rightarrow> (database, nat) eff" where
  "sql_prune_events cutoff = transactional_session (\<lambda>db.
     (Inr (length (filter (\<lambda>(_, e). se_timestamp e < cutoff) (db_events db))),
      db\<lparr>db_events := filter (\<lambda>(_, e). \<not> se_timestamp e < cutoff) (db_events db)\<rparr>))"

definition sql_current_agent_sequence :: "string \<Rightarrow> (database, nat) eff" where
  "sql_current_agent_sequence aid = transactional_session (\<lambda>db. (Inr (get_or (db_counters db) aid 0), db))"

definition sql_update_event_final_decision :: "string \<Rightarrow> nat \<Rightarrow> decision \<Rightarrow> (database, unit) eff" where
  "sql_update_event_final_decision sid n d = transactional_session (\<lambda>db.
     (case dget (db_sessions db) sid of
        None \<Rightarrow> (Inl SessionNotFoundError, db)
      | Some x \<Rightarrow>
          if xs_status x = ROW_TERMINAL then (Inl SessionTerminalError, db)
          else
            (case find (\<lambda>(_, e). se_session_id e = sid \<and> se_sequence_number e = n) (db_events db) of
               None \<Rightarrow> (Inl ValueError, db)
             | Some (eid, e) \<Rightarrow>
                 (case se_final_decision e of
                    Some c \<Rightarrow> if c \<noteq> d then (Inl ValueError, db) else (Inr (), db)
                  | None \<Rightarrow> (Inr (), db\<lparr>db_events := dset eid (e\<lparr>se_final_decision := Some d\<rparr>) (db_events db)\<rparr>)))))"

subsection \<open>Calls\<close>

datatype session_call =
    GetSession string | CreateSession session | BindOrCreateSession string string instant | GetTombstone string
  | TerminalizeSession string tombstone | RecordEvent session_event | ListEligibleEvents horizon_query | ListEvents string
  | PruneEvents instant | CurrentAgentSequence string | UpdateEventFinalDecision string nat decision

datatype session_answer =
    ASession session | AMaybeSession "session option" | AMaybeTombstone "tombstone option" | AFlag bool | AEvent session_event
  | AEvents "session_event list" | ANumber nat | ADone

fun memory_session_call :: "instant \<times> string \<times> session_call \<Rightarrow> session_repo \<Rightarrow> session_answer res \<times> session_repo" where
  "memory_session_call (_, _, GetSession sid) r = (Inr (AMaybeSession (dget (sr_sessions r) sid)), r)"
| "memory_session_call (_, _, CreateSession s) r = answer ASession (repo_create_session s r)"
| "memory_session_call (_, _, BindOrCreateSession sid aid now) r = answer ASession (bind_or_create_session sid aid now r)"
| "memory_session_call (_, _, GetTombstone sid) r = (Inr (AMaybeTombstone (dget (sr_tombstones r) sid)), r)"
| "memory_session_call (_, _, TerminalizeSession sid t) r =
     (let (b, r') = terminalize_session sid t r in (Inr (AFlag b), r'))"
| "memory_session_call (_, _, RecordEvent e) r = answer AEvent (repo_record_event e r)"
| "memory_session_call (_, _, ListEligibleEvents q) r = (Inr (AEvents (list_eligible_events q r)), r)"
| "memory_session_call (_, _, ListEvents sid) r = (Inr (AEvents (list_events sid r)), r)"
| "memory_session_call (_, _, PruneEvents cutoff) r = (let (n, r') = repo_prune_events cutoff r in (Inr (ANumber n), r'))"
| "memory_session_call (_, _, CurrentAgentSequence aid) r = (Inr (ANumber (current_agent_sequence r aid)), r)"
| "memory_session_call (_, _, UpdateEventFinalDecision sid n d) r = answer (\<lambda>_. ADone) (update_event_final_decision sid n d r)"

fun sql_session_call :: "instant \<times> string \<times> session_call \<Rightarrow> database \<Rightarrow> session_answer res \<times> database" where
  "sql_session_call (_, _, GetSession sid) db = answer AMaybeSession (sql_get_session sid db)"
| "sql_session_call (wall, _, CreateSession s) db = answer ASession (sql_create_session wall s db)"
| "sql_session_call (wall, _, BindOrCreateSession sid aid now) db = answer ASession (sql_bind_or_create_session wall sid aid now db)"
| "sql_session_call (_, _, GetTombstone sid) db = answer AMaybeTombstone (sql_get_tombstone sid db)"
| "sql_session_call (wall, _, TerminalizeSession sid t) db = answer AFlag (sql_terminalize_session wall sid t db)"
| "sql_session_call (wall, eid, RecordEvent e) db = answer AEvent (sql_record_event wall eid e db)"
| "sql_session_call (_, _, ListEligibleEvents q) db = answer AEvents (sql_list_eligible_events q db)"
| "sql_session_call (_, _, ListEvents sid) db = answer AEvents (sql_list_events sid db)"
| "sql_session_call (_, _, PruneEvents cutoff) db = answer ANumber (sql_prune_events cutoff db)"
| "sql_session_call (_, _, CurrentAgentSequence aid) db = answer ANumber (sql_current_agent_sequence aid db)"
| "sql_session_call (_, _, UpdateEventFinalDecision sid n d) db =
     answer (\<lambda>_. ADone) (sql_update_event_final_decision sid n d db)"

text \<open>
  What the durable store needs of a call: a new session belongs to a registered agent, a tombstone describes the session it
  ends, an event leaves its positions to the repository and its generated identifier is new.
\<close>

fun session_call_fits :: "instant \<times> string \<times> session_call \<Rightarrow> database \<Rightarrow> bool" where
  "session_call_fits (_, _, CreateSession s) db = has_key (db_agents db) (ss_agent_id s)"
| "session_call_fits (_, _, BindOrCreateSession sid aid now) db = has_key (db_agents db) aid"
| "session_call_fits (_, _, TerminalizeSession sid t) db =
     (tb_session_id t = sid \<and>
      (case dget (db_sessions db) sid of None \<Rightarrow> True | Some x \<Rightarrow> xs_agent_id x = tb_agent_id t))"
| "session_call_fits (_, eid, RecordEvent e) db =
     (se_sequence_number e = 0 \<and> se_agent_sequence e = 0 \<and> \<not> has_key (db_events db) eid)"
| "session_call_fits _ db = True"

subsection \<open>The tables represent the repository\<close>

definition row_position :: "database \<Rightarrow> string \<Rightarrow> nat" where
  "row_position db sid = (case dget (db_sessions db) sid of None \<Rightarrow> 0 | Some x \<Rightarrow> xs_next_session_sequence x - 1)"

definition sessions_related :: "database \<Rightarrow> session_repo \<Rightarrow> bool" where
  "sessions_related db r \<longleftrightarrow>
     schema_ok db \<and> db_fault db = None \<and> sessions_wf r \<and> events_wf r
     \<and> (\<forall>sid. dget (sr_sessions r) sid = active_session db sid)
     \<and> (\<forall>sid. dget (sr_tombstones r) sid = tombstone_of db sid)
     \<and> (\<forall>sid. current_session_sequence r sid = row_position db sid)
     \<and> (\<forall>aid. current_agent_sequence r aid = get_or (db_counters db) aid 0)
     \<and> sr_events r = dvals (db_events db)"

lemma terminalize_wf:
  assumes "sessions_wf r" and "events_wf r" and "\<And>s. dget (sr_sessions r) sid = Some s \<Longrightarrow> tb_agent_id t = ss_agent_id s"
  shows "sessions_wf (snd (terminalize_session sid t r)) \<and> events_wf (snd (terminalize_session sid t r))"
  using terminalize_step [OF assms(1,3)]
    events_wf_shrink [OF assms(2), of "snd (terminalize_session sid t r)" "\<lambda>_. True"]
  by (simp add: current_session_sequence_def current_agent_sequence_def)

lemma memory_call_wf:
  assumes wf: "sessions_wf r" "events_wf r"
    and t: "\<And>sid t s. c = TerminalizeSession sid t \<Longrightarrow> dget (sr_sessions r) sid = Some s \<Longrightarrow> tb_agent_id t = ss_agent_id s"
  shows "sessions_wf (snd (memory_session_call (w, eid, c) r)) \<and> events_wf (snd (memory_session_call (w, eid, c) r))"
proof -
  let ?now = "Some \<lparr>rp_window = 0, rp_grace = 0\<rparr>"
  have step: "sessions_wf (snd (session_exec p x r)) \<and> events_wf (snd (session_exec p x r))" for p x
    using session_exec_step [OF wf(1)] events_wf_exec [OF wf] by blast
  show ?thesis
  proof (cases c)
    case (TerminalizeSession sid u)
    with terminalize_wf [OF wf t, OF TerminalizeSession] show ?thesis by (simp add: case_prod_unfold Let_def)
  next
    case (RecordEvent e)
    have "snd (session_exec None (OpRecord e) r) = snd (repo_record_event e r)"
      by (auto simp: record_event_def prune_events_def split: prod.splits sum.splits)
    with step [of None "OpRecord e"] RecordEvent show ?thesis by (simp add: answer_def)
  next
    case (PruneEvents cutoff)
    have "snd (session_exec ?now (OpPrune cutoff) r) = snd (repo_prune_events cutoff r)"
      by (simp add: prune_events_def total_retention_def)
    with step [of ?now "OpPrune cutoff"] PruneEvents show ?thesis by (simp add: case_prod_unfold Let_def)
  next
    case (CreateSession s)
    with step [of None "OpCreateSession s"] show ?thesis by (simp add: answer_def)
  next
    case (BindOrCreateSession sid aid now)
    with step [of None "OpBind sid aid now"] show ?thesis by (simp add: answer_def)
  next
    case (UpdateEventFinalDecision sid n d)
    with step [of None "OpFinalize sid n d"] show ?thesis by (simp add: answer_def)
  qed (use wf in simp_all)
qed

subsection \<open>Constraints after a write\<close>

lemma schema_session_row:
  assumes "schema_ok db" and "has_key (db_agents db) (xs_agent_id x)" and "0 < xs_next_session_sequence x"
  shows "schema_ok (db\<lparr>db_sessions := dset sid x (db_sessions db)\<rparr>)"
  using assms
  by (auto simp: schema_defs
      intro!: vals_dset elim: list.pred_mono_strong)

lemma schema_counter:
  "schema_ok db \<Longrightarrow> has_key (db_agents db) aid \<Longrightarrow> schema_ok (db\<lparr>db_counters := dset aid n (db_counters db)\<rparr>)"
  by (auto simp: schema_defs
      intro!: keys_dset)

lemma positions_distinct:
  "sorted_wrt ev_before es \<Longrightarrow> distinct (map (\<lambda>e. (se_session_id e, se_sequence_number e)) es)
     \<and> distinct (map (\<lambda>e. (se_agent_id e, se_agent_sequence e)) es)"
  by (induction es) (auto simp: ev_before_def)

lemma schema_events:
  assumes "schema_ok db" and "distinct (dkeys es)" and "sorted_wrt ev_before (dvals es)"
    and "\<And>e. e \<in> set (dvals es) \<Longrightarrow> has_key (db_sessions db) (se_session_id e) \<and> has_key (db_agents db) (se_agent_id e)
        \<and> 0 < se_sequence_number e \<and> 0 < se_agent_sequence e"
  shows "schema_ok (db\<lparr>db_events := es\<rparr>)"
  using assms(1,2,4) positions_distinct [OF assms(3)]
  by (simp add: schema_defs list_all_iff)

lemma schema_event_rows:
  assumes "schema_ok db" and "e \<in> set (dvals (db_events db))"
  shows "has_key (db_sessions db) (se_session_id e) \<and> has_key (db_agents db) (se_agent_id e)
     \<and> 0 < se_sequence_number e \<and> 0 < se_agent_sequence e"
  using assms by (auto simp: schema_ok_def session_tables_ok_def list_all_iff)

lemma schema_session_rows:
  assumes "schema_ok db" and "dget (db_sessions db) sid = Some x"
  shows "has_key (db_agents db) (xs_agent_id x) \<and> 0 < xs_next_session_sequence x"
proof -
  have "x \<in> set (dvals (db_sessions db))" using map_of_SomeD [OF assms(2)] by force
  with assms(1) show ?thesis by (auto simp: schema_ok_def session_tables_ok_def list_all_iff)
qed

subsection \<open>Call by call\<close>

text \<open>The two stores give the same answer, and are related afterwards.\<close>

definition simulates :: "'a res \<times> database \<Rightarrow> 'a res \<times> session_repo \<Rightarrow> bool" where
  "simulates p q \<longleftrightarrow> fst p = fst q \<and> sessions_related (snd p) (snd q)"

lemma simulates_answer: "simulates p q \<Longrightarrow> simulates (answer f p) (answer f q)"
  by (simp add: simulates_def answer_def)

lemma simulates_read:
  "sessions_related db r \<Longrightarrow> body db = (Inr x, db) \<Longrightarrow> simulates (transactional_session body db) (Inr x, r)"
  by (simp add: simulates_def transactional_session_def sessions_related_def)

lemma simulates_refused:
  "sessions_related db r \<Longrightarrow> body db = (Inl e, db) \<Longrightarrow> simulates (transactional_session body db) (Inl e, r)"
  by (simp add: simulates_def transactional_session_def sessions_related_def)

lemma simulates_commit:
  "sessions_related db r \<Longrightarrow> body db = (Inr x, db') \<Longrightarrow> sessions_related db' r' \<Longrightarrow>
     simulates (transactional_session body db) (Inr x, r')"
  by (simp add: simulates_def transactional_session_def sessions_related_def)

lemma related_row:
  assumes rel: "sessions_related db r" and x: "has_key (db_agents db) (xs_agent_id x)" "0 < xs_next_session_sequence x"
    and wf: "sessions_wf r'" "events_wf r'"
    and r': "\<And>k. dget (sr_sessions r') k =
          (if k = sid then (if xs_status x = ROW_ACTIVE then Some (session_of sid x) else None) else dget (sr_sessions r) k)"
      "\<And>k. dget (sr_tombstones r') k =
          (if k = sid then tombstone_of (db\<lparr>db_sessions := dset sid x (db_sessions db)\<rparr>) sid else dget (sr_tombstones r) k)"
      "sr_events r' = sr_events r" "\<And>k. current_agent_sequence r' k = current_agent_sequence r k"
      "\<And>k. current_session_sequence r' k = (if k = sid then xs_next_session_sequence x - 1 else current_session_sequence r k)"
  shows "sessions_related (db\<lparr>db_sessions := dset sid x (db_sessions db)\<rparr>) r'"
  using rel wf r' schema_session_row [of db x sid] x
  by (auto simp: sessions_related_def active_session_def row_position_def) (simp_all add: tombstone_of_def)

lemma create_simulated:
  assumes rel: "sessions_related db r" and fits: "has_key (db_agents db) (ss_agent_id s)"
  shows "simulates (sql_create_session wall s db) (repo_create_session s r)"
proof (cases "dget (db_sessions db) (ss_session_id s)")
  case None
  let ?x = "new_session_row wall s" and ?sid = "ss_session_id s"
  let ?r' = "r\<lparr>sr_sessions := dset ?sid s (sr_sessions r)\<rparr>"
  have free: "dget (sr_tombstones r) ?sid = None" "dget (sr_sessions r) ?sid = None" "current_session_sequence r ?sid = 0"
    using rel None by (simp_all add: sessions_related_def active_session_def tombstone_of_def row_position_def)
  have mem: "repo_create_session s r = (Inr s, ?r')" using free by (simp add: repo_create_session_def)
  have wf: "sessions_wf ?r' \<and> events_wf ?r'"
    using memory_call_wf [of r "CreateSession s" 0 "[]"] rel mem by (simp add: sessions_related_def answer_def)
  have "sessions_related (db\<lparr>db_sessions := dset ?sid ?x (db_sessions db)\<rparr>) ?r'"
    using fits wf free
    by (intro related_row [OF rel])
      (auto simp: new_session_row_def session_of_def tombstone_of_def current_session_sequence_def current_agent_sequence_def)
  moreover have "insert_row ?sid ?x (db_sessions db) = dset ?sid ?x (db_sessions db)"
    using None by (intro insert_fresh) (simp add: has_key_def)
  ultimately show ?thesis
    unfolding sql_create_session_def mem using None by (intro simulates_commit [OF rel]) simp_all
next
  case (Some x)
  then have "repo_create_session s r = (Inl (if xs_status x = ROW_TERMINAL then SessionTerminalError else SessionAlreadyExistsError), r)"
    using rel by (cases "xs_status x") (simp_all add: sessions_related_def active_session_def tombstone_of_def repo_create_session_def)
  then show ?thesis unfolding sql_create_session_def using Some by (simp add: simulates_refused [OF rel])
qed

lemma row_lookup:
  assumes "sessions_related db r" and "dget (db_sessions db) sid = Some x"
  shows "dget (sr_sessions r) sid = (if xs_status x = ROW_ACTIVE then Some (session_of sid x) else None)"
    and "dget (sr_tombstones r) sid = None \<longleftrightarrow> xs_status x = ROW_ACTIVE"
    and "current_session_sequence r sid = xs_next_session_sequence x - 1"
    and "has_key (db_agents db) (xs_agent_id x)" and "0 < xs_next_session_sequence x"
  using assms schema_session_rows [of db sid x]
  by (cases "xs_status x"; simp add: sessions_related_def active_session_def tombstone_of_def row_position_def)+

lemma row_absent:
  assumes "sessions_related db r" and "dget (db_sessions db) sid = None"
  shows "dget (sr_sessions r) sid = None" and "dget (sr_tombstones r) sid = None" and "current_session_sequence r sid = 0"
  using assms by (simp_all add: sessions_related_def active_session_def tombstone_of_def row_position_def)

lemma bind_simulated:
  assumes rel: "sessions_related db r" and fits: "has_key (db_agents db) aid"
  shows "simulates (sql_bind_or_create_session wall sid aid now db) (bind_or_create_session sid aid now r)"
proof (cases "dget (db_sessions db) sid")
  case None
  let ?s = "\<lparr>ss_session_id = sid, ss_agent_id = aid, ss_started_at = now, ss_last_activity_at = now\<rparr>"
  have "bind_or_create_session sid aid now r = repo_create_session ?s r"
    using row_absent [OF rel None] by (simp add: bind_or_create_session_def repo_create_session_def Let_def)
  moreover have "sql_bind_or_create_session wall sid aid now db = sql_create_session wall ?s db"
    using None rel by (simp add: sql_bind_or_create_session_def sql_create_session_def transactional_session_def Let_def sessions_related_def)
  ultimately show ?thesis using create_simulated [OF rel, of ?s wall] fits by simp
next
  case (Some x)
  note row = row_lookup [OF rel Some]
  show ?thesis
  proof (cases "xs_status x = ROW_ACTIVE \<and> xs_agent_id x = aid")
    case True
    let ?x = "x\<lparr>xs_last_activity_at := Some now, xs_updated_at := wall\<rparr>"
    let ?s = "(session_of sid x)\<lparr>ss_last_activity_at := now\<rparr>"
    let ?r' = "r\<lparr>sr_sessions := dset sid ?s (sr_sessions r)\<rparr>"
    have mem: "bind_or_create_session sid aid now r = (Inr ?s, ?r')"
      using row True by (simp add: bind_or_create_session_def session_of_def Let_def)
    have wf: "sessions_wf ?r' \<and> events_wf ?r'"
      using memory_call_wf [of r "BindOrCreateSession sid aid now" 0 "[]"] rel mem by (simp add: sessions_related_def answer_def)
    have "sessions_related (db\<lparr>db_sessions := dset sid ?x (db_sessions db)\<rparr>) ?r'"
      using row wf True
      by (intro related_row [OF rel])
        (auto simp: session_of_def tombstone_of_def current_session_sequence_def current_agent_sequence_def)
    then show ?thesis
      unfolding sql_bind_or_create_session_def mem using Some True
      by (intro simulates_commit [OF rel]) (simp_all add: session_of_def)
  next
    case False
    then have "bind_or_create_session sid aid now r =
        (Inl (if xs_status x = ROW_TERMINAL then SessionTerminalError else SessionBindingError), r)"
      using row by (cases "xs_status x") (auto simp: bind_or_create_session_def session_of_def)
    with Some False show ?thesis
      unfolding sql_bind_or_create_session_def by (cases "xs_status x") (simp_all add: simulates_refused [OF rel])
  qed
qed

lemma terminalize_simulated:
  assumes rel: "sessions_related db r" and fits: "session_call_fits (wall, eid, TerminalizeSession sid t) db"
  shows "simulates (sql_terminalize_session wall sid t db) (let (b, r') = terminalize_session sid t r in (Inr b, r'))"
proof (cases "dget (db_sessions db) sid")
  case None
  then show ?thesis
    using row_absent [OF rel None] unfolding sql_terminalize_session_def
    by (simp add: terminalize_session_def simulates_read [OF rel])
next
  case (Some x)
  note row = row_lookup [OF rel Some]
  have t: "tb_session_id t = sid" "xs_agent_id x = tb_agent_id t" using fits Some by simp_all
  show ?thesis
  proof (cases "xs_status x")
    case ROW_TERMINAL
    with Some row show ?thesis
      unfolding sql_terminalize_session_def by (simp add: terminalize_session_def simulates_read [OF rel])
  next
    case ROW_ACTIVE
    let ?x = "x\<lparr>xs_status := ROW_TERMINAL, xs_ended_at := Some (tb_terminated_at t),
        xs_ended_reason := Some (reason_text (tb_terminal_reason t)), xs_updated_at := wall\<rparr>"
    let ?r' = "r\<lparr>sr_sessions := ddel sid (sr_sessions r), sr_tombstones := dset sid t (sr_tombstones r)\<rparr>"
    have mem: "terminalize_session sid t r = (True, ?r')"
      using row ROW_ACTIVE by (simp add: terminalize_session_def)
    have wf: "sessions_wf ?r' \<and> events_wf ?r'"
      using terminalize_wf [of r sid t] rel mem row t ROW_ACTIVE by (simp add: sessions_related_def session_of_def)
    have reason: "reason_of (Some (reason_text x)) = x" for x by (cases x) (simp_all add: reason_of_def)
    have "tombstone_of (db\<lparr>db_sessions := dset sid ?x (db_sessions db)\<rparr>) sid = Some t"
      using t by (simp add: tombstone_of_def reason)
    then have "sessions_related (db\<lparr>db_sessions := dset sid ?x (db_sessions db)\<rparr>) ?r'"
      using row wf by (intro related_row [OF rel]) (auto simp: current_session_sequence_def current_agent_sequence_def)
    then show ?thesis
      unfolding sql_terminalize_session_def mem using Some ROW_ACTIVE by (simp add: simulates_commit [OF rel])
  qed
qed

lemma related_event:
  assumes rel: "sessions_related db r" and x: "dget (db_sessions db) (se_session_id p) = Some x" "xs_status x = ROW_ACTIVE"
      "xs_agent_id x = se_agent_id p"
    and y: "xs_status y = ROW_ACTIVE" "xs_agent_id y = xs_agent_id x" "xs_next_session_sequence y = Suc (se_sequence_number p)"
    and p: "se_sequence_number p = xs_next_session_sequence x" "0 < se_agent_sequence p" and eid: "\<not> has_key (db_events db) eid"
    and wf: "sessions_wf r'" "events_wf r'"
    and r': "\<And>k. dget (sr_sessions r') k = (if k = se_session_id p then Some (session_of k y) else dget (sr_sessions r) k)"
      "sr_tombstones r' = sr_tombstones r" "sr_events r' = sr_events r @ [p]"
      "\<And>k. current_agent_sequence r' k = (if k = se_agent_id p then se_agent_sequence p else current_agent_sequence r k)"
      "\<And>k. current_session_sequence r' k = (if k = se_session_id p then se_sequence_number p else current_session_sequence r k)"
  shows "sessions_related (db\<lparr>db_sessions := dset (se_session_id p) y (db_sessions db),
      db_counters := dset (se_agent_id p) (se_agent_sequence p) (db_counters db),
      db_events := dset eid p (db_events db)\<rparr>) r'" (is "sessions_related ?db' r'")
proof -
  note row = row_lookup [OF rel x(1)]
  have db: "schema_ok db" "sr_events r = dvals (db_events db)" using rel by (simp_all add: sessions_related_def)
  then have events: "dvals (dset eid p (db_events db)) = sr_events r'" using eid r' by (simp add: vals_insert)
  have "schema_ok (db\<lparr>db_sessions := dset (se_session_id p) y (db_sessions db)\<rparr>)"
    using row y by (intro schema_session_row [OF db(1)]) simp_all
  then have two: "schema_ok (db\<lparr>db_sessions := dset (se_session_id p) y (db_sessions db),
      db_counters := dset (se_agent_id p) (se_agent_sequence p) (db_counters db)\<rparr>)"
    using schema_counter [of "db\<lparr>db_sessions := dset (se_session_id p) y (db_sessions db)\<rparr>" "se_agent_id p"] row x by simp
  have keys: "distinct (dkeys (dset eid p (db_events db)))" using db(1) by (auto simp: schema_ok_def primary_keys_def)
  have order: "sorted_wrt ev_before (dvals (dset eid p (db_events db)))" using wf(2) by (simp only: events events_wf_def)
  have "schema_ok ?db'"
  proof (rule schema_events [OF two keys order, simplified])
    fix e assume "e \<in> snd ` set (dset eid p (db_events db))"
    then have "e = p \<or> e \<in> set (dvals (db_events db))" using events db(2) r'(3) by (metis UnE list.set_map set_append set_ConsD empty_iff set_empty2)
    then show "(se_session_id e = se_session_id p \<or> has_key (db_sessions db) (se_session_id e)) \<and> has_key (db_agents db) (se_agent_id e)
        \<and> 0 < se_sequence_number e \<and> 0 < se_agent_sequence e"
      using schema_event_rows [OF db(1)] row x p by auto
  qed
  with rel wf r' events x y show ?thesis
    by (auto simp: sessions_related_def active_session_def tombstone_of_def row_position_def)
qed

lemma record_simulated:
  assumes rel: "sessions_related db r" and fits: "session_call_fits (wall, eid, RecordEvent e) db"
  shows "simulates (sql_record_event wall eid e db) (repo_record_event e r)"
proof -
  have e: "se_sequence_number e = 0" "se_agent_sequence e = 0" "\<not> has_key (db_events db) eid" using fits by simp_all
  show ?thesis
  proof (cases "dget (db_sessions db) (se_session_id e)")
    case None
    with row_absent [OF rel None] e show ?thesis
      unfolding sql_record_event_def by (simp add: repo_record_event_def simulates_refused [OF rel])
  next
    case (Some x)
    note row = row_lookup [OF rel Some]
    show ?thesis
    proof (cases "xs_status x = ROW_ACTIVE \<and> xs_agent_id x = se_agent_id e")
      case False
      then have "repo_record_event e r =
          (Inl (if xs_status x = ROW_TERMINAL then SessionTerminalError else SessionBindingError), r)"
        using row by (cases "xs_status x") (auto simp: repo_record_event_def session_of_def)
      with Some False e show ?thesis
        unfolding sql_record_event_def by (cases "xs_status x") (simp_all add: simulates_refused [OF rel])
    next
      case True
      let ?n = "Suc (get_or (db_counters db) (se_agent_id e) 0)"
      let ?p = "e\<lparr>se_sequence_number := xs_next_session_sequence x, se_agent_sequence := ?n\<rparr>"
      let ?y = "x\<lparr>xs_next_session_sequence := Suc (xs_next_session_sequence x), xs_last_activity_at := Some (se_timestamp e), xs_updated_at := wall\<rparr>"
      let ?r' = "r\<lparr>sr_session_sequences := dset (se_session_id e) (xs_next_session_sequence x) (sr_session_sequences r),
          sr_agent_sequences := dset (se_agent_id e) ?n (sr_agent_sequences r),
          sr_sessions := dset (se_session_id e) ((session_of (se_session_id e) x)\<lparr>ss_last_activity_at := se_timestamp e\<rparr>) (sr_sessions r),
          sr_events := sr_events r @ [?p]\<rparr>"
      let ?db' = "db\<lparr>db_sessions := dset (se_session_id e) ?y (db_sessions db),
          db_counters := dset (se_agent_id e) ?n (db_counters db), db_events := dset eid ?p (db_events db)\<rparr>"
      have pos: "get_or (sr_session_sequences r) (se_session_id e) 0 + 1 = xs_next_session_sequence x"
        "get_or (sr_agent_sequences r) (se_agent_id e) 0 + 1 = ?n"
        using row(3,5) rel by (simp_all add: current_session_sequence_def current_agent_sequence_def sessions_related_def)
      have mem: "repo_record_event e r = (Inr ?p, ?r')"
        using row True e pos by (simp add: repo_record_event_def session_of_def Let_def)
      have wf: "sessions_wf ?r' \<and> events_wf ?r'"
        using memory_call_wf [of r "RecordEvent e" 0 "[]"] rel mem by (simp add: sessions_related_def answer_def)
      have "sessions_related ?db' ?r'"
        using related_event [OF rel, of ?p x ?y eid ?r'] Some True wf e
        by (simp add: session_of_def current_session_sequence_def current_agent_sequence_def)
      moreover have "(case dget (db_counters db) (se_agent_id e) of None \<Rightarrow> (insert_row (se_agent_id e) 1 (db_counters db), 1)
          | Some n \<Rightarrow> (dset (se_agent_id e) (n + 1) (db_counters db), n + 1)) = (dset (se_agent_id e) ?n (db_counters db), ?n)"
        by (cases "dget (db_counters db) (se_agent_id e)") (simp_all add: get_or_def insert_fresh has_key_def)
      ultimately show ?thesis
        unfolding sql_record_event_def mem using Some True e
        by (simp, intro simulates_commit [OF rel, where db' = ?db']) (simp_all add: Let_def insert_fresh)
    qed
  qed
qed

lemma related_events:
  assumes rel: "sessions_related db r" and wf: "events_wf (r\<lparr>sr_events := dvals es\<rparr>)" and keys: "distinct (dkeys es)"
    and rows: "\<And>e. e \<in> set (dvals es) \<Longrightarrow> \<exists>f\<in>set (dvals (db_events db)). unfinal e = unfinal f"
  shows "sessions_related (db\<lparr>db_events := es\<rparr>) (r\<lparr>sr_events := dvals es\<rparr>)"
proof -
  have "schema_ok (db\<lparr>db_events := es\<rparr>)"
  proof (rule schema_events [OF _ keys])
    show "schema_ok db" using rel by (simp add: sessions_related_def)
    show "sorted_wrt ev_before (dvals es)" using wf by (simp add: events_wf_def)
    fix e assume "e \<in> set (dvals es)"
    with rows obtain f where f: "f \<in> set (dvals (db_events db))" "unfinal e = unfinal f" by blast
    have "se_session_id e = se_session_id f" "se_agent_id e = se_agent_id f" "se_sequence_number e = se_sequence_number f"
      "se_agent_sequence e = se_agent_sequence f" using f(2) by (metis unfinal_fields)+
    with schema_event_rows [OF \<open>schema_ok db\<close> f(1)]
    show "has_key (db_sessions db) (se_session_id e) \<and> has_key (db_agents db) (se_agent_id e)
        \<and> 0 < se_sequence_number e \<and> 0 < se_agent_sequence e" by simp
  qed
  moreover have "sessions_wf (r\<lparr>sr_events := dvals es\<rparr>)" using rel by (auto simp: sessions_related_def intro: wf_same [of _ r])
  ultimately show ?thesis
    using rel wf
    by (simp add: sessions_related_def active_session_def tombstone_of_def row_position_def current_session_sequence_def current_agent_sequence_def)
qed

lemma prune_simulated:
  assumes rel: "sessions_related db r"
  shows "simulates (sql_prune_events cutoff db) (let (n, r') = repo_prune_events cutoff r in (Inr n, r'))"
proof -
  let ?es = "filter (\<lambda>(_, e). \<not> se_timestamp e < cutoff) (db_events db)"
  have ev: "sr_events r = dvals (db_events db)" "distinct (dkeys (db_events db))"
    using rel by (simp_all add: sessions_related_def schema_ok_def primary_keys_def)
  have vals: "dvals ?es = filter (\<lambda>e. se_timestamp e \<ge> cutoff) (sr_events r)"
    unfolding ev filter_map by (rule arg_cong [of _ _ "map snd"], rule filter_cong) auto
  have n: "length (filter (\<lambda>(_, e). se_timestamp e < cutoff) (db_events db)) = length (sr_events r) - length (dvals ?es)"
    using sum_length_filter_compl [of "\<lambda>(_, e). se_timestamp e < cutoff" "db_events db"]
    by (simp add: ev case_prod_unfold)
  have mem: "repo_prune_events cutoff r = (length (sr_events r) - length (dvals ?es), r\<lparr>sr_events := dvals ?es\<rparr>)"
    by (simp only: repo_prune_events_def Let_def vals)
  have "events_wf (r\<lparr>sr_events := dvals ?es\<rparr>)"
    using memory_call_wf [of r "PruneEvents cutoff" 0 "[]"] rel mem by (simp add: sessions_related_def)
  then have "sessions_related (db\<lparr>db_events := ?es\<rparr>) (r\<lparr>sr_events := dvals ?es\<rparr>)"
    using ev(2) by (intro related_events [OF rel]) (auto intro: distinct_dfilter)
  then show ?thesis
    unfolding sql_prune_events_def mem by (simp add: simulates_commit [OF rel] n)
qed

lemma finalize_row:
  assumes "distinct (dkeys t)"
  shows "finalize_first sid n d (dvals t) =
    (case find (\<lambda>(_, e). se_session_id e = sid \<and> se_sequence_number e = n) t of
       None \<Rightarrow> Inl ValueError
     | Some (eid, e) \<Rightarrow>
         if se_final_decision e \<noteq> None \<and> se_final_decision e \<noteq> Some d then Inl ValueError
         else Inr (dvals (dset eid (e\<lparr>se_final_decision := Some d\<rparr>) t)))"
  using assms
proof (induction t)
  case (Cons row t)
  obtain k e where row: "row = (k, e)" by fastforce
  show ?case
  proof (cases "find (\<lambda>(_, e). se_session_id e = sid \<and> se_sequence_number e = n) t")
    case None
    then show ?thesis using Cons by (auto simp: row)
  next
    case (Some hit)
    obtain eid f where hit: "hit = (eid, f)" by fastforce
    have "(eid, f) \<in> set t" using Some by (auto simp: hit find_Some_iff in_set_conv_nth)
    then have "eid \<noteq> k" using Cons.prems by (force simp: row)
    then show ?thesis using Cons Some by (auto simp: row hit)
  qed
qed simp

lemma found_row:
  assumes "find P t = Some (eid, e)" and "distinct (dkeys t)"
  shows "dget t eid = Some e"
  using assms by (auto simp: find_Some_iff map_of_eq_Some_iff in_set_conv_nth)

lemma dset_same: "dget t k = Some v \<Longrightarrow> dset k v t = t"
  by (induction t) (auto split: if_splits)

lemma finalize_simulated:
  assumes rel: "sessions_related db r"
  shows "simulates (sql_update_event_final_decision sid n d db) (update_event_final_decision sid n d r)"
proof (cases "dget (db_sessions db) sid")
  case None
  with row_absent [OF rel None] show ?thesis
    unfolding sql_update_event_final_decision_def by (simp add: update_event_final_decision_def simulates_refused [OF rel])
next
  case (Some x)
  note row = row_lookup [OF rel Some]
  have ev: "sr_events r = dvals (db_events db)" "distinct (dkeys (db_events db))"
    using rel by (simp_all add: sessions_related_def schema_ok_def primary_keys_def)
  let ?find = "find (\<lambda>(_, e). se_session_id e = sid \<and> se_sequence_number e = n) (db_events db)"
  note final = finalize_row [OF ev(2), of sid n d, folded ev(1)]
  show ?thesis
  proof (cases "xs_status x")
    case ROW_TERMINAL
    with row Some show ?thesis
      unfolding sql_update_event_final_decision_def by (simp add: update_event_final_decision_def simulates_refused [OF rel])
  next
    case ROW_ACTIVE
    show ?thesis
    proof (cases ?find)
      case None
      with row Some ROW_ACTIVE final show ?thesis
        unfolding sql_update_event_final_decision_def by (simp add: update_event_final_decision_def simulates_refused [OF rel])
    next
      case (Some hit)
      obtain eid e where hit: "hit = (eid, e)" by fastforce
      have e: "dget (db_events db) eid = Some e" using found_row [OF _ ev(2)] Some hit by blast
      let ?es = "dset eid (e\<lparr>se_final_decision := Some d\<rparr>) (db_events db)"
      show ?thesis
      proof (cases "se_final_decision e \<noteq> None \<and> se_final_decision e \<noteq> Some d")
        case True
        then show ?thesis
          using row Some hit ROW_ACTIVE final \<open>dget (db_sessions db) sid = Some x\<close>
          unfolding sql_update_event_final_decision_def
          by (cases "se_final_decision e") (simp_all add: update_event_final_decision_def simulates_refused [OF rel])
      next
        case False
        have mem: "update_event_final_decision sid n d r = (Inr (), r\<lparr>sr_events := dvals ?es\<rparr>)"
          using row Some hit ROW_ACTIVE final False by (simp add: update_event_final_decision_def)
        have "events_wf (r\<lparr>sr_events := dvals ?es\<rparr>)"
          using memory_call_wf [of r "UpdateEventFinalDecision sid n d" 0 "[]"] rel mem
          by (simp add: sessions_related_def answer_def)
        moreover have "\<exists>f\<in>set (dvals (db_events db)). unfinal g = unfinal f" if "g \<in> set (dvals ?es)" for g
          using that e map_of_SomeD [OF e] set_dset [of eid "e\<lparr>se_final_decision := Some d\<rparr>" "db_events db"]
          by (force simp: unfinal_def)
        ultimately have related: "sessions_related (db\<lparr>db_events := ?es\<rparr>) (r\<lparr>sr_events := dvals ?es\<rparr>)"
          using ev(2) by (intro related_events [OF rel]) auto
        have same: "db\<lparr>db_events := ?es\<rparr> = db" if "se_final_decision e = Some d"
          using that e by (simp add: dset_same)
        show ?thesis
          unfolding sql_update_event_final_decision_def mem
          using Some hit ROW_ACTIVE False same related \<open>dget (db_sessions db) sid = Some x\<close>
          by (intro simulates_commit [OF rel, where db' = "db\<lparr>db_events := ?es\<rparr>"]) (auto split: option.splits)
      qed
    qed
  qed
qed

lemma eligible_simulated:
  assumes rel: "sessions_related db r"
  shows "simulates (sql_list_eligible_events q db) (Inr (list_eligible_events q r), r)"
proof -
  let ?rows = "filter (\<lambda>e. se_agent_id e = hq_agent_id q \<and> se_agent_sequence e > hq_baseline_agent_sequence q
      \<and> se_timestamp e \<ge> hq_evaluation_time q - hq_window q \<and> se_timestamp e \<le> hq_evaluation_time q) (dvals (db_events db))"
  have ev: "sr_events r = dvals (db_events db)" using rel by (simp add: sessions_related_def)
  have "(if hq_scope q = SCOPE_SESSION then sort_key se_sequence_number (filter (\<lambda>e. Some (se_session_id e) = hq_session_id q) ?rows)
      else sort_key se_agent_sequence ?rows) = list_eligible_events q r"
    by (cases "hq_scope q")
      (auto simp: list_eligible_events_def ev horizon_match_def Let_def intro!: arg_cong [of _ _ "sort_key _"] filter_cong)
  then have "sql_list_eligible_events q db = (Inr (list_eligible_events q r), db)"
    using rel by (simp add: sql_list_eligible_events_def wrap_errors_def transactional_session_def sessions_related_def Let_def)
  with rel show ?thesis by (simp add: simulates_def)
qed

lemma simulates_lookup:
  assumes "sessions_related db r" and "g db = y"
  shows "simulates (answer f (transactional_session (\<lambda>db. (Inr (g db), db)) db)) (Inr (f y), r)"
  using simulates_answer [OF simulates_read [OF assms(1)], of "\<lambda>db. (Inr (g db), db)" y f] assms(2) by (simp add: answer_def)

lemma answer_flag: "(let (b, r') = p in (Inr (f b), r')) = answer f (let (b, r') = p in (Inr b, r'))"
  by (simp add: answer_def case_prod_unfold Let_def)

interpretation durable: simulation sessions_related session_call_fits sql_session_call memory_session_call
proof -
  have step: "simulates (sql_session_call x db) (memory_session_call x r)"
    if "sessions_related db r" "session_call_fits x db" for x db r
  proof -
    obtain wall eid c where x: "x = (wall, eid, c)" by (metis prod.exhaust)
    note rel = that(1)
    show ?thesis
    proof (cases c)
      case (GetSession sid)
      then show ?thesis
        unfolding x by (simp add: sql_get_session_def, intro simulates_lookup [OF rel]) (use rel in \<open>simp add: sessions_related_def\<close>)
    next
      case (GetTombstone sid)
      then show ?thesis
        unfolding x by (simp add: sql_get_tombstone_def, intro simulates_lookup [OF rel]) (use rel in \<open>simp add: sessions_related_def\<close>)
    next
      case (ListEligibleEvents q)
      then show ?thesis using simulates_answer [OF eligible_simulated [OF rel], of AEvents q] by (simp add: x answer_def)
    next
      case (ListEvents sid)
      then show ?thesis
        unfolding x by (simp add: sql_list_events_def, intro simulates_lookup [OF rel]) (use rel in \<open>simp add: sessions_related_def list_events_def\<close>)
    next
      case (CurrentAgentSequence aid)
      then show ?thesis
        unfolding x by (simp add: sql_current_agent_sequence_def, intro simulates_lookup [OF rel]) (use rel in \<open>simp add: sessions_related_def\<close>)
    next
      case (TerminalizeSession sid t)
      then show ?thesis
        using simulates_answer [OF terminalize_simulated [OF rel], of wall eid sid t AFlag] that(2)
        by (simp only: x sql_session_call.simps memory_session_call.simps answer_flag [where f = AFlag])
    next
      case (PruneEvents cutoff)
      then show ?thesis
        using simulates_answer [OF prune_simulated [OF rel], of ANumber cutoff]
        by (simp only: x sql_session_call.simps memory_session_call.simps answer_flag [where f = ANumber])
    qed (use that create_simulated bind_simulated record_simulated finalize_simulated in \<open>auto simp: x intro!: simulates_answer\<close>)
  qed
  show "simulation sessions_related session_call_fits sql_session_call memory_session_call"
    by unfold_locales (use step in \<open>auto simp: simulates_def\<close>)
qed


definition ex_registered :: database where
  "ex_registered = empty_database\<lparr>db_agents := [(''a'', \<lparr>ag_id = ''a'', ag_name = ''A'', ag_owner = ''o'', ag_risk_tier = RT_LOW,
     ag_approved_tools = [], ag_status = ST_REGISTERED\<rparr>)]\<rparr>"

definition ex_event_in :: "string \<Rightarrow> instant \<Rightarrow> session_event" where
  "ex_event_in sid now = \<lparr>se_session_id = sid, se_agent_id = ''a'', se_tool_id = ''t'', se_tool_version = None, se_decision = DENY,
     se_sequence_number = 0, se_agent_sequence = 0, se_final_decision = None, se_timestamp = now\<rparr>"

definition ex_calls :: "(instant \<times> string \<times> session_call) list" where
  "ex_calls =
     [(1, [], BindOrCreateSession ''s'' ''a'' 1), (2, ''e1'', RecordEvent (ex_event_in ''s'' 2)),
      (3, [], BindOrCreateSession ''u'' ''a'' 3), (4, ''e2'', RecordEvent (ex_event_in ''u'' 4)),
      (5, [], UpdateEventFinalDecision ''s'' 1 DENY), (6, [], UpdateEventFinalDecision ''s'' 1 ALLOW),
      (7, [], TerminalizeSession ''s'' \<lparr>tb_session_id = ''s'', tb_agent_id = ''a'', tb_terminated_at = 7, tb_terminal_reason = IDLE_TIMEOUT\<rparr>),
      (8, ''e3'', RecordEvent (ex_event_in ''s'' 8)), (9, [], GetTombstone ''s''), (10, [], PruneEvents 3), (11, [], CurrentAgentSequence ''a'')]"


subsection \<open>Beyond the calls\<close>

lemma sql_list_sessions_same:
  assumes rel: "sessions_related db r"
  shows "\<exists>ss. sql_list_sessions db = (Inr ss, db) \<and> set ss = set (list_sessions r)"
proof -
  have rows: "distinct (dkeys (db_sessions db))" and mem: "distinct (dkeys (sr_sessions r))"
    using rel by (simp_all add: sessions_related_def schema_ok_def primary_keys_def sessions_wf_def)
  have act: "active_session db sid = Some s \<longleftrightarrow> (\<exists>x. (sid, x) \<in> set (db_sessions db) \<and> xs_status x = ROW_ACTIVE \<and> s = session_of sid x)"
    for sid s
    by (cases "dget (db_sessions db) sid") (auto simp: active_session_def map_of_eq_Some_iff [OF rows, symmetric])
  have "set (map (\<lambda>(sid, x). session_of sid x) (filter (\<lambda>(_, x). xs_status x = ROW_ACTIVE) (db_sessions db))) =
      {s. \<exists>sid. active_session db sid = Some s}"
    using act by force
  also have "\<dots> = set (list_sessions r)"
    using rel dvals_iff [OF mem] by (auto simp: list_sessions_def sessions_related_def)
  finally show ?thesis
    using rel by (simp add: sql_list_sessions_def transactional_session_def sessions_related_def)
qed

text \<open>Opening a session for an agent that is not registered violates the foreign key and leaves the database as it was.\<close>

lemma unregistered_agent_refused:
  assumes "db_fault db = None" and "dget (db_sessions db) sid = None" and "\<not> has_key (db_agents db) aid"
  shows "sql_bind_or_create_session wall sid aid now db = (Inl integrity_error, db)"
  using assms
  by (simp add: sql_bind_or_create_session_def transactional_session_def Let_def schema_ok_def session_tables_ok_def insert_row_def
      new_session_row_def)

text \<open>
  The two adapters disagree on saving a session that has ended: in memory it is active again beside its tombstone; in the
  database it stays ended and its tombstone changes owner. No service calls the operation.
\<close>

lemma saved_terminal_session_diverges:
  assumes rel: "sessions_related db r" and x: "dget (db_sessions db) (ss_session_id s) = Some x" "xs_status x = ROW_TERMINAL"
    and "has_key (db_agents db) (ss_agent_id s)"
  shows "dget (sr_sessions (repo_save_session s r)) (ss_session_id s) = Some s
    \<and> (\<exists>db'. sql_save_session wall s db = (Inr (), db') \<and> active_session db' (ss_session_id s) = None
        \<and> map_option tb_agent_id (tombstone_of db' (ss_session_id s)) = Some (ss_agent_id s))"
proof -
  have db: "schema_ok db" "db_fault db = None" using rel by (simp_all add: sessions_related_def)
  have "schema_ok (db\<lparr>db_sessions := dset (ss_session_id s)
      (x\<lparr>xs_agent_id := ss_agent_id s, xs_created_at := ss_started_at s, xs_last_activity_at := Some (ss_last_activity_at s), xs_updated_at := wall\<rparr>)
      (db_sessions db)\<rparr>)"
    using assms(4) schema_session_rows [OF db(1) x(1)] by (intro schema_session_row [OF db(1)]) simp_all
  with x db(2) show ?thesis
    by (simp add: repo_save_session_def sql_save_session_def transactional_session_def active_session_def tombstone_of_def)
qed

end
