(* ===== verification/Sql_Planes.thy ===== *)
theory Sql_Planes
  imports Sql_Database
begin

section \<open>The durable lifecycle planes\<close>

text \<open>
  \<^verbatim>\<open>app/repositories/sql/enforcement_repository.py\<close>, \<^verbatim>\<open>administrative_repository.py\<close> and \<^verbatim>\<open>agent_repository.py\<close>: the durable adapters of both
  planes and of the agent store they refer to, with the refusal evidence of both backends. Each is shown to simulate
  its in-memory counterpart.
\<close>

subsection \<open>Enforcement\<close>

definition truthy_text :: "string option \<Rightarrow> bool" where
  "truthy_text x \<longleftrightarrow> x \<noteq> None \<and> x \<noteq> Some []"

definition transition_row_of :: "nat \<Rightarrow> enforcement_transition \<Rightarrow> transition_row" where
  "transition_row_of epoch t =
     \<lparr>xt_agent_id = et_agent_id t, xt_epoch = epoch, xt_action = et_action t, xt_actor = et_actor t, xt_reason = et_reason t,
      xt_previous_status = et_previous_status t, xt_new_status = et_new_status t,
      xt_trigger_session_id = Option.bind (et_trigger t) tg_session_id,
      xt_trigger_risk_level = Option.bind (et_trigger t) enforcement_trigger.tg_risk_level,
      xt_trigger_risk_score = Option.bind (et_trigger t) tg_risk_score,
      xt_trigger_finding_ids =
        (case et_trigger t of
           None \<Rightarrow> None | Some g \<Rightarrow> if tg_finding_ids g = [] then None else Some (tg_finding_ids g)),
      xt_occurred_at = et_occurred_at t\<rparr>"

definition trigger_of :: "transition_row \<Rightarrow> enforcement_trigger option" where
  "trigger_of x =
     (if truthy_text (xt_trigger_session_id x) \<or> xt_trigger_risk_level x \<noteq> None
         \<or> xt_trigger_risk_score x \<notin> {None, Some 0} \<or> xt_trigger_finding_ids x \<notin> {None, Some []}
      then Some \<lparr>tg_session_id = xt_trigger_session_id x, tg_risk_level = xt_trigger_risk_level x, tg_risk_score = xt_trigger_risk_score x,
                 tg_finding_ids = (case xt_trigger_finding_ids x of None \<Rightarrow> [] | Some ids \<Rightarrow> ids)\<rparr>
      else None)"

definition transition_of :: "string \<Rightarrow> transition_row \<Rightarrow> enforcement_transition" where
  "transition_of tid x =
     \<lparr>et_transition_id = tid, et_agent_id = xt_agent_id x, et_action = xt_action x, et_actor = xt_actor x, et_reason = xt_reason x,
      et_previous_status = xt_previous_status x, et_new_status = xt_new_status x, et_trigger = trigger_of x,
      et_occurred_at = xt_occurred_at x\<rparr>"

abbreviation enforcement_guard :: "(database, 'a) eff \<Rightarrow> (database, 'a) eff" where
  "enforcement_guard body \<equiv>
     wrap_errors [EnforcementStateUnavailableError] EnforcementStateUnavailableError (transactional_session body)"

definition sql_enforcement_get_state :: "string \<Rightarrow> (database, enforcement_state option) eff" where
  "sql_enforcement_get_state aid = enforcement_guard (\<lambda>db. (Inr (map_option xe_state (dget (db_enforcement db) aid)), db))"

definition sql_enforcement_record_transition ::
  "instant \<Rightarrow> enforcement_transition \<Rightarrow> enforcement_state \<Rightarrow> nat \<Rightarrow> (database, bool) eff" where
  "sql_enforcement_record_transition wall t ns expected = enforcement_guard (\<lambda>db.
     (let aid = et_agent_id t; state_row = dget (db_enforcement db) aid;
          current_epoch = (case state_row of None \<Rightarrow> 0 | Some x \<Rightarrow> es_epoch (xe_state x));
          generation = (case state_row of None \<Rightarrow> 0 | Some x \<Rightarrow> es_recovery_generation (xe_state x));
          row = \<lparr>xe_state = ns\<lparr>es_agent_id := aid\<rparr>,
                 xe_current_status = (if es_suspended_at ns \<noteq> None then ST_SUSPENDED else ST_ACTIVE), xe_updated_at = wall\<rparr>
      in if \<not> has_key (db_agents db) aid then (Inl EnforcementStateUnavailableError, db)
         else if current_epoch \<noteq> expected \<or> es_epoch ns \<noteq> expected + 1 then (Inr False, db)
         else if es_recovery_generation ns \<notin> {generation, generation + 1} then (Inl EnforcementStateUnavailableError, db)
         else (Inr True,
               db\<lparr>db_enforcement := (if state_row = None then insert_row aid row (db_enforcement db) else dset aid row (db_enforcement db)),
                  db_enforcement_transitions := insert_row (et_transition_id t) (transition_row_of (es_epoch ns) t)
                    (db_enforcement_transitions db)\<rparr>)))"

definition sql_enforcement_list_transitions :: "string option \<Rightarrow> (database, enforcement_transition list) eff" where
  "sql_enforcement_list_transitions aid = enforcement_guard (\<lambda>db.
     (Inr (sort_key (\<lambda>t. (et_occurred_at t, et_transition_id t))
        (map (\<lambda>(tid, x). transition_of tid x)
          (filter (\<lambda>(_, x). aid = None \<or> Some (xt_agent_id x) = aid) (db_enforcement_transitions db)))), db))"

definition sql_get_epoch :: "string \<Rightarrow> instant \<Rightarrow> (database, nat) eff" where
  "sql_get_epoch aid as_of = enforcement_guard (\<lambda>db.
     (Inr (length (filter (\<lambda>(_, x). xt_agent_id x = aid \<and> xt_action x = REINSTATE \<and> xt_occurred_at x \<le> as_of)
        (db_enforcement_transitions db))), db))"

datatype enforcement_call =
    EnfGetState string | EnfRecord enforcement_transition enforcement_state nat | EnfList "string option" | EnfEpoch string instant

datatype enforcement_answer =
    EState "enforcement_state option" | EFlag bool | ETransitions "enforcement_transition list" | ENumber nat

fun memory_enforcement_call :: "instant \<times> enforcement_call \<Rightarrow> enforcement_repo \<Rightarrow> enforcement_answer res \<times> enforcement_repo" where
  "memory_enforcement_call (_, EnfGetState aid) r = answer EState (enforcement_get_state r aid, r)"
| "memory_enforcement_call (_, EnfRecord t ns e) r = answer EFlag (enforcement_record_transition t ns e r)"
| "memory_enforcement_call (_, EnfList aid) r = (Inr (ETransitions (enforcement_list_transitions r aid)), r)"
| "memory_enforcement_call (_, EnfEpoch aid as_of) r = (Inr (ENumber (get_epoch r aid as_of)), r)"

fun sql_enforcement_call :: "instant \<times> enforcement_call \<Rightarrow> database \<Rightarrow> enforcement_answer res \<times> database" where
  "sql_enforcement_call (_, EnfGetState aid) db = answer EState (sql_enforcement_get_state aid db)"
| "sql_enforcement_call (wall, EnfRecord t ns e) db = answer EFlag (sql_enforcement_record_transition wall t ns e db)"
| "sql_enforcement_call (_, EnfList aid) db = answer ETransitions (sql_enforcement_list_transitions aid db)"
| "sql_enforcement_call (_, EnfEpoch aid as_of) db = answer ENumber (sql_get_epoch aid as_of db)"

text \<open>A trigger whose every field is empty is read back as no trigger.\<close>

definition trigger_survives :: "enforcement_transition \<Rightarrow> bool" where
  "trigger_survives t \<longleftrightarrow> et_trigger t = None \<or> trigger_of (transition_row_of 0 t) \<noteq> None"

fun enforcement_call_fits :: "instant \<times> enforcement_call \<Rightarrow> database \<Rightarrow> bool" where
  "enforcement_call_fits (_, EnfRecord t ns e) db =
     (has_key (db_agents db) (et_agent_id t) \<and> es_agent_id ns = et_agent_id t \<and> trigger_survives t
      \<and> \<not> has_key (db_enforcement_transitions db) (et_transition_id t))"
| "enforcement_call_fits _ db = True"

definition enforcement_related :: "database \<Rightarrow> enforcement_repo \<Rightarrow> bool" where
  "enforcement_related db r \<longleftrightarrow>
     schema_ok db \<and> db_fault db = None \<and> er_fault r = None
     \<and> (\<forall>aid. dget (er_states r) aid = map_option xe_state (dget (db_enforcement db) aid))
     \<and> (\<forall>aid. dget (er_states r) aid = None \<longrightarrow> get_or (er_epochs r) aid 0 = 0)
     \<and> er_transitions r = map (\<lambda>(tid, x). transition_of tid x) (db_enforcement_transitions db)"

lemma transition_round_trip:
  assumes "trigger_survives t"
  shows "transition_of (et_transition_id t) (transition_row_of epoch t) = t"
proof -
  have same: "trigger_of (transition_row_of epoch t) = trigger_of (transition_row_of 0 t)"
    by (simp add: trigger_of_def transition_row_of_def)
  have "trigger_of (transition_row_of 0 t) = et_trigger t"
  proof (cases "et_trigger t")
    case None
    then show ?thesis by (simp add: trigger_of_def transition_row_of_def truthy_text_def)
  next
    case (Some g)
    then show ?thesis using assms
      by (cases g) (auto simp: trigger_survives_def trigger_of_def transition_row_of_def split: if_splits)
  qed
  with same show ?thesis by (simp add: transition_of_def) (simp add: transition_row_of_def)
qed

lemma schema_enforcement:
  assumes "schema_ok db" and "has_key (db_agents db) aid" and "has_key (db_agents db) (xt_agent_id y)"
  shows "schema_ok (db\<lparr>db_enforcement := dset aid x (db_enforcement db),
      db_enforcement_transitions := dset tid y (db_enforcement_transitions db)\<rparr>)"
  using assms
  by (auto simp: schema_defs
      intro!: vals_dset keys_dset)

lemma guard_read:
  "db_fault db = None \<Longrightarrow> schema_ok db \<Longrightarrow> enforcement_guard (\<lambda>db. (Inr (g db), db)) db = (Inr (g db), db)"
  by (simp add: wrap_errors_def transactional_session_def)

lemma enforcement_record_simulated:
  assumes rel: "enforcement_related db r" and fits: "enforcement_call_fits (wall, EnfRecord t ns e) db"
  shows "fst (sql_enforcement_record_transition wall t ns e db) = fst (enforcement_record_transition t ns e r)
    \<and> enforcement_related (snd (sql_enforcement_record_transition wall t ns e db)) (snd (enforcement_record_transition t ns e r))"
proof -
  let ?aid = "et_agent_id t" and ?tid = "et_transition_id t" and ?x = "dget (db_enforcement db) (et_agent_id t)"
  let ?row = "\<lparr>xe_state = ns, xe_current_status = (if es_suspended_at ns \<noteq> None then ST_SUSPENDED else ST_ACTIVE), xe_updated_at = wall\<rparr>"
  let ?db' = "db\<lparr>db_enforcement := dset ?aid ?row (db_enforcement db),
      db_enforcement_transitions := dset ?tid (transition_row_of (es_epoch ns) t) (db_enforcement_transitions db)\<rparr>"
  let ?r' = "r\<lparr>er_states := dset ?aid ns (er_states r), er_transitions := er_transitions r @ [t], er_epochs := dset ?aid (e + 1) (er_epochs r)\<rparr>"
  have f: "has_key (db_agents db) ?aid" "ns\<lparr>es_agent_id := ?aid\<rparr> = ns" "trigger_survives t"
    "\<not> has_key (db_enforcement_transitions db) ?tid" using fits by (cases ns; simp)+
  have r: "schema_ok db" "db_fault db = None" "dget (er_states r) ?aid = map_option xe_state ?x"
    "?x = None \<Longrightarrow> get_or (er_epochs r) ?aid 0 = 0" using rel by (auto simp: enforcement_related_def)
  have current: "(case ?x of None \<Rightarrow> 0 | Some x \<Rightarrow> es_epoch (xe_state x)) = persisted_epoch r ?aid"
    using r(3,4) by (cases ?x) (simp_all add: persisted_epoch_def)
  have gen: "(case ?x of None \<Rightarrow> 0 | Some x \<Rightarrow> es_recovery_generation (xe_state x)) =
      (case dget (er_states r) ?aid of Some p \<Rightarrow> es_recovery_generation p | None \<Rightarrow> 0)"
    using r(3) by (cases ?x) simp_all
  have put: "(if ?x = None then insert_row ?aid ?row (db_enforcement db) else dset ?aid ?row (db_enforcement db)) =
      dset ?aid ?row (db_enforcement db)" by (simp add: insert_fresh has_key_def)
  have ok: "schema_ok ?db'" using f(1) by (intro schema_enforcement [OF r(1)]) (simp_all add: transition_row_of_def)
  have "insert_row ?tid y (db_enforcement_transitions db) = db_enforcement_transitions db @ [(?tid, y)]" for y by (simp add: insert_row_def)
  then have related: "enforcement_related ?db' ?r'"
    using rel ok transition_round_trip [OF f(3), of "es_epoch ns"]
    by (auto simp: enforcement_related_def insert_fresh [OF f(4), symmetric])
  show ?thesis
    using f r current gen put ok related rel
    by (auto simp: sql_enforcement_record_transition_def enforcement_record_transition_def persisted_epoch_def [symmetric] wrap_errors_def
        transactional_session_def Let_def insert_fresh)
qed

interpretation durable_enforcement: simulation enforcement_related enforcement_call_fits sql_enforcement_call memory_enforcement_call
proof
  fix db r and x :: "instant \<times> enforcement_call"
  assume rel: "enforcement_related db r" and fits: "enforcement_call_fits x db"
  obtain wall c where x: "x = (wall, c)" by fastforce
  have db: "db_fault db = None" "schema_ok db" using rel by (simp_all add: enforcement_related_def)
  have rows: "er_transitions r = map (\<lambda>(tid, x). transition_of tid x) (db_enforcement_transitions db)"
    using rel by (simp add: enforcement_related_def)
  have same: "filter P (map (\<lambda>(tid, x). transition_of tid x) (db_enforcement_transitions db)) =
      map (\<lambda>(tid, x). transition_of tid x) (filter (\<lambda>(tid, x). P (transition_of tid x)) (db_enforcement_transitions db))" for P
    by (simp add: filter_map comp_def case_prod_unfold)
  have "fst (sql_enforcement_call x db) = fst (memory_enforcement_call x r)
      \<and> enforcement_related (snd (sql_enforcement_call x db)) (snd (memory_enforcement_call x r))"
  proof (cases c)
    case (EnfGetState aid)
    then show ?thesis
      using rel by (simp add: x answer_def sql_enforcement_get_state_def guard_read [OF db] enforcement_get_state_def enforcement_related_def)
  next
    case (EnfRecord t ns e)
    then show ?thesis using enforcement_record_simulated [OF rel, of wall t ns e] fits by (simp add: x answer_def)
  next
    case (EnfList aid)
    then show ?thesis
      using rel
      by (simp add: x answer_def sql_enforcement_list_transitions_def guard_read [OF db] enforcement_list_transitions_def rows same)
        (simp add: transition_of_def)
  next
    case (EnfEpoch aid as_of)
    then show ?thesis
      using rel by (simp add: x answer_def sql_get_epoch_def guard_read [OF db] get_epoch_def rows same) (simp add: transition_of_def)
  qed
  then show "fst (sql_enforcement_call x db) = fst (memory_enforcement_call x r)"
    and "enforcement_related (snd (sql_enforcement_call x db)) (snd (memory_enforcement_call x r))" by simp_all
qed

text \<open>Every failure of the database surfaces as the one error that callers treat as a closed plane.\<close>

lemma enforcement_fails_closed:
  assumes "fst (sql_enforcement_call x db) = Inl e"
  shows "e = EnforcementStateUnavailableError"
proof -
  have "map_sum id f (fst (enforcement_guard body s)) = Inl e \<Longrightarrow> e = EnforcementStateUnavailableError" for f :: "'x \<Rightarrow> 'y" and body s
    by (cases "fst (enforcement_guard body s)") (auto simp: wrap_errors_def split: prod.splits sum.splits if_splits)
  moreover obtain wall c where x: "x = (wall, c)" by fastforce
  ultimately show ?thesis
    using assms
    by (cases c) (auto simp: x answer_def sql_enforcement_get_state_def sql_enforcement_record_transition_def
        sql_enforcement_list_transitions_def sql_get_epoch_def wrap_errors_def split: prod.splits sum.splits)
qed

subsection \<open>Agents and the administrative plane\<close>

definition sql_agent_get :: "string \<Rightarrow> (database, agent option) eff" where
  "sql_agent_get aid = transactional_session (\<lambda>db. (Inr (dget (db_agents db) aid), db))"

definition sql_agent_save :: "agent \<Rightarrow> (database, unit) eff" where
  "sql_agent_save a = transactional_session (\<lambda>db.
     (Inr (), db\<lparr>db_agents :=
        (if dget (db_agents db) (ag_id a) = None then insert_row (ag_id a) (a\<lparr>ag_status := ST_REGISTERED\<rparr>) (db_agents db)
         else dset (ag_id a) (a\<lparr>ag_status := ST_REGISTERED\<rparr>) (db_agents db))\<rparr>))"

definition sql_agent_list :: "(database, agent list) eff" where
  "sql_agent_list = transactional_session (\<lambda>db. (Inr (sort_key ag_id (dvals (db_agents db))), db))"

definition validate_transition_invariants ::
  "administrative_transition \<Rightarrow> agent_administrative_state \<Rightarrow> nat \<Rightarrow> administrative_lifecycle_state option \<Rightarrow> nat \<Rightarrow> unit res" where
  "validate_transition_invariants t ns current previous expected =
     (if as_version ns \<noteq> expected + 1 then Inl AdministrativeTransitionInvariantError
      else if \<not> is_legal_administrative_transition previous (as_state ns) then Inl AdministrativeTransitionInvariantError
      else if at_previous_state t \<noteq> previous \<or> at_new_state t \<noteq> as_state ns \<or> at_version_before t \<noteq> current
              \<or> at_version_after t \<noteq> as_version ns
        then Inl AdministrativeTransitionInvariantError
      else Inr ())"

abbreviation administrative_guard :: "exn list \<Rightarrow> (database, 'a) eff \<Rightarrow> (database, 'a) eff" where
  "administrative_guard named body \<equiv> wrap_errors named AdministrativeStateUnavailableError (transactional_session body)"

definition sql_administrative_get_state :: "string \<Rightarrow> (database, agent_administrative_state option) eff" where
  "sql_administrative_get_state aid = administrative_guard [] (\<lambda>db. (Inr (dget (db_administrative db) aid), db))"

definition sql_administrative_record_transition ::
  "administrative_transition \<Rightarrow> agent_administrative_state \<Rightarrow> nat \<Rightarrow> (database, bool) eff" where
  "sql_administrative_record_transition t ns expected =
     administrative_guard [AdministrativeTransitionInvariantError, AdministrativeStateUnavailableError] (\<lambda>db.
       (let aid = at_agent_id t; state_row = dget (db_administrative db) aid;
            current = (case state_row of None \<Rightarrow> 0 | Some s \<Rightarrow> as_version s); row = ns\<lparr>as_agent_id := aid\<rparr>
        in if \<not> has_key (db_agents db) aid then (Inl AdministrativeStateUnavailableError, db)
           else if current \<noteq> expected then (Inr False, db)
           else case validate_transition_invariants t ns current (map_option as_state state_row) expected of
                  Inl e \<Rightarrow> (Inl e, db)
                | Inr _ \<Rightarrow>
                    (Inr True,
                     db\<lparr>db_administrative :=
                          (if state_row = None then insert_row aid row (db_administrative db) else dset aid row (db_administrative db)),
                        db_administrative_transitions := insert_row (at_transition_id t) t (db_administrative_transitions db)\<rparr>)))"

definition sql_commit_registration ::
  "agent \<Rightarrow> administrative_transition \<Rightarrow> agent_administrative_state \<Rightarrow> (database, unit) eff" where
  "sql_commit_registration a t ns =
     administrative_guard [AgentAlreadyRegisteredError, AdministrativeTransitionInvariantError] (\<lambda>db.
       (if dget (db_agents db) (ag_id a) \<noteq> None then (Inl AgentAlreadyRegisteredError, db)
        else case validate_transition_invariants t ns 0 None 0 of
               Inl e \<Rightarrow> (Inl e, db)
             | Inr _ \<Rightarrow>
                 (Inr (),
                  db\<lparr>db_agents := insert_row (ag_id a) (a\<lparr>ag_status := ST_REGISTERED\<rparr>) (db_agents db),
                     db_administrative := insert_row (ag_id a) (ns\<lparr>as_agent_id := ag_id a\<rparr>) (db_administrative db),
                     db_administrative_transitions := insert_row (at_transition_id t)
                       (t\<lparr>at_agent_id := ag_id a, at_previous_state := None, at_version_before := 0\<rparr>) (db_administrative_transitions db)\<rparr>)))"

definition sql_administrative_list_transitions :: "string option \<Rightarrow> (database, administrative_transition list) eff" where
  "sql_administrative_list_transitions aid = administrative_guard [] (\<lambda>db.
     (Inr (sort_key (\<lambda>t. (at_occurred_at t, at_transition_id t))
        (filter (\<lambda>t. aid = None \<or> Some (at_agent_id t) = aid) (dvals (db_administrative_transitions db)))), db))"

datatype plane_call =
    AgentGet string | AgentSave agent | AdmGetState string | AdmRecord administrative_transition agent_administrative_state nat
  | AdmRegister agent administrative_transition agent_administrative_state | AdmList "string option"

datatype plane_answer =
    PAgent "agent option" | PState "agent_administrative_state option" | PFlag bool | PTransitions "administrative_transition list" | PDone

type_synonym memory_planes = "(string, agent) dict \<times> administrative_repo"

fun memory_plane_call :: "plane_call \<Rightarrow> memory_planes \<Rightarrow> plane_answer res \<times> memory_planes" where
  "memory_plane_call (AgentGet aid) (agents, r) = (Inr (PAgent (dget agents aid)), (agents, r))"
| "memory_plane_call (AgentSave a) (agents, r) = (Inr PDone, (agent_save a agents, r))"
| "memory_plane_call (AdmGetState aid) (agents, r) = answer PState (administrative_get_state r aid, (agents, r))"
| "memory_plane_call (AdmRecord t ns e) (agents, r) =
     (let (x, r') = administrative_record_transition t ns e r in answer PFlag (x, (agents, r')))"
| "memory_plane_call (AdmRegister a t ns) (agents, r) =
     (let (x, (agents', r')) = commit_registration a t ns (Some agents, r)
      in answer (\<lambda>_. PDone) (x, (case agents' of None \<Rightarrow> agents | Some d \<Rightarrow> d, r')))"
| "memory_plane_call (AdmList aid) (agents, r) = (Inr (PTransitions (administrative_list_transitions r aid)), (agents, r))"

fun sql_plane_call :: "plane_call \<Rightarrow> database \<Rightarrow> plane_answer res \<times> database" where
  "sql_plane_call (AgentGet aid) db = answer PAgent (sql_agent_get aid db)"
| "sql_plane_call (AgentSave a) db = answer (\<lambda>_. PDone) (sql_agent_save a db)"
| "sql_plane_call (AdmGetState aid) db = answer PState (sql_administrative_get_state aid db)"
| "sql_plane_call (AdmRecord t ns e) db = answer PFlag (sql_administrative_record_transition t ns e db)"
| "sql_plane_call (AdmRegister a t ns) db = answer (\<lambda>_. PDone) (sql_commit_registration a t ns db)"
| "sql_plane_call (AdmList aid) db = answer PTransitions (sql_administrative_list_transitions aid db)"

text \<open>
  The durable store checks the ledger entry of a registration against the state it comes with, which the in-memory store
  does not; the call has to be one that passes.
\<close>

fun plane_call_fits :: "plane_call \<Rightarrow> database \<Rightarrow> bool" where
  "plane_call_fits (AdmRecord t ns e) db =
     (has_key (db_agents db) (at_agent_id t) \<and> as_agent_id ns = at_agent_id t
      \<and> \<not> has_key (db_administrative_transitions db) (at_transition_id t))"
| "plane_call_fits (AdmRegister a t ns) db =
     (as_agent_id ns = ag_id a \<and> at_agent_id t = ag_id a \<and> at_previous_state t = None \<and> at_new_state t = as_state ns
      \<and> at_version_before t = 0 \<and> at_version_after t = as_version ns
      \<and> \<not> has_key (db_administrative_transitions db) (at_transition_id t))"
| "plane_call_fits _ db = True"

fun planes_related :: "database \<Rightarrow> memory_planes \<Rightarrow> bool" where
  "planes_related db (agents, r) =
     (schema_ok db \<and> db_fault db = None \<and> ar_fault r = None
      \<and> (\<forall>k. dget agents k = dget (db_agents db) k)
      \<and> (\<forall>k. dget (ar_states r) k = dget (db_administrative db) k)
      \<and> ar_transitions r = dvals (db_administrative_transitions db)
      \<and> (\<forall>t\<in>set (ar_transitions r). at_version_after t \<le> administrative_version r (at_agent_id t)))"

lemma schema_agent: "schema_ok db \<Longrightarrow> schema_ok (db\<lparr>db_agents := dset k a (db_agents db)\<rparr>)"
  by (auto simp: schema_defs
      elim: list.pred_mono_strong)

lemma schema_administrative:
  assumes "schema_ok db" and "has_key (db_agents db) (at_agent_id t)" and "1 \<le> as_version s" and "at_version_after t = at_version_before t + 1"
    and "\<not> has_key (db_administrative_transitions db) tid"
    and "\<And>u. u \<in> set (dvals (db_administrative_transitions db)) \<Longrightarrow> at_agent_id u = at_agent_id t \<Longrightarrow> at_version_after u \<noteq> at_version_after t"
  shows "schema_ok (db\<lparr>db_administrative := dset (at_agent_id t) s (db_administrative db),
      db_administrative_transitions := dset tid t (db_administrative_transitions db)\<rparr>)"
proof -
  have "distinct (map (\<lambda>u. (at_agent_id u, at_version_after u)) (dvals (db_administrative_transitions db)))"
    using assms(1) by (simp add: schema_ok_def plane_tables_ok_def)
  moreover have "(at_agent_id t, at_version_after t) \<notin> set (map (\<lambda>u. (at_agent_id u, at_version_after u)) (dvals (db_administrative_transitions db)))"
    using assms(6) by fastforce
  ultimately have "distinct (map (\<lambda>u. (at_agent_id u, at_version_after u)) (dvals (dset tid t (db_administrative_transitions db))))"
    by (simp add: vals_insert [OF assms(5)])
  with assms(1-4) show ?thesis
    by (auto simp: schema_defs
        intro!: vals_dset keys_dset)
qed

lemma administrative_record_simulated:
  assumes rel: "planes_related db (agents, r)" and fits: "plane_call_fits (AdmRecord t ns e) db"
  shows "fst (sql_administrative_record_transition t ns e db) = fst (administrative_record_transition t ns e r)
    \<and> planes_related (snd (sql_administrative_record_transition t ns e db)) (agents, snd (administrative_record_transition t ns e r))"
proof -
  let ?aid = "at_agent_id t" and ?tid = "at_transition_id t" and ?x = "dget (db_administrative db) (at_agent_id t)"
  let ?db' = "db\<lparr>db_administrative := dset ?aid ns (db_administrative db),
      db_administrative_transitions := dset ?tid t (db_administrative_transitions db)\<rparr>"
  let ?r' = "r\<lparr>ar_states := dset ?aid ns (ar_states r), ar_transitions := ar_transitions r @ [t]\<rparr>"
  have f: "has_key (db_agents db) ?aid" "ns\<lparr>as_agent_id := ?aid\<rparr> = ns" "\<not> has_key (db_administrative_transitions db) ?tid"
    using fits by (cases ns; simp)+
  have r: "schema_ok db" "db_fault db = None" "dget (ar_states r) ?aid = ?x" "ar_transitions r = dvals (db_administrative_transitions db)"
    using rel by auto
  let ?valid = "validate_transition_invariants t ns (case ?x of None \<Rightarrow> 0 | Some s \<Rightarrow> as_version s) (map_option as_state ?x) e"
  have mem: "administrative_record_transition t ns e r =
      (if (case ?x of None \<Rightarrow> 0 | Some s \<Rightarrow> as_version s) \<noteq> e then (Inr False, r)
       else case ?valid of Inl y \<Rightarrow> (Inl y, r) | Inr _ \<Rightarrow> (Inr True, ?r'))"
    by (simp add: administrative_record_transition_def validate_transition_invariants_def Let_def r(3))
  have put: "?x = None \<Longrightarrow> insert_row ?aid ns (db_administrative db) = dset ?aid ns (db_administrative db)"
    by (simp add: insert_fresh has_key_def)
  have related: "planes_related ?db' (agents, ?r')" if "(case ?x of None \<Rightarrow> 0 | Some s \<Rightarrow> as_version s) = e" "?valid = Inr ()"
  proof -
    have v: "as_version ns = Suc e" "at_version_after t = Suc e" "at_version_before t = e" "administrative_version r ?aid = e"
      using that by (auto simp: validate_transition_invariants_def administrative_version_def r(3) split: if_splits)
    have old: "at_version_after u \<le> e" if "u \<in> set (dvals (db_administrative_transitions db))" "at_agent_id u = ?aid" for u
      using that rel r(4) v(4) by fastforce
    have "schema_ok ?db'" using v old f by (intro schema_administrative [OF r(1)]) fastforce+
    moreover have "at_version_after u \<le> administrative_version ?r' (at_agent_id u)" if "u \<in> set (ar_transitions ?r')" for u
      using that rel v old r(4) by (cases "at_agent_id u = ?aid") (auto simp: administrative_version_def)
    ultimately show ?thesis using rel vals_insert [OF f(3), of t] by auto
  qed
  have ok: "schema_ok ?db'" if "(case ?x of None \<Rightarrow> 0 | Some s \<Rightarrow> as_version s) = e" "?valid = Inr ()" using related [OF that] by simp
  have named: "?valid = Inl y \<Longrightarrow> y = AdministrativeTransitionInvariantError" for y
    by (auto simp: validate_transition_invariants_def split: if_splits)
  have sql: "sql_administrative_record_transition t ns e db =
      (if (case ?x of None \<Rightarrow> 0 | Some s \<Rightarrow> as_version s) \<noteq> e then (Inr False, db)
       else case ?valid of Inl y \<Rightarrow> (Inl y, db) | Inr _ \<Rightarrow> (Inr True, ?db'))"
    using f r(1,2) put ok named
    by (cases "(case ?x of None \<Rightarrow> 0 | Some s \<Rightarrow> as_version s) = e"; cases ?valid)
      (simp_all add: sql_administrative_record_transition_def wrap_errors_def transactional_session_def Let_def insert_fresh)
  show ?thesis
    using rel related
    by (cases "(case ?x of None \<Rightarrow> 0 | Some s \<Rightarrow> as_version s) = e"; cases ?valid) (simp_all add: mem sql del: planes_related.simps)
qed

lemma registration_simulated:
  assumes rel: "planes_related db (agents, r)" and fits: "plane_call_fits (AdmRegister a t ns) db"
  shows "fst (sql_plane_call (AdmRegister a t ns) db) = fst (memory_plane_call (AdmRegister a t ns) (agents, r))
    \<and> planes_related (snd (sql_plane_call (AdmRegister a t ns) db)) (snd (memory_plane_call (AdmRegister a t ns) (agents, r)))"
proof -
  let ?aid = "ag_id a" and ?tid = "at_transition_id t" and ?a = "a\<lparr>ag_status := ST_REGISTERED\<rparr>"
  let ?db1 = "db\<lparr>db_agents := dset ?aid ?a (db_agents db)\<rparr>"
  let ?db' = "?db1\<lparr>db_administrative := dset ?aid ns (db_administrative db),
      db_administrative_transitions := dset ?tid t (db_administrative_transitions db)\<rparr>"
  let ?r' = "r\<lparr>ar_states := dset ?aid ns (ar_states r), ar_transitions := ar_transitions r @ [t]\<rparr>"
  have f: "ns\<lparr>as_agent_id := ?aid\<rparr> = ns" "t\<lparr>at_agent_id := ?aid, at_previous_state := None, at_version_before := 0\<rparr> = t"
    "at_agent_id t = ?aid" "at_version_after t = as_version ns" "at_version_before t = 0" "\<not> has_key (db_administrative_transitions db) ?tid"
    "at_previous_state t = None" "at_new_state t = as_state ns"
    using fits by (cases ns; cases t; simp)+
  have r: "schema_ok db" "db_fault db = None" "dget agents ?aid = dget (db_agents db) ?aid"
    "ar_transitions r = dvals (db_administrative_transitions db)"
    using rel by auto
  show ?thesis
  proof (cases "dget (db_agents db) ?aid = None \<and> is_legal_administrative_transition None (as_state ns) \<and> as_version ns = 1")
    case True
    have new: "\<not> has_key (db_agents db) ?aid" using True by (simp add: has_key_def)
    have free: "\<not> has_key (db_administrative db) ?aid" "\<forall>u\<in>set (dvals (db_administrative_transitions db)). at_agent_id u \<noteq> ?aid"
      using r(1) new by (auto simp: schema_ok_def plane_tables_ok_def list_all_iff has_key_mem [of "db_administrative db"])
    have "schema_ok ?db'"
      using schema_administrative [OF schema_agent [OF r(1), of ?aid ?a], of t ns ?tid] True f free by simp
    moreover have "at_version_after u \<le> administrative_version ?r' (at_agent_id u)" if "u \<in> set (ar_transitions ?r')" for u
      using that rel True f free r(4) by (cases "at_agent_id u = ?aid") (auto simp: administrative_version_def)
    ultimately have related: "planes_related ?db' (agent_save a agents, ?r')"
      using rel vals_insert [OF f(6), of t] by (simp add: agent_save_def)
    have "sql_commit_registration a t ns db = (Inr (), ?db')"
      unfolding sql_commit_registration_def f(1,2)
      using True f(3-8) r(2) new free \<open>schema_ok ?db'\<close>
      by (simp add: wrap_errors_def transactional_session_def validate_transition_invariants_def insert_fresh)
    moreover have "commit_registration a t ns (Some agents, r) = (Inr (), (Some (agent_save a agents), ?r'))"
      using True r(3) by (simp add: commit_registration_def)
    ultimately show ?thesis using related by (simp add: answer_def del: planes_related.simps)
  next
    case False
    let ?e = "if dget (db_agents db) ?aid \<noteq> None then AgentAlreadyRegisteredError else AdministrativeTransitionInvariantError"
    have "sql_commit_registration a t ns db = (Inl ?e, db)"
      using False r(2) f
      by (auto simp: sql_commit_registration_def wrap_errors_def transactional_session_def validate_transition_invariants_def)
    moreover have "commit_registration a t ns (Some agents, r) = (Inl ?e, (Some agents, r))"
      using False r(3) by (auto simp: commit_registration_def)
    ultimately show ?thesis using rel by (simp add: answer_def del: planes_related.simps)
  qed
qed

lemma agent_save_simulated:
  assumes "planes_related db (agents, r)"
  shows "sql_agent_save a db = (Inr (), db\<lparr>db_agents := dset (ag_id a) (a\<lparr>ag_status := ST_REGISTERED\<rparr>) (db_agents db)\<rparr>)
    \<and> planes_related (db\<lparr>db_agents := dset (ag_id a) (a\<lparr>ag_status := ST_REGISTERED\<rparr>) (db_agents db)\<rparr>) (agent_save a agents, r)"
proof -
  have db: "schema_ok db" "db_fault db = None" using assms by simp_all
  have put: "dget (db_agents db) (ag_id a) = None \<Longrightarrow> insert_row (ag_id a) x (db_agents db) = dset (ag_id a) x (db_agents db)" for x
    by (simp add: insert_fresh has_key_def)
  show ?thesis
    using assms schema_agent [OF db(1), of "ag_id a"] put
    by (simp add: sql_agent_save_def transactional_session_def db(2) agent_save_def)
qed

interpretation durable_planes: simulation planes_related plane_call_fits sql_plane_call memory_plane_call
proof
  fix db and m :: memory_planes and x
  assume rel: "planes_related db m" and fits: "plane_call_fits x db"
  obtain agents r where m: "m = (agents, r)" by fastforce
  have db: "schema_ok db" "db_fault db = None" using rel by (simp_all add: m)
  have "fst (sql_plane_call x db) = fst (memory_plane_call x m) \<and> planes_related (snd (sql_plane_call x db)) (snd (memory_plane_call x m))"
  proof (cases x)
    case (AgentGet aid)
    then show ?thesis using rel db by (simp add: m answer_def sql_agent_get_def transactional_session_def)
  next
    case (AgentSave a)
    then show ?thesis using agent_save_simulated [of db agents r a] rel by (simp add: m answer_def del: planes_related.simps)
  next
    case (AdmGetState aid)
    then show ?thesis
      using rel db by (simp add: m answer_def sql_administrative_get_state_def wrap_errors_def transactional_session_def administrative_get_state_def)
  next
    case (AdmRecord t ns e)
    then show ?thesis
      using administrative_record_simulated [of db agents r t ns e] rel fits
      by (simp add: m answer_def case_prod_unfold Let_def del: planes_related.simps)
  next
    case (AdmRegister a t ns)
    then show ?thesis using registration_simulated [of db agents r a t ns] rel fits by (simp only: m)
  next
    case (AdmList aid)
    then show ?thesis
      using rel db by (simp add: m answer_def sql_administrative_list_transitions_def wrap_errors_def transactional_session_def
          administrative_list_transitions_def)
  qed
  then show "fst (sql_plane_call x db) = fst (memory_plane_call x m)"
    and "planes_related (snd (sql_plane_call x db)) (snd (memory_plane_call x m))" by simp_all
qed

text \<open>
  (C29) The durable enforcement plane behaves as the in-memory one. From empty enforcement tables, any sequence of reads and
  compare-and-set writes for registered agents, with new transition identifiers and triggers that say something, is answered as the
  in-memory repository answers it: the same winners and losers of every race on the epoch, the same states, the same history in the same
  order and the same recovery counts.
\<close>

theorem sql_enforcement_behaves_alike:
  assumes "schema_ok db" and "db_fault db = None" and "db_enforcement db = []" and "db_enforcement_transitions db = []"
    and "all_fit enforcement_call_fits sql_enforcement_call calls db"
  shows "results sql_enforcement_call calls db = results memory_enforcement_call calls empty_enforcement_repo
    \<and> enforcement_related (run_ops sql_enforcement_call calls db) (run_ops memory_enforcement_call calls empty_enforcement_repo)"
proof -
  have "enforcement_related db empty_enforcement_repo"
    using assms(1-4) by (simp add: enforcement_related_def empty_enforcement_repo_def)
  from durable_enforcement.runs_agree [OF this assms(5)] show ?thesis .
qed

definition ex_plane_db :: database where
  "ex_plane_db = empty_database\<lparr>db_agents := [(''a'', \<lparr>ag_id = ''a'', ag_name = ''A'', ag_owner = ''o'', ag_risk_tier = RT_LOW,
     ag_approved_tools = [], ag_status = ST_REGISTERED\<rparr>)]\<rparr>"

definition ex_suspension :: "string \<Rightarrow> instant \<times> enforcement_call" where
  "ex_suspension tid =
     (5, EnfRecord
        \<lparr>et_transition_id = tid, et_agent_id = ''a'', et_action = SUSPEND, et_actor = ''runtime'', et_reason = ''risk'',
         et_previous_status = ST_ACTIVE, et_new_status = ST_SUSPENDED,
         et_trigger = Some \<lparr>tg_session_id = Some ''s'', tg_risk_level = None, tg_risk_score = Some 9, tg_finding_ids = []\<rparr>, et_occurred_at = 5\<rparr>
        \<lparr>es_agent_id = ''a'', es_epoch = 1, es_suspended_at = Some 5, es_suspension_reason = Some ''risk'', es_baseline_at = None,
         es_baseline_evidence_sequence = 0, es_baseline_agent_sequence = 0, es_recovery_generation = 0, es_last_transition_at = Some 5\<rparr> 0)"

theorem sql_enforcement_behaves_alike_witness:
  "map snd (results sql_enforcement_call [ex_suspension ''t1'', ex_suspension ''t2'', (6, EnfEpoch ''a'' 6)] ex_plane_db) =
     [Inr (EFlag True), Inr (EFlag False), Inr (ENumber 0)]"
proof -
  let ?calls = "[ex_suspension ''t1'', ex_suspension ''t2'', (6, EnfEpoch ''a'' 6)]"
  have "schema_ok ex_plane_db" "all_fit enforcement_call_fits sql_enforcement_call ?calls ex_plane_db" by code_simp+
  moreover have "map snd (results memory_enforcement_call ?calls empty_enforcement_repo) = [Inr (EFlag True), Inr (EFlag False), Inr (ENumber 0)]"
    by code_simp
  ultimately show ?thesis
    using sql_enforcement_behaves_alike [of ex_plane_db ?calls] by (simp add: ex_plane_db_def empty_database_def)
qed


definition ex_agent_row :: agent where
  "ex_agent_row = \<lparr>ag_id = ''a'', ag_name = ''A'', ag_owner = ''o'', ag_risk_tier = RT_LOW, ag_approved_tools = [], ag_status = ST_ACTIVE\<rparr>"

definition ex_ledger :: "string \<Rightarrow> administrative_lifecycle_state option \<Rightarrow> administrative_lifecycle_state \<Rightarrow> nat \<Rightarrow> administrative_transition" where
  "ex_ledger tid p n v =
     \<lparr>at_transition_id = tid, at_agent_id = ''a'', at_action = REGISTER, at_actor = \<lparr>ac_type = HUMAN, ac_id = ''h''\<rparr>, at_reason = ''r'',
      at_previous_state = p, at_new_state = n, at_version_before = v, at_version_after = v + 1, at_correlation_id = ''c'', at_occurred_at = 0\<rparr>"

definition ex_standing :: "administrative_lifecycle_state \<Rightarrow> nat \<Rightarrow> agent_administrative_state" where
  "ex_standing n v = \<lparr>as_agent_id = ''a'', as_state = n, as_version = v, as_last_transition_at = None\<rparr>"

definition ex_plane_calls :: "plane_call list" where
  "ex_plane_calls =
     [AdmRegister ex_agent_row (ex_ledger ''t0'' None AL_REGISTERED 0) (ex_standing AL_REGISTERED 1),
      AdmRegister ex_agent_row (ex_ledger ''t1'' None AL_REGISTERED 0) (ex_standing AL_REGISTERED 1),
      AdmRecord (ex_ledger ''t1'' (Some AL_REGISTERED) AL_DISABLED 1) (ex_standing AL_DISABLED 2) 1,
      AdmRecord (ex_ledger ''t2'' (Some AL_REGISTERED) AL_ACTIVE 1) (ex_standing AL_ACTIVE 2) 1,
      AdmRecord (ex_ledger ''t2'' (Some AL_DISABLED) AL_ACTIVE 2) (ex_standing AL_ACTIVE 3) 2]"


subsection \<open>Evidence of refusals\<close>

definition refusal_record_event :: "administrative_audit_event \<Rightarrow> administrative_audit_event list \<Rightarrow> administrative_audit_event list" where
  "refusal_record_event e log = log @ [e]"

definition refusal_list_events :: "string option \<Rightarrow> administrative_audit_event list \<Rightarrow> administrative_audit_event list" where
  "refusal_list_events aid log =
     sort_key (\<lambda>e. (aa_occurred_at e, aa_event_id e)) (filter (\<lambda>e. aid = None \<or> Some (aa_agent_id e) = aid) log)"

definition sql_refusal_record_event :: "administrative_audit_event \<Rightarrow> (database, administrative_audit_event) eff" where
  "sql_refusal_record_event e = wrap_errors [] (OtherError ''AdministrativeAuditUnavailableError'') (transactional_session (\<lambda>db.
     (Inr e, db\<lparr>db_refusals := insert_row (aa_event_id e) e (db_refusals db)\<rparr>)))"

definition sql_refusal_list_events :: "string option \<Rightarrow> (database, administrative_audit_event list) eff" where
  "sql_refusal_list_events aid = wrap_errors [] (OtherError ''AdministrativeAuditUnavailableError'') (transactional_session (\<lambda>db.
     (Inr (sort_key (\<lambda>e. (aa_occurred_at e, aa_event_id e)) (filter (\<lambda>e. aid = None \<or> Some (aa_agent_id e) = aid) (dvals (db_refusals db)))), db)))"

text \<open>A refusal is recorded whether or not its agent exists, and read back in the order of the in-memory log.\<close>

lemma refusals_recorded:
  assumes "schema_ok db" and "db_fault db = None" and "\<not> has_key (db_refusals db) (aa_event_id e)"
  shows "\<exists>db'. sql_refusal_record_event e db = (Inr e, db')
    \<and> sql_refusal_list_events aid db' = (Inr (refusal_list_events aid (refusal_record_event e (dvals (db_refusals db)))), db')"
proof -
  let ?db' = "db\<lparr>db_refusals := dset (aa_event_id e) e (db_refusals db)\<rparr>"
  have "schema_ok ?db'"
    using assms(1) by (simp add: schema_defs distinct_dset)
  then show ?thesis
    using assms vals_insert [OF assms(3), of e]
    by (simp add: sql_refusal_record_event_def sql_refusal_list_events_def wrap_errors_def transactional_session_def insert_fresh
        refusal_list_events_def refusal_record_event_def)
qed

end
