(* ===== verification/Sql_Records.thy ===== *)
theory Sql_Records
  imports Sql_Database
begin

section \<open>Durable continuations, tools and audit evidence\<close>

text \<open>
  \<^verbatim>\<open>app/repositories/sql/approval_continuation_repository.py\<close>, \<^verbatim>\<open>tool_repository.py\<close> and \<^verbatim>\<open>audit_evidence_repository.py\<close>, shown to simulate the in-memory
  repositories of \<open>Approval\<close>, \<open>Tools\<close> and \<open>Evidence\<close>. The continuation table has no column for the capability a continuation
  was approved with: \<open>capability_binding_lost\<close>.
\<close>

subsection \<open>Continuations\<close>

definition continuation_row_of :: "continuation \<Rightarrow> continuation_row" where
  "continuation_row_of c =
     \<lparr>xc_session_id = ct_session_id c, xc_agent_id = ct_agent_id c, xc_tool_id = ct_tool_id c, xc_tool_version = ct_tool_version c,
      xc_execution_parameters = deep_unfreeze (ct_execution_parameters c),
      xc_originating_audit_event_id = ct_originating_audit_event_id c, xc_risk_score = ct_risk_score c,
      xc_required_response = ct_required_response c, xc_enforcement_epoch = ct_enforcement_epoch c, xc_state = ct_state c,
      xc_created_at = ct_created_at c, xc_expires_at = ct_expires_at c, xc_approved_by = ct_approved_by c,
      xc_consumed_at = ct_consumed_at c\<rparr>"

definition continuation_of :: "string \<Rightarrow> continuation_row \<Rightarrow> continuation" where
  "continuation_of gid x =
     \<lparr>ct_grant_id = gid, ct_session_id = xc_session_id x, ct_agent_id = xc_agent_id x, ct_tool_id = xc_tool_id x,
      ct_tool_version = xc_tool_version x, ct_execution_parameters = deep_freeze (xc_execution_parameters x),
      ct_originating_audit_event_id = xc_originating_audit_event_id x, ct_risk_score = xc_risk_score x,
      ct_required_response = xc_required_response x, ct_enforcement_epoch = xc_enforcement_epoch x, ct_state = xc_state x,
      ct_created_at = xc_created_at x, ct_expires_at = xc_expires_at x, ct_approved_by = xc_approved_by x,
      ct_consumed_at = xc_consumed_at x, ct_capability_profile_id = None, ct_capability_digest = None\<rparr>"

definition sql_create_continuation :: "continuation \<Rightarrow> (database, unit) eff" where
  "sql_create_continuation c = transactional_session (\<lambda>db.
     (Inr (), db\<lparr>db_continuations := insert_row (ct_grant_id c) (continuation_row_of c) (db_continuations db)\<rparr>))"

definition sql_get_continuation :: "string \<Rightarrow> (database, continuation option) eff" where
  "sql_get_continuation gid = transactional_session (\<lambda>db.
     (Inr (map_option (continuation_of gid) (dget (db_continuations db) gid)), db))"

definition continuation_row_update ::
  "continuation_state \<Rightarrow> instant option \<Rightarrow> string option \<Rightarrow> continuation_row \<Rightarrow> continuation_row" where
  "continuation_row_update to_state consumed_at approved_by x =
     (let y = x\<lparr>xc_state := to_state\<rparr>
      in case to_state of
           CS_APPROVED \<Rightarrow> y\<lparr>xc_approved_by := approved_by\<rparr>
         | CS_REJECTED \<Rightarrow> if approved_by \<noteq> None then y\<lparr>xc_approved_by := approved_by\<rparr> else y
         | CS_CONSUMED \<Rightarrow> y\<lparr>xc_consumed_at := consumed_at\<rparr>
         | _ \<Rightarrow> y)"

definition sql_transition_continuation ::
  "string \<Rightarrow> continuation_state \<Rightarrow> continuation_state \<Rightarrow> instant option \<Rightarrow> string option \<Rightarrow> (database, bool) eff" where
  "sql_transition_continuation gid from_state to_state consumed_at approved_by db =
     (if (from_state, to_state) \<notin> set allowed_continuation_transitions then (Inl InvalidContinuationTransitionError, db)
      else if \<not> continuation_metadata_ok to_state consumed_at approved_by then (Inl InvalidContinuationTransitionError, db)
      else transactional_session (\<lambda>db.
        (case dget (db_continuations db) gid of
           None \<Rightarrow> (Inr False, db)
         | Some x \<Rightarrow>
             if xc_state x \<noteq> from_state then (Inr False, db)
             else (Inr True, db\<lparr>db_continuations := dset gid (continuation_row_update to_state consumed_at approved_by x)
                     (db_continuations db)\<rparr>))) db)"

definition sql_list_continuations :: "string option \<Rightarrow> continuation_state option \<Rightarrow> (database, continuation list) eff" where
  "sql_list_continuations aid st = transactional_session (\<lambda>db.
     (Inr (sort_key (\<lambda>c. (ct_created_at c, ct_grant_id c))
        (map (\<lambda>(gid, x). continuation_of gid x)
          (filter (\<lambda>(_, x). (aid = None \<or> Some (xc_agent_id x) = aid) \<and> (st = None \<or> Some (xc_state x) = st)) (db_continuations db)))), db))"

subsection \<open>Tools\<close>

definition sql_tool_get :: "string \<Rightarrow> string \<Rightarrow> (database, tool option) eff" where
  "sql_tool_get tid ver = transactional_session (\<lambda>db.
     (Inr (map_option (\<lambda>x. \<lparr>tl_metadata = xo_metadata_payload x\<rparr>) (dget (db_tools db) (tid, ver))), db))"

definition sql_tool_save :: "instant \<Rightarrow> tool \<Rightarrow> (database, unit) eff" where
  "sql_tool_save wall t = transactional_session (\<lambda>db.
     (let tid = fst (tool_key t);
          families = (if dget (db_families db) tid = None then insert_row tid wall (db_families db) else db_families db)
      in (Inr (),
          db\<lparr>db_families := families, db_tools :=
            (case dget (db_tools db) (tool_key t) of
               None \<Rightarrow> insert_row (tool_key t)
                 \<lparr>xo_governance_enabled = tool_enabled t, xo_risk_level = tool_risk t, xo_metadata_payload = tl_metadata t, xo_created_at = wall\<rparr>
                 (db_tools db)
             | Some x \<Rightarrow> dset (tool_key t)
                 (x\<lparr>xo_metadata_payload := tl_metadata t, xo_governance_enabled := tool_enabled t, xo_risk_level := tool_risk t\<rparr>)
                 (db_tools db))\<rparr>)))"

definition sql_tool_list :: "(database, tool list) eff" where
  "sql_tool_list = transactional_session (\<lambda>db.
     (Inr (map (\<lambda>(_, x). \<lparr>tl_metadata = xo_metadata_payload x\<rparr>) (sort_key fst (db_tools db))), db))"

definition sql_tool_list_versions :: "string \<Rightarrow> (database, tool list) eff" where
  "sql_tool_list_versions tid = transactional_session (\<lambda>db.
     (Inr (map (\<lambda>(_, x). \<lparr>tl_metadata = xo_metadata_payload x\<rparr>)
        (sort_key (snd \<circ> fst) (filter (\<lambda>((family, _), _). family = tid) (db_tools db)))), db))"

subsection \<open>Audit evidence\<close>

definition sql_audit_append :: "audit_event \<Rightarrow> (database, unit) eff" where
  "sql_audit_append e = transactional_session (\<lambda>db. (Inr (), db\<lparr>db_audit := insert_row (ae_event_id e) e (db_audit db)\<rparr>))"

definition sql_audit_get :: "string \<Rightarrow> (database, audit_event option) eff" where
  "sql_audit_get eid = transactional_session (\<lambda>db. (Inr (dget (db_audit db) eid), db))"

definition sql_audit_query :: "string option \<Rightarrow> string option \<Rightarrow> nat \<Rightarrow> nat \<Rightarrow> (database, audit_event list) eff" where
  "sql_audit_query sid aid limit offset = transactional_session (\<lambda>db.
     (Inr (take limit (drop offset (sort_key (\<lambda>e. (ae_timestamp e, ae_event_id e))
        (filter (\<lambda>e. (sid = None \<or> Some (ae_session_id e) = sid) \<and> (aid = None \<or> Some (ae_agent_id e) = aid)) (dvals (db_audit db)))))), db))"

subsection \<open>Calls\<close>

datatype record_call =
    ContCreate continuation | ContGet string
  | ContTransition string continuation_state continuation_state "instant option" "string option"
  | ToolGet string string | ToolSave tool
  | AuditAppend audit_event | AuditGet string | AuditQuery "string option" "string option" nat nat

datatype record_answer =
    RCont "continuation option" | RFlag bool | RTool "tool option" | RAudit "audit_event option" | RAudits "audit_event list" | RDone

type_synonym memory_records = "continuation_repo \<times> tool_repo \<times> audit_event list"

fun memory_record_call :: "instant \<times> record_call \<Rightarrow> memory_records \<Rightarrow> record_answer res \<times> memory_records" where
  "memory_record_call (_, ContCreate c) (r, t, l) = (Inr RDone, (create_continuation c r, t, l))"
| "memory_record_call (_, ContGet gid) (r, t, l) = (Inr (RCont (get_continuation r gid)), (r, t, l))"
| "memory_record_call (_, ContTransition gid f s ca ab) (r, t, l) =
     (let (x, r') = transition_continuation gid f s ca ab r in answer RFlag (x, (r', t, l)))"
| "memory_record_call (_, ToolGet tid ver) (r, t, l) = (Inr (RTool (dget t (tid, ver))), (r, t, l))"
| "memory_record_call (_, ToolSave x) (r, t, l) = (Inr RDone, (r, tool_repo_save x t, l))"
| "memory_record_call (_, AuditAppend e) (r, t, l) = (Inr RDone, (r, t, audit_append e l))"
| "memory_record_call (_, AuditGet eid) (r, t, l) = (Inr (RAudit (audit_get l eid)), (r, t, l))"
| "memory_record_call (_, AuditQuery sid aid n k) (r, t, l) = (Inr (RAudits (audit_query l sid aid n k)), (r, t, l))"

fun sql_record_call :: "instant \<times> record_call \<Rightarrow> database \<Rightarrow> record_answer res \<times> database" where
  "sql_record_call (_, ContCreate c) db = answer (\<lambda>_. RDone) (sql_create_continuation c db)"
| "sql_record_call (_, ContGet gid) db = answer RCont (sql_get_continuation gid db)"
| "sql_record_call (_, ContTransition gid f s ca ab) db = answer RFlag (sql_transition_continuation gid f s ca ab db)"
| "sql_record_call (_, ToolGet tid ver) db = answer RTool (sql_tool_get tid ver db)"
| "sql_record_call (wall, ToolSave x) db = answer (\<lambda>_. RDone) (sql_tool_save wall x db)"
| "sql_record_call (_, AuditAppend e) db = answer (\<lambda>_. RDone) (sql_audit_append e db)"
| "sql_record_call (_, AuditGet eid) db = answer RAudit (sql_audit_get eid db)"
| "sql_record_call (_, AuditQuery sid aid n k) db = answer RAudits (sql_audit_query sid aid n k db)"

text \<open>
  A continuation is new, refers to a stored session, agent and tool version, has frozen parameters that JSON can express and no
  capability; an audit event is new and valid.
\<close>

fun record_call_fits :: "instant \<times> record_call \<Rightarrow> database \<Rightarrow> bool" where
  "record_call_fits (_, ContCreate c) db =
     (\<not> has_key (db_continuations db) (ct_grant_id c) \<and> has_key (db_sessions db) (ct_session_id c)
      \<and> has_key (db_agents db) (ct_agent_id c) \<and> has_key (db_tools db) (ct_tool_id c, ct_tool_version c)
      \<and> deep_freeze (deep_unfreeze (ct_execution_parameters c)) = ct_execution_parameters c
      \<and> ct_capability_profile_id c = None \<and> ct_capability_digest c = None)"
| "record_call_fits (_, AuditAppend e) db =
     (\<not> has_key (db_audit db) (ae_event_id e) \<and> (ae_tool_version e = None \<or> ae_tool_id e \<noteq> None))"
| "record_call_fits _ db = True"

fun records_related :: "database \<Rightarrow> memory_records \<Rightarrow> bool" where
  "records_related db (r, t, l) =
     (schema_ok db \<and> db_fault db = None
      \<and> (\<forall>gid. dget r gid = map_option (continuation_of gid) (dget (db_continuations db) gid))
      \<and> (\<forall>k. dget t k = map_option (\<lambda>x. \<lparr>tl_metadata = xo_metadata_payload x\<rparr>) (dget (db_tools db) k))
      \<and> l = dvals (db_audit db) \<and> list_all (\<lambda>(eid, e). ae_event_id e = eid) (db_audit db))"

subsection \<open>Simulation\<close>

lemma continuation_round_trip:
  assumes "deep_freeze (deep_unfreeze (ct_execution_parameters c)) = ct_execution_parameters c"
    and "ct_capability_profile_id c = None" and "ct_capability_digest c = None"
  shows "continuation_of (ct_grant_id c) (continuation_row_of c) = c"
  using assms by (simp add: continuation_of_def continuation_row_of_def)

lemma row_update_refines:
  "continuation_of gid (continuation_row_update s ca ab x) = continuation_update s ca ab (continuation_of gid x)"
  by (simp add: continuation_of_def continuation_row_update_def continuation_update_def Let_def split: continuation_state.splits)

lemma row_update_keys:
  "xc_session_id (continuation_row_update s ca ab x) = xc_session_id x" "xc_agent_id (continuation_row_update s ca ab x) = xc_agent_id x"
  "xc_tool_id (continuation_row_update s ca ab x) = xc_tool_id x" "xc_tool_version (continuation_row_update s ca ab x) = xc_tool_version x"
  by (simp_all add: continuation_row_update_def Let_def split: continuation_state.splits)

lemma schema_continuation:
  assumes "schema_ok db" and "has_key (db_sessions db) (xc_session_id x)" and "has_key (db_agents db) (xc_agent_id x)"
    and "has_key (db_tools db) (xc_tool_id x, xc_tool_version x)"
  shows "schema_ok (db\<lparr>db_continuations := dset gid x (db_continuations db)\<rparr>)"
  using assms by (auto simp: schema_defs intro!: vals_dset)

lemma continuation_keys:
  assumes "schema_ok db" and "dget (db_continuations db) gid = Some x"
  shows "has_key (db_sessions db) (xc_session_id x)" "has_key (db_agents db) (xc_agent_id x)"
    "has_key (db_tools db) (xc_tool_id x, xc_tool_version x)"
proof -
  have "x \<in> set (dvals (db_continuations db))" using map_of_SomeD [OF assms(2)] by force
  with assms(1) show "has_key (db_sessions db) (xc_session_id x)" "has_key (db_agents db) (xc_agent_id x)"
    "has_key (db_tools db) (xc_tool_id x, xc_tool_version x)"
    by (auto simp: schema_ok_def record_tables_ok_def list_all_iff)
qed

lemma create_continuation_simulated:
  assumes rel: "records_related db (r, t, l)" and fits: "record_call_fits (wall, ContCreate c) db"
  shows "\<exists>db'. sql_create_continuation c db = (Inr (), db') \<and> records_related db' (create_continuation c r, t, l)"
proof -
  let ?db' = "db\<lparr>db_continuations := dset (ct_grant_id c) (continuation_row_of c) (db_continuations db)\<rparr>"
  have db: "schema_ok db" "db_fault db = None" using rel by simp_all
  have "schema_ok ?db'" using fits by (intro schema_continuation [OF db(1)]) (simp_all add: continuation_row_of_def)
  moreover have "records_related ?db' (create_continuation c r, t, l)"
    using rel fits calculation continuation_round_trip [of c] by (simp add: create_continuation_def)
  ultimately show ?thesis
    using db fits by (simp add: sql_create_continuation_def transactional_session_def insert_fresh)
qed

lemma transition_continuation_simulated:
  assumes rel: "records_related db (r, t, l)"
  shows "fst (sql_transition_continuation gid f s ca ab db) = fst (transition_continuation gid f s ca ab r)
    \<and> records_related (snd (sql_transition_continuation gid f s ca ab db)) (snd (transition_continuation gid f s ca ab r), t, l)"
proof -
  have db: "schema_ok db" "db_fault db = None" and g: "dget r gid = map_option (continuation_of gid) (dget (db_continuations db) gid)"
    using rel by simp_all
  show ?thesis
  proof (cases "dget (db_continuations db) gid")
    case None
    then show ?thesis
      using rel db g by (simp add: sql_transition_continuation_def transition_continuation_def transactional_session_def)
  next
    case (Some x)
    let ?y = "continuation_row_update s ca ab x"
    let ?db' = "db\<lparr>db_continuations := dset gid ?y (db_continuations db)\<rparr>"
    have ok: "schema_ok ?db'"
      using continuation_keys [OF db(1) Some] by (intro schema_continuation [OF db(1)]) (simp_all add: row_update_keys)
    then have "records_related ?db' (dset gid (continuation_update s ca ab (continuation_of gid x)) r, t, l)"
      using rel by (simp add: row_update_refines)
    moreover have "ct_state (continuation_of gid x) = xc_state x" by (simp add: continuation_of_def)
    ultimately show ?thesis
      using rel db g Some ok
      by (simp add: sql_transition_continuation_def transition_continuation_def transactional_session_def del: records_related.simps)
  qed
qed

lemma tool_save_simulated:
  assumes rel: "records_related db (r, t, l)"
  shows "\<exists>db'. sql_tool_save wall x db = (Inr (), db') \<and> records_related db' (r, tool_repo_save x t, l)"
proof -
  have db: "schema_ok db" "db_fault db = None" using rel by simp_all
  let ?k = "tool_key x"
  let ?row = "case dget (db_tools db) ?k of
      None \<Rightarrow> \<lparr>xo_governance_enabled = tool_enabled x, xo_risk_level = tool_risk x, xo_metadata_payload = tl_metadata x, xo_created_at = wall\<rparr>
    | Some y \<Rightarrow> y\<lparr>xo_metadata_payload := tl_metadata x, xo_governance_enabled := tool_enabled x, xo_risk_level := tool_risk x\<rparr>"
  let ?fam = "if dget (db_families db) (fst ?k) = None then dset (fst ?k) wall (db_families db) else db_families db"
  let ?db' = "db\<lparr>db_families := ?fam, db_tools := dset ?k ?row (db_tools db)\<rparr>"
  have fam: "has_key ?fam (fst ?k)" "has_key (db_families db) j \<Longrightarrow> has_key ?fam j" "distinct (dkeys ?fam)" for j
    using db(1) by (auto simp: has_key_def schema_ok_def primary_keys_def)
  have ok: "schema_ok ?db'"
    using db(1) fam by (auto simp: schema_defs intro!: keys_dset elim: list.pred_mono_strong)
  have "xo_metadata_payload ?row = tl_metadata x" by (cases "dget (db_tools db) ?k") simp_all
  then have "records_related ?db' (r, tool_repo_save x t, l)" using rel ok by (simp add: tool_repo_save_def)
  moreover have "sql_tool_save wall x db = (Inr (), ?db')"
    using ok db(2)
    by (cases "dget (db_tools db) ?k"; cases "dget (db_families db) (fst ?k)")
      (simp_all add: sql_tool_save_def transactional_session_def Let_def insert_fresh has_key_def)
  ultimately show ?thesis by blast
qed

lemma audit_append_simulated:
  assumes rel: "records_related db (r, t, l)" and fits: "record_call_fits (wall, AuditAppend e) db"
  shows "\<exists>db'. sql_audit_append e db = (Inr (), db') \<and> records_related db' (r, t, audit_append e l)"
proof -
  let ?db' = "db\<lparr>db_audit := dset (ae_event_id e) e (db_audit db)\<rparr>"
  have db: "schema_ok db" "db_fault db = None" and fresh: "\<not> has_key (db_audit db) (ae_event_id e)" using rel fits by simp_all
  have "schema_ok ?db'" using db(1) fits by (auto simp: schema_defs intro!: vals_dset)
  moreover have "records_related ?db' (r, t, audit_append e l)"
    using rel calculation vals_insert [OF fresh, of e] by (simp add: audit_append_def insert_fresh [OF fresh, symmetric]) (simp add: insert_row_def)
  ultimately show ?thesis using db fresh by (simp add: sql_audit_append_def transactional_session_def insert_fresh)
qed

lemma audit_lookup: "list_all (\<lambda>(eid, e). ae_event_id e = eid) t \<Longrightarrow> dget t eid = audit_get (dvals t) eid"
  by (induction t) (auto simp: audit_get_def)

interpretation durable_records: simulation records_related record_call_fits sql_record_call memory_record_call
proof
  fix db and m :: memory_records and x :: "instant \<times> record_call"
  assume rel: "records_related db m" and fits: "record_call_fits x db"
  obtain r t l where m: "m = (r, t, l)" by (metis prod.exhaust)
  obtain wall c where x: "x = (wall, c)" by fastforce
  have db: "schema_ok db" "db_fault db = None" using rel by (simp_all add: m)
  have "fst (sql_record_call x db) = fst (memory_record_call x m) \<and> records_related (snd (sql_record_call x db)) (snd (memory_record_call x m))"
  proof (cases c)
    case (ContCreate k)
    then show ?thesis using create_continuation_simulated [of db r t l wall k] rel fits by (auto simp: m x answer_def simp del: records_related.simps)
  next
    case (ContGet gid)
    then show ?thesis
      using rel db by (simp add: m x answer_def sql_get_continuation_def get_continuation_def transactional_session_def)
  next
    case (ContTransition gid f s ca ab)
    then show ?thesis
      using transition_continuation_simulated [of db r t l gid f s ca ab] rel
      by (simp add: m x answer_def case_prod_unfold Let_def del: records_related.simps)
  next
    case (ToolGet tid ver)
    then show ?thesis using rel db by (simp add: m x answer_def sql_tool_get_def transactional_session_def)
  next
    case (ToolSave y)
    then show ?thesis using tool_save_simulated [of db r t l wall y] rel by (auto simp: m x answer_def simp del: records_related.simps)
  next
    case (AuditAppend e)
    then show ?thesis using audit_append_simulated [of db r t l wall e] rel fits by (auto simp: m x answer_def simp del: records_related.simps)
  next
    case (AuditGet eid)
    then show ?thesis using rel db audit_lookup [of "db_audit db" eid] by (simp add: m x answer_def sql_audit_get_def transactional_session_def)
  next
    case (AuditQuery sid aid n k)
    then show ?thesis using rel db by (simp add: m x answer_def sql_audit_query_def audit_query_def transactional_session_def)
  qed
  then show "fst (sql_record_call x db) = fst (memory_record_call x m)"
    and "records_related (snd (sql_record_call x db)) (snd (memory_record_call x m))" by simp_all
qed

text \<open>
  Durable continuations, tools and audit evidence behave as the in-memory ones. From empty tables, any sequence of calls whose continuations refer to
  what is stored, survive JSON and carry no capability, and whose identifiers are new, is answered alike: the same
  transitions win, the same tools and audit pages are read, and no constraint rejects a write.
\<close>

theorem sql_records_behave_alike:
  assumes "schema_ok db" and "db_fault db = None" and "db_continuations db = []" and "db_tools db = []" and "db_audit db = []"
    and "all_fit record_call_fits sql_record_call calls db"
  shows "results sql_record_call calls db = results memory_record_call calls ([], [], [])
    \<and> records_related (run_ops sql_record_call calls db) (run_ops memory_record_call calls ([], [], []))"
proof -
  have "records_related db ([], [], [])" using assms(1-5) by simp
  from durable_records.runs_agree [OF this assms(6)] show ?thesis .
qed

definition ex_tool_row :: tool where
  "ex_tool_row =
     \<lparr>tl_metadata =
        \<lparr>md_identity = \<lparr>ti_tool_id = ''t'', ti_name = ''T'', ti_version = ''1'', ti_description = []\<rparr>,
         md_governance = \<lparr>tg_risk_level = TR_LOW, tg_required_permissions = [], tg_owner = None, tg_approval_required = False\<rparr>,
         md_capability = \<lparr>tc_category = ''c'', tc_reads_files = True, tc_writes_files = False, tc_network_access = False,
           tc_internet_access = False, tc_database_access = False, tc_shell_access = False\<rparr>,
         md_operational = \<lparr>top_enabled = True, top_timeout_seconds = 3, top_supports_streaming = False\<rparr>\<rparr>\<rparr>"

definition ex_continuation_with :: "string option \<Rightarrow> continuation" where
  "ex_continuation_with digest =
     \<lparr>ct_grant_id = ''g'', ct_session_id = ''s'', ct_agent_id = ''a'', ct_tool_id = ''t'', ct_tool_version = ''1'',
      ct_execution_parameters = PyDict True [(''path'', PyTuple [PyScalar ''f''])], ct_originating_audit_event_id = ''e'', ct_risk_score = 1,
      ct_required_response = ''R'', ct_enforcement_epoch = 0, ct_state = CS_PENDING, ct_created_at = 1, ct_expires_at = 9,
      ct_approved_by = None, ct_consumed_at = None, ct_capability_profile_id = None, ct_capability_digest = digest\<rparr>"

definition ex_record_db :: database where
  "ex_record_db = empty_database\<lparr>
     db_agents := [(''a'', \<lparr>ag_id = ''a'', ag_name = ''A'', ag_owner = ''o'', ag_risk_tier = RT_LOW, ag_approved_tools = [], ag_status = ST_REGISTERED\<rparr>)],
     db_sessions := [(''s'', \<lparr>xs_agent_id = ''a'', xs_status = ROW_ACTIVE, xs_next_session_sequence = 1, xs_created_at = 1,
       xs_last_activity_at = None, xs_updated_at = 1, xs_ended_at = None, xs_ended_reason = None\<rparr>)]\<rparr>"

definition ex_record_calls :: "(instant \<times> record_call) list" where
  "ex_record_calls =
     [(1, ToolSave ex_tool_row), (2, ContCreate (ex_continuation_with None)),
      (3, ContTransition ''g'' CS_PENDING CS_APPROVED None (Some ''h'')),
      (4, ContTransition ''g'' CS_APPROVED CS_CONSUMED (Some 4) None), (5, ContTransition ''g'' CS_APPROVED CS_CONSUMED (Some 5) None)]"

theorem sql_records_behave_alike_witness:
  "map snd (results sql_record_call ex_record_calls ex_record_db) =
     [Inr RDone, Inr RDone, Inr (RFlag True), Inr (RFlag True), Inr (RFlag False)]"
proof -
  have "schema_ok ex_record_db" "all_fit record_call_fits sql_record_call ex_record_calls ex_record_db" by code_simp+
  moreover have "map snd (results memory_record_call ex_record_calls ([], [], [])) =
     [Inr RDone, Inr RDone, Inr (RFlag True), Inr (RFlag True), Inr (RFlag False)]" by code_simp
  ultimately show ?thesis
    using sql_records_behave_alike [of ex_record_db ex_record_calls] by (simp add: ex_record_db_def empty_database_def)
qed

text \<open>What is approved under a capability is read back without it.\<close>

lemma capability_binding_lost:
  assumes "sql_create_continuation c db = (Inr (), db')"
  shows "\<exists>k. sql_get_continuation (ct_grant_id c) db' = (Inr (Some k), db') \<and> ct_capability_profile_id k = None \<and> ct_capability_digest k = None"
proof -
  have run: "db_fault db = None" "schema_ok db'"
    "db' = db\<lparr>db_continuations := insert_row (ct_grant_id c) (continuation_row_of c) (db_continuations db)\<rparr>"
    using assms by (auto simp: sql_create_continuation_def transactional_session_def split: option.splits if_splits)
  then have "\<not> has_key (db_continuations db) (ct_grant_id c)"
    using insert_duplicate [of "db_continuations db" "ct_grant_id c" "continuation_row_of c"] by (auto simp: schema_ok_def primary_keys_def)
  with run show ?thesis
    by (simp add: sql_get_continuation_def transactional_session_def insert_fresh continuation_of_def)
qed

text \<open>Both listings of continuations hold the same ones.\<close>

lemma sql_list_continuations_same:
  assumes rel: "records_related db (r, t, l)" and keys: "distinct (dkeys r)"
  shows "\<exists>cs. sql_list_continuations aid st db = (Inr cs, db) \<and> set cs = set (list_continuations r aid st)"
proof -
  have db: "schema_ok db" "db_fault db = None" "distinct (dkeys (db_continuations db))"
    and g: "dget r gid = map_option (continuation_of gid) (dget (db_continuations db) gid)" for gid
    using rel by (simp_all add: schema_ok_def primary_keys_def)
  let ?P = "\<lambda>c. (aid = None \<or> Some (ct_agent_id c) = aid) \<and> (st = None \<or> Some (ct_state c) = st)"
  have "set (map (\<lambda>(gid, x). continuation_of gid x)
      (filter (\<lambda>(_, x). (aid = None \<or> Some (xc_agent_id x) = aid) \<and> (st = None \<or> Some (xc_state x) = st)) (db_continuations db)))
      = {c. ?P c \<and> (\<exists>gid. dget r gid = Some c)}"
    unfolding g by (auto simp: map_of_eq_Some_iff [OF db(3)] continuation_of_def image_iff)
  also have "\<dots> = set (list_continuations r aid st)"
    using dvals_iff [OF keys] by (auto simp: list_continuations_def)
  finally show ?thesis using db(1,2) by (simp add: sql_list_continuations_def transactional_session_def)
qed

end
