(* ===== verification/Spec2Isabelle.thy ===== *)
theory Spec2Isabelle
  imports Sandbox_Runner Startup Sql_Sessions Sql_Planes Sql_Records
begin

chapter \<open>The enterprise agent security platform\<close>

text \<open>
  The platform decides whether an AI agent may run a tool and runs it in a sandbox. This library models the Python
  implementation under \<^verbatim>\<open>src/app\<close> as HOL functions and proves what makes it correct.

  \<^bold>\<open>How the program is put together.\<close> At startup the composition root reads its configuration, builds one instance of every
  store and service, and registers a default agent and two tools. A request arrives over HTTP, is authenticated and
  admitted by role, and enters the security pipeline: the operation is canonicalised and bound, policy authorizes it, the
  event is recorded in a session, detection rules and a threshold detector produce findings, findings move the risk
  posture of the agent, and the posture decides on a response. An operation that is still allowed obtains a signed
  grant, good for one execution within a few seconds; a posture that is too bad suspends the agent, revokes its grants and
  closes issuance. The executor claims a grant, rebuilds the operation from it and runs the tool in a child process under
  resource controls, a file guard and a network guard, with a receipt before and after. Only an administrator
  returns a suspended agent to service, through the coordinator.

  \<^bold>\<open>Conventions.\<close> A class is a record, an enum a datatype, and a method a function on the state of its object. A
  method that may raise has type \<open>('s, 'a) eff\<close>, the state it leaves and an error or a value, so that what a failed
  call has already written is part of the model. A dict is an association list in insertion order. Times are integers in
  microseconds. Every reading of a clock, a uuid or a key is an argument, as is everything the program calls and does not
  contain: \<open>mac\<close> (HMAC-SHA256), \<open>sha\<close>, \<open>uuid5\<close>, the resolver of host names, \<open>realpath\<close> and the file system \<open>fsys\<close>, the operating system
  below the sandbox (\<open>host\<close>, \<open>disk\<close>), PyJWT and pydantic (\<open>jwt_library\<close>), the database engine, and the agent behind a query. A method that
  holds its lock is one atomic operation; concurrent use is a list of operations in any order (\<open>run_ops\<close> and \<open>results\<close> of \<open>Prelude\<close>), and what other threads
  do between two locked sections of one method is an argument of the method. Error texts and telemetry are not modelled.

  \<^bold>\<open>Foundations.\<close>
  \<^item> \<open>Prelude\<close>: errors, effects, dicts, Python string operations, runs of operations.
  \<^item> \<open>Interfaces\<close>: four contracts as locales. \<open>cas_store\<close> (writes are compare-and-set on a version; interpreted for the administrative
    and enforcement repositories), \<open>allocator\<close> (positions are handed out once and in order; interpreted for agent and session sequence
    numbers), \<open>single_use\<close> (a token is good for one claim whatever the interleaving; interpreted for grants, approval
    continuations, receipts and executions) and \<open>lifecycle\<close> (a transition graph with terminal states; interpreted for the administrative
    lifecycle and for continuations). A fifth, \<open>simulation\<close>, stands in \<open>Sql_Database\<close>.

  \<^bold>\<open>The two planes of an agent.\<close>
  \<^item> \<open>Administrative\<close> (\<^verbatim>\<open>models/agent.py\<close>, \<^verbatim>\<open>models/agent_administrative.py\<close>, in-memory agent and administrative repositories): states, legal graph, ledger.
  \<^item> \<open>Finding_Model\<close>, \<open>Enforcement\<close> (\<^verbatim>\<open>models/agent_enforcement.py\<close>, in-memory enforcement repository): containment state with epochs and history.
  \<^item> \<open>Lifecycle_Policy\<close> (\<^verbatim>\<open>policy/lifecycle_authorization.py\<close>): which conditions forbid execution, and their precedence.
  \<^item> \<open>Agent_Service\<close> and \<open>Agent_Lifecycle\<close> (\<^verbatim>\<open>services/agent_service.py\<close>): the single writer of both planes as functions, then as a step relation. Every
    reachable state satisfies \<open>service_inv\<close>; the ledger is a faithful history; disablement is final; execution is
    permitted under exact conditions.

  \<^bold>\<open>Authority to execute.\<close>
  \<^item> \<open>Binding\<close> (\<^verbatim>\<open>models/execution_binding.py\<close>): canonical operations and the injectivity of the JSON text a grant signs.
  \<^item> \<open>Execution_Authority\<close> (\<^verbatim>\<open>runtime/execution_authority.py\<close>): issue, verify, claim, revoke, suspend and resume issuance. A grant is
    claimed at most once; suspension revokes what is outstanding; the exact conditions of a claim.
  \<^item> \<open>Capability\<close> (\<^verbatim>\<open>models/execution_capability.py\<close>, profile registry, verification): well-formed capability sets and their digest.
  \<^item> \<open>Approval\<close> (\<^verbatim>\<open>models/approval_continuation.py\<close> and its in-memory repository): an approved continuation is consumed once.

  \<^bold>\<open>Deciding.\<close>
  \<^item> \<open>Tools\<close> (tool models, \<^verbatim>\<open>services/tool_service.py\<close>, \<^verbatim>\<open>registry/tool_registry.py\<close>) and \<open>Policy\<close> (\<^verbatim>\<open>policy/policy_engine.py\<close>, \<^verbatim>\<open>auth/authorization_service.py\<close>): the exact decision.
  \<^item> \<open>Sessions\<close> (session models, in-memory repository, \<^verbatim>\<open>services/session_service.py\<close>): ownership, ordering, retention; pruning loses nothing a detector looks at.
  \<^item> \<open>Detection\<close> (\<^verbatim>\<open>detection/\<close>, \<^verbatim>\<open>services/detection_service.py\<close>), \<open>Findings\<close>, \<open>Risk\<close>, \<open>Risk_Aggregate\<close> (the services of those names): content rules and denial thresholds, the evidence store,
    scores, and the incremental projection, which is proved equal to a computation from the stored findings whenever it is healthy.
  \<^item> \<open>Platform\<close> (all stores of one composition root), \<open>Coordinator\<close> (\<^verbatim>\<open>services/enforcement_coordinator.py\<close>), \<open>Runtime\<close> (\<^verbatim>\<open>RuntimeService.execute\<close>) and \<open>Runtime_Guarantees\<close>: a grant is
    warranted by every stage; each request has one recorded outcome; refusals fail closed; containment is complete.

  \<^bold>\<open>Executing.\<close>
  \<^item> \<open>Evidence\<close> (receipts, evidence service, reconciler, audit log): one final outcome for each receipt, bounded and indexed stores.
  \<^item> \<open>Executor\<close> (\<^verbatim>\<open>runtime/tool_executor.py\<close>): the sandbox runs only what a claimed grant binds, at most once.
  \<^item> \<open>Network_Guard\<close>, \<open>Filesystem_Guard\<close>, \<open>Filesystem_Identity\<close> (\<^verbatim>\<open>runtime/sandbox/network.py\<close>, \<^verbatim>\<open>filesystem.py\<close>, \<^verbatim>\<open>runtime/filesystem_resource_identity.py\<close>): exact
    egress condition on 32 and 128 bit addresses, refinement of an access policy, identities that stay in the workspace.
  \<^item> \<open>Process_Sandbox\<close> (parent side) and \<open>Sandbox_Runner\<close> (child side and the two tools): the sandbox returns, a workload runs only under its required
    controls, and output comes from inside the workspace.
  \<^item> \<open>Agent_Runtime\<close> (\<^verbatim>\<open>services/agent_runtime_service.py\<close>, \<^verbatim>\<open>agents/simple_agent.py\<close>): query, decision and execution end to end, safety and progress.

  \<^bold>\<open>The boundary.\<close>
  \<^item> \<open>Access\<close> (\<^verbatim>\<open>main.py\<close>, \<^verbatim>\<open>api/\<close>, \<^verbatim>\<open>auth/jwt_service.py\<close>): every request passes its gate; the live state changes only by right; tokens identify whom they were issued to.
  \<^item> \<open>Startup\<close> (\<^verbatim>\<open>config/settings.py\<close>, \<^verbatim>\<open>repositories/factory.py\<close>, \<^verbatim>\<open>repositories/composition_validation.py\<close>, \<^verbatim>\<open>services/runtime_bootstrap.py\<close>,
    \<^verbatim>\<open>api/dependencies.py\<close>): only a composition in memory starts, and the state it starts in satisfies the invariants that the theorems
    about a running platform assume.

  \<^bold>\<open>The durable backend\<close> (\<^verbatim>\<open>repositories/sql/\<close>), a second implementation of the repositories over a relational database.
  \<^item> \<open>Sql_Database\<close>: the tables with their keys and checks (\<open>schema_ok\<close>), the transaction that commits or rolls back, and the locale \<open>simulation\<close>: when
    one call keeps a relation between two states and gives the same answer, so does every sequence of calls.
  \<^item> \<open>Sql_Sessions\<close>, \<open>Sql_Planes\<close> (enforcement plane; agents with the administrative plane; refusal evidence) and \<open>Sql_Records\<close> (continuations, tools,
    audit events): every operation, and an interpretation of \<open>simulation\<close> that relates it to the in-memory one. The sequences are those of
    fitting calls, a decidable condition on the state before each call: the rows it refers to exist, and its arguments are values that both backends accept and can represent.
    What the two backends do differently outside of it is stated beside it.

  \<^bold>\<open>Loops.\<close> The supervision loop of the process sandbox is a \<^theory_text>\<open>partial_function\<close> whose result \<open>None\<close> means that it runs forever; it is proved to
  return under \<open>clock_advances\<close>, that the clock passes every bound. Every other loop is a total function. There is no
  fuel anywhere.

  \<^bold>\<open>Not modelled.\<close> Model providers and the Ollama agent, which call external language models; telemetry,
  which no decision depends on; the scenario runner, demo material and verification handlers, which only
  exercise the platform; the migrations, which create the tables of \<open>Sql_Database\<close>; column widths, timestamps without a zone and the
  isolation of concurrent transactions, which belong to the database engine; the frontend.
\<close>

end
